(* ===== verification/Prelude.thy ===== *)
theory Prelude
  imports Complex_Main "HOL-Library.Word" "HOL-Library.Log_Nat"
begin

text \<open>
  Shared vocabulary of the Open303 wavetable development. C \<open>float\<close> and
  \<open>double\<close> values are modelled as \<open>real\<close> (exact arithmetic, no rounding),
  C \<open>int\<close> indices as \<open>int\<close>, \<open>unsigned int\<close> and the 32-bit
  \<open>unsigned long\<close> of the ESP32 as \<open>32 word\<close> (wrapping arithmetic). A read
  of a C array at an index outside the array is undefined behaviour in C; the
  model makes it the value \<open>None\<close> (\<open>read_at\<close>). This theory also holds the
  generic lemmas on these encodings that the component theories share.
\<close>

named_theorems model_simps "equations that evaluate the model on concrete inputs"

type_synonym u32 = "32 word"
type_synonym sample = real
type_synonym table = "real list"

subsection \<open>Array reads\<close>

definition read_at :: "'a list \<Rightarrow> int \<Rightarrow> 'a option" where
  "read_at xs i = (if 0 \<le> i \<and> i < int (length xs) then Some (xs ! nat i) else None)"

text \<open>The range of a C \<open>int\<close> (32 bits on the ESP32): signed overflow and the conversion
  of an out-of-range \<open>float\<close> to \<open>int\<close> are undefined behaviour, modelled as \<open>None\<close>.\<close>

definition int32_range :: "int \<Rightarrow> bool" where
  "int32_range k \<longleftrightarrow> - (2 ^ 31) \<le> k \<and> k < 2 ^ 31"

lemma read_at_Some_iff:
  "read_at xs i = Some x \<longleftrightarrow> 0 \<le> i \<and> i < int (length xs) \<and> x = xs ! nat i"
  by (auto simp: read_at_def)

lemma read_at_None_iff:
  "read_at xs i = None \<longleftrightarrow> i < 0 \<or> int (length xs) \<le> i"
  by (auto simp: read_at_def)

lemma read_at_in_range [simp, model_simps]:
  "0 \<le> i \<Longrightarrow> i < int (length xs) \<Longrightarrow> read_at xs i = Some (xs ! nat i)"
  by (simp add: read_at_def)

lemma read_at_nat [simp, model_simps]:
  "n < length xs \<Longrightarrow> read_at xs (int n) = Some (xs ! n)"
  by (simp add: read_at_def)

lemma read_at_beyond [simp, model_simps]:
  "int (length xs) \<le> i \<Longrightarrow> read_at xs i = None"
  by (simp add: read_at_def)

lemma read_at_negative [simp, model_simps]:
  "i < 0 \<Longrightarrow> read_at xs i = None"
  by (simp add: read_at_def)

lemma read_at_map [model_simps]:
  "read_at (map f xs) i = map_option f (read_at xs i)"
  unfolding read_at_def by (auto simp: nat_less_iff)

subsection \<open>Linear interpolation\<close>

text \<open>A convex combination of two values bounded by \<open>M\<close> is bounded by \<open>M\<close>.\<close>

lemma convex_abs_le:
  fixes a b f M :: real
  assumes "\<bar>a\<bar> \<le> M" "\<bar>b\<bar> \<le> M" "0 \<le> f" "f \<le> 1"
  shows "\<bar>(1 - f) * a + f * b\<bar> \<le> M"
proof -
  have "\<bar>(1 - f) * a\<bar> = (1 - f) * \<bar>a\<bar>" and "\<bar>f * b\<bar> = f * \<bar>b\<bar>"
    using assms(3,4) by (simp_all add: abs_mult)
  then have "\<bar>(1 - f) * a + f * b\<bar> \<le> (1 - f) * \<bar>a\<bar> + f * \<bar>b\<bar>"
    by (metis abs_triangle_ineq)
  also have "\<dots> \<le> (1 - f) * M + f * M"
    using assms by (intro add_mono mult_left_mono) auto
  finally show ?thesis by (simp add: algebra_simps)
qed

subsection \<open>Phase arithmetic\<close>

text \<open>
  \<open>wrap_mod L p\<close> is the mathematical remainder of a phase \<open>p\<close> modulo a
  period \<open>L\<close>, the value a wraparound loop is meant to compute.
\<close>

definition wrap_mod :: "real \<Rightarrow> real \<Rightarrow> real" where
  "wrap_mod L p = p - L * of_int \<lfloor>p / L\<rfloor>"

lemma wrap_mod_bounds:
  assumes "0 < L"
  shows "0 \<le> wrap_mod L p" and "wrap_mod L p < L"
proof -
  have "L * of_int \<lfloor>p / L\<rfloor> \<le> L * (p / L)"
    using assms by (intro mult_left_mono) auto
  then show "0 \<le> wrap_mod L p"
    using assms by (simp add: wrap_mod_def)
  have "L * (p / L) < L * (of_int \<lfloor>p / L\<rfloor> + 1)"
    using assms by (intro mult_strict_left_mono) auto
  then show "wrap_mod L p < L"
    using assms by (simp add: wrap_mod_def algebra_simps)
qed

lemma wrap_mod_shift_int:
  assumes "0 < L"
  shows "wrap_mod L (p + L * of_int k) = wrap_mod L p"
proof -
  have "(p + L * of_int k) / L = p / L + of_int k"
    using assms by (simp add: field_simps)
  then have "\<lfloor>(p + L * of_int k) / L\<rfloor> = \<lfloor>p / L\<rfloor> + k"
    by simp
  then show ?thesis
    by (simp add: wrap_mod_def algebra_simps)
qed

lemma wrap_mod_minus_period:
  "0 < L \<Longrightarrow> wrap_mod L (p - L) = wrap_mod L p"
  using wrap_mod_shift_int [of L p "-1"] by simp

lemma wrap_mod_small:
  "0 < L \<Longrightarrow> 0 \<le> p \<Longrightarrow> p < L \<Longrightarrow> wrap_mod L p = p"
  by (simp add: wrap_mod_def floor_eq_iff field_simps)

lemma wrap_mod_add:
  assumes "0 < L"
  shows "wrap_mod L (wrap_mod L p + x) = wrap_mod L (p + x)"
proof -
  have eq: "wrap_mod L p + x = (p + x) + L * of_int (- \<lfloor>p / L\<rfloor>)"
    by (simp add: wrap_mod_def)
  show ?thesis
    unfolding eq by (rule wrap_mod_shift_int [OF assms])
qed

subsection \<open>Powers of two in words\<close>

lemma unat_pow2_word:
  assumes "k < LENGTH('a::len)"
  shows "unat ((2::'a word) ^ k) = 2 ^ k"
proof -
  have "(2::'a word) ^ k \<noteq> 0"
    using assms by (simp add: exp_eq_zero_iff)
  then have "uint ((2::'a word) ^ k) = 2 ^ k"
    using uint_2p word_neq_0_conv by blast
  then show ?thesis
    by (simp add: unat_eq_nat_uint nat_power_eq)
qed

lemma pow2_word_double:
  "(2::'a::len word) ^ k * 2 = 2 ^ Suc k"
  by (simp add: mult.commute)

lemma pow2_word_len_zero:
  "(2::'a::len word) ^ LENGTH('a) = 0"
  by (simp add: exp_eq_zero_iff)

end
