(* ===== verification/FloatFunctions.thy ===== *)
theory FloatFunctions
  imports Prelude
begin

text \<open>
  The two float helpers the audio path of \<open>rosic_BlendOscillator.h\<close> and
  \<open>rosic_MipMappedWaveTable.h\<close> calls but which live outside \<open>src/\<close>
  (\<open>GlobalDefinitions.h\<close>, \<open>rosic_RealFunctions.h\<close>):
  \<^item> \<open>EXPOFFLT(value)\<close>, a macro that reinterprets the 32 bits of a \<open>float\<close>,
    masks the sign bit, shifts the 8-bit exponent field down and subtracts the
    bias 127; the unsigned difference is then cast to \<open>int\<close>. It is modelled
    on the bit pattern (\<open>EXPOFFLT\<close>) and, for the real-valued model of the
    oscillator, as the exponent of a real number (\<open>float_exponent\<close>); the
    theorem \<open>EXPOFFLT_float_val\<close> shows that the two agree on every finite
    single-precision value.
  \<^item> \<open>floorInt(x)\<close>, the integer floor.
\<close>

unbundle bit_operations_syntax

subsection \<open>The exponent macro on the bit pattern\<close>

definition float_expfield :: "u32 \<Rightarrow> u32" where
  "float_expfield bits = drop_bit 23 (bits AND 0x7FFFFFFF)"

definition EXPOFFLT :: "u32 \<Rightarrow> int" where
  "EXPOFFLT bits = sint (float_expfield bits - 127)"

text \<open>Decoding of an IEEE-754 single-precision bit pattern that is not infinite or NaN.\<close>

definition float_val :: "u32 \<Rightarrow> real" where
  "float_val bits =
     (let s = (if bit bits 31 then -1 else 1 :: real);
          e = unat (float_expfield bits);
          m = real (unat (bits AND 0x7FFFFF))
      in if e = 0 then s * (m / 2 ^ 23) * 2 powi (-126)
         else s * (1 + m / 2 ^ 23) * 2 powi (int e - 127))"

subsection \<open>The exponent of a real number\<close>

text \<open>
  \<open>float_exponent x\<close> is the exponent field minus the bias of the
  single-precision float holding \<open>x\<close>: \<open>-127\<close> for zero and the
  subnormal range, \<open>128\<close> beyond the largest finite float, and
  \<open>\<lfloor>log\<^sub>2 \<bar>x\<bar>\<rfloor>\<close> in between, computed with \<open>bitlen\<close> so that it evaluates.
\<close>

definition float_exponent :: "real \<Rightarrow> int" where
  "float_exponent x =
     (let a = \<bar>x\<bar> in
      if a < 2 powi (-126) then -127
      else if 2 ^ 128 \<le> a then 128
      else if 1 \<le> a then bitlen \<lfloor>a\<rfloor> - 1
      else - bitlen (\<lceil>1 / a\<rceil> - 1))"

definition floorInt :: "real \<Rightarrow> int" where
  "floorInt x = \<lfloor>x\<rfloor>"

subsection \<open>The exponent field\<close>

lemma unat_float_expfield_less: "unat (float_expfield bits) < 256"
proof -
  have "unat (bits AND 0x7FFFFFFF) \<le> unat (0x7FFFFFFF :: u32)"
    by (rule word_and_le1 [THEN word_le_nat_alt [THEN iffD1]])
  then have "unat (bits AND 0x7FFFFFFF) < 2 ^ 31" by simp
  then have "unat (bits AND 0x7FFFFFFF) div 2 ^ 23 < 2 ^ 8"
    by (simp add: less_mult_imp_div_less)
  then show ?thesis
    by (simp add: float_expfield_def drop_bit_eq_div unat_div)
qed

lemma EXPOFFLT_eq: "EXPOFFLT bits = int (unat (float_expfield bits)) - 127"
proof -
  define w where "w = float_expfield bits"
  have lt: "unat w < 256" unfolding w_def by (rule unat_float_expfield_less)
  have "w - 127 = word_of_int (uint w - 127)"
    by simp
  then have "sint (w - 127) = sint (word_of_int (uint w - 127) :: u32)"
    by (simp only:)
  also have "\<dots> = signed_take_bit 31 (uint w - 127)"
    by (simp only: sint_sbintrunc') simp
  also have "\<dots> = uint w - 127"
  proof (rule signed_take_bit_int_eq_self)
    have "uint w < 256"
      using lt uint_nat [of w] by linarith
    then show "uint w - 127 < 2 ^ 31" by simp
    have "0 \<le> uint w" by simp
    then show "- (2 ^ 31) \<le> uint w - 127" by simp
  qed
  finally show ?thesis
    by (simp only: EXPOFFLT_def w_def uint_nat)
qed

subsection \<open>Powers of two with integer exponents\<close>

lemma two_powi_pos: "0 < (2::real) powi k"
  by simp

lemma two_powi_strict_mono: "j < k \<Longrightarrow> (2::real) powi j < 2 powi k"
  by (rule power_int_strict_increasing) auto

lemma two_powi_mono: "j \<le> k \<Longrightarrow> (2::real) powi j \<le> 2 powi k"
  using two_powi_strict_mono [of j k] by (cases "j = k") simp_all

lemma two_powi_exponent_unique:
  assumes "(2::real) powi j \<le> a" "a < 2 powi (j + 1)"
      and "(2::real) powi k \<le> a" "a < 2 powi (k + 1)"
  shows "j = k"
proof (rule ccontr)
  assume "j \<noteq> k"
  then consider "j + 1 \<le> k" | "k + 1 \<le> j" by linarith
  then show False
  proof cases
    case 1
    then have "(2::real) powi (j + 1) \<le> 2 powi k"
      by (intro power_int_increasing) auto
    with assms show False by linarith
  next
    case 2
    then have "(2::real) powi (k + 1) \<le> 2 powi j"
      by (intro power_int_increasing) auto
    with assms show False by linarith
  qed
qed

lemma powi_nat_real: "0 \<le> k \<Longrightarrow> (2::real) powi k = 2 ^ nat k"
  by (simp add: power_int_def)

subsection \<open>The exponent of a real number: bounds\<close>

lemma float_exponent_ge1:
  assumes "1 \<le> a" "a < 2 ^ 128"
  shows "float_exponent a = bitlen \<lfloor>a\<rfloor> - 1"
proof -
  have "\<not> a < 2 powi (-126)"
  proof -
    have "(2::real) powi (-126) < 2 powi 0" by (rule two_powi_strict_mono) simp
    with assms show ?thesis by simp
  qed
  with assms show ?thesis by (simp add: float_exponent_def)
qed

lemma bitlen_floor_bounds:
  fixes a :: real
  assumes "1 \<le> a"
  shows "2 powi (bitlen \<lfloor>a\<rfloor> - 1) \<le> a" and "a < 2 powi (bitlen \<lfloor>a\<rfloor>)"
proof -
  define n where "n = \<lfloor>a\<rfloor>"
  have n1: "1 \<le> n" using assms by (simp add: n_def)
  then have b: "2 ^ nat (bitlen n - 1) \<le> n \<and> n < 2 ^ nat (bitlen n)"
    by (intro bitlen_bounds) simp
  have b1: "1 \<le> bitlen n" using n1 by (simp add: bitlen_alt_def)
  have "(2::real) ^ nat (bitlen n - 1) \<le> of_int n"
    using b by (metis of_int_le_iff of_int_numeral of_int_power)
  also have "of_int n \<le> a" by (simp add: n_def)
  finally show "2 powi (bitlen \<lfloor>a\<rfloor> - 1) \<le> a"
    using b1 by (simp add: powi_nat_real n_def)
  have "a < of_int n + 1" by (simp add: n_def)
  also have "of_int n + 1 \<le> (2::real) ^ nat (bitlen n)"
    using b by (metis add1_zle_eq of_int_le_iff of_int_numeral of_int_power of_int_add of_int_1)
  finally show "a < 2 powi (bitlen \<lfloor>a\<rfloor>)"
    using b1 by (simp add: powi_nat_real n_def)
qed


lemma bitlen_ceil_inverse_bounds:
  fixes a :: real
  assumes "0 < a" "a < 1"
  defines "b \<equiv> bitlen (\<lceil>1 / a\<rceil> - 1)"
  shows "2 powi (- b) \<le> a" and "a < 2 powi (- b + 1)"
proof -
  define c where "c = \<lceil>1 / a\<rceil>"
  have inv1: "1 < 1 / a" using assms by simp
  then have c2: "2 \<le> c" unfolding c_def by linarith
  then have b: "2 ^ nat (bitlen (c - 1) - 1) \<le> c - 1 \<and> c - 1 < 2 ^ nat (bitlen (c - 1))"
    by (intro bitlen_bounds) simp
  have b1: "1 \<le> b" using c2 by (simp add: b_def c_def bitlen_alt_def)
  have "1 / a \<le> of_int c" by (simp add: c_def)
  also have "of_int c \<le> (2::real) ^ nat b"
    using b by (simp add: b_def c_def)
  finally have "1 / 2 ^ nat b \<le> a"
    using assms(1) by (simp add: field_simps)
  then show "2 powi (- b) \<le> a"
    using b1 by (simp add: power_int_minus powi_nat_real divide_inverse)
  have bb: "b = bitlen (c - 1)" by (simp add: b_def c_def)
  have "2 ^ nat (b - 1) \<le> c - 1" using b by (simp only: bb)
  then have "real_of_int (2 ^ nat (b - 1)) \<le> real_of_int (c - 1)"
    by (simp only: of_int_le_iff)
  then have "(2::real) ^ nat (b - 1) \<le> of_int (c - 1)"
    by (simp only: of_int_power of_int_numeral)
  also have "of_int (c - 1) < 1 / a" unfolding c_def by linarith
  finally have "a < 1 / 2 ^ nat (b - 1)"
    using assms(1) by (simp add: field_simps)
  moreover have "(2::real) powi (- b + 1) = 1 / 2 ^ nat (b - 1)"
  proof -
    have "- b + 1 = - (b - 1)" by simp
    then show ?thesis
      using b1 by (simp only: power_int_minus powi_nat_real) (simp add: divide_inverse)
  qed
  ultimately show "a < 2 powi (- b + 1)" by simp
qed


lemma float_exponent_bounds:
  assumes "2 powi (-126) \<le> \<bar>x\<bar>" "\<bar>x\<bar> < 2 ^ 128"
  shows "2 powi (float_exponent x) \<le> \<bar>x\<bar> \<and> \<bar>x\<bar> < 2 powi (float_exponent x + 1)"
proof (cases "1 \<le> \<bar>x\<bar>")
  case True
  then have "float_exponent x = bitlen \<lfloor>\<bar>x\<bar>\<rfloor> - 1"
    using assms float_exponent_ge1 [of "\<bar>x\<bar>"] by (simp add: float_exponent_def)
  with bitlen_floor_bounds [OF True] show ?thesis by simp
next
  case False
  have pos: "0 < \<bar>x\<bar>"
    using assms(1) two_powi_pos [of "-126"] by linarith
  have "float_exponent x = - bitlen (\<lceil>1 / \<bar>x\<bar>\<rceil> - 1)"
    using assms False by (simp add: float_exponent_def)
  with bitlen_ceil_inverse_bounds [OF pos] False show ?thesis by simp
qed

lemma float_exponent_eqI:
  assumes "2 powi k \<le> \<bar>x\<bar>" "\<bar>x\<bar> < 2 powi (k + 1)" "-126 \<le> k" "k \<le> 127"
  shows "float_exponent x = k"
proof -
  have "(2::real) powi (-126) \<le> 2 powi k"
    using assms(3) by (intro power_int_increasing) auto
  with assms(1) have lo: "2 powi (-126) \<le> \<bar>x\<bar>" by linarith
  have "(2::real) powi (k + 1) \<le> 2 powi 128"
    using assms(4) by (intro power_int_increasing) auto
  with assms(2) have hi: "\<bar>x\<bar> < 2 ^ 128" by simp
  from float_exponent_bounds [OF lo hi] assms(1,2) show ?thesis
    by (blast intro: two_powi_exponent_unique)
qed

lemma float_exponent_le:
  assumes "\<bar>x\<bar> < 2 powi (k + 1)" "-127 \<le> k" "k \<le> 127"
  shows "float_exponent x \<le> k"
proof (cases "\<bar>x\<bar> < 2 powi (-126)")
  case True
  then show ?thesis using assms(2) by (simp add: float_exponent_def)
next
  case False
  then have lo: "2 powi (-126) \<le> \<bar>x\<bar>" by simp
  have "(2::real) powi (k + 1) \<le> 2 powi 128"
    using assms(3) by (intro power_int_increasing) auto
  with assms(1) have hi: "\<bar>x\<bar> < 2 ^ 128" by simp
  show ?thesis
  proof (rule ccontr)
    assume "\<not> float_exponent x \<le> k"
    then have "(2::real) powi (k + 1) \<le> 2 powi (float_exponent x)"
      by (intro power_int_increasing) auto
    with float_exponent_bounds [OF lo hi] assms(1) show False by linarith
  qed
qed

lemma float_exponent_small:
  "\<bar>x\<bar> < 2 powi (-126) \<Longrightarrow> float_exponent x = -127"
  by (simp add: float_exponent_def)


subsection \<open>The macro agrees with the exponent of the decoded value\<close>

lemma unat_float_fraction_less: "unat ((bits::u32) AND 0x7FFFFF) < 2 ^ 23"
proof -
  have "unat (bits AND 0x7FFFFF) \<le> unat (0x7FFFFF :: u32)"
    by (rule word_and_le1 [THEN word_le_nat_alt [THEN iffD1]])
  then show ?thesis by simp
qed

lemma abs_float_val:
  "\<bar>float_val bits\<bar> =
     (let e = unat (float_expfield bits); m = real (unat (bits AND 0x7FFFFF))
      in if e = 0 then (m / 2 ^ 23) * 2 powi (-126) else (1 + m / 2 ^ 23) * 2 powi (int e - 127))"
  by (simp add: float_val_def Let_def abs_mult del: of_nat_unat)

lemma EXPOFFLT_float_val:
  assumes "unat (float_expfield bits) \<noteq> 255"
  shows "EXPOFFLT bits = float_exponent (float_val bits)"
proof -
  define e where "e = unat (float_expfield bits)"
  define m where "m = real (unat (bits AND 0x7FFFFF))"
  have e256: "e < 256" unfolding e_def by (rule unat_float_expfield_less)
  have m0: "0 \<le> m" and m1: "m / 2 ^ 23 < 1"
    using unat_float_fraction_less [of bits] by (simp_all add: m_def del: of_nat_unat)
  have ex: "EXPOFFLT bits = int e - 127" by (simp add: EXPOFFLT_eq e_def)
  show ?thesis
  proof (cases "e = 0")
    case True
    have "\<bar>float_val bits\<bar> = (m / 2 ^ 23) * 2 powi (-126)"
      using True by (simp add: abs_float_val Let_def e_def m_def del: of_nat_unat)
    also have "\<dots> < 1 * 2 powi (-126)"
      using m1 by (intro mult_strict_right_mono) simp_all
    finally show ?thesis
      using True ex by (simp add: float_exponent_small)
  next
    case False
    have v: "\<bar>float_val bits\<bar> = (1 + m / 2 ^ 23) * 2 powi (int e - 127)"
      using False by (simp add: abs_float_val Let_def e_def m_def del: of_nat_unat)
    have "1 * 2 powi (int e - 127) \<le> (1 + m / 2 ^ 23) * (2::real) powi (int e - 127)"
      using m0 by (intro mult_right_mono) simp_all
    then have lo: "2 powi (int e - 127) \<le> \<bar>float_val bits\<bar>" by (simp add: v)
    have "(1 + m / 2 ^ 23) * (2::real) powi (int e - 127) < 2 * 2 powi (int e - 127)"
      using m1 by (intro mult_strict_right_mono) simp_all
    also have "\<dots> = 2 powi (int e - 127 + 1)"
      by (rule power_int_add_1' [symmetric]) simp
    finally have hi: "\<bar>float_val bits\<bar> < 2 powi (int e - 127 + 1)" by (simp add: v)
    have "e \<noteq> 255" using assms by (simp add: e_def)
    with e256 have "e \<le> 254" by simp
    with False have "-126 \<le> int e - 127" "int e - 127 \<le> 127"
      by linarith+
    with lo hi ex show ?thesis by (simp add: float_exponent_eqI)
  qed
qed


end
