(* ===== verification/WaveTable.thy ===== *)
theory WaveTable
  imports FloatFunctions
begin

text \<open>
  The band-limited wavetable store, class \<open>MipMappedWaveTable\<close> of
  \<open>src/Open303/rosic_MipMappedWaveTable.h\<close>: its waveform enumeration, its
  state (a record with the fields of the class), the table-index clamp and the
  two interpolating lookups \<open>getValueLinear\<close> of the header. The table set is a
  list of \<open>numTables\<close> rows of \<open>tableLength + 4\<close> samples; reading a row or a
  sample outside the C array yields \<open>None\<close>. The invariant \<open>wf_wavetable\<close>
  states the shape the constructor and \<open>generateMipMap\<close> establish: twelve
  rows of 516 samples whose last four samples repeat the first four (the guard
  samples that spare the interpolator a wraparound test).
\<close>

subsection \<open>Data\<close>

datatype waveforms = SILENCE | SINE | TRIANGLE | SQUARE | SAW | SQUARE303 | SAW303

definition tableLength :: nat where
  "tableLength = 512"

definition numTables :: nat where
  "numTables = 12"

record MipMappedWaveTable =
  symmetry :: real
  waveform :: int
  wtSampleRate :: real
  prototypeTable :: "real list"
  tableSet :: "real list list"
  tanhShaperFactor :: real
  tanhShaperOffset :: real
  squarePhaseShift :: real

subsection \<open>Lookup\<close>

text \<open>\<open>tableSet[t][i]\<close>: a read of the two-dimensional C array.\<close>

definition tableSet_read :: "real list list \<Rightarrow> int \<Rightarrow> int \<Rightarrow> real option" where
  "tableSet_read ts t i = (case read_at ts t of None \<Rightarrow> None | Some row \<Rightarrow> read_at row i)"

text \<open>The defensive clamp at the head of \<open>getValueLinear(int, float, int)\<close>.\<close>

definition clampTableIndex :: "int \<Rightarrow> int" where
  "clampTableIndex tableIndex =
     (if tableIndex \<le> 0 then 0
      else if tableIndex > int numTables then 11
      else tableIndex)"

definition getValueLinear :: "MipMappedWaveTable \<Rightarrow> int \<Rightarrow> real \<Rightarrow> int \<Rightarrow> real option" where
  "getValueLinear wt integerPart fractionalPart tableIndex =
     (let t = clampTableIndex tableIndex in
      case (tableSet_read (tableSet wt) t integerPart,
            tableSet_read (tableSet wt) t (integerPart + 1)) of
        (Some a, Some b) \<Rightarrow> Some ((1 - fractionalPart) * a + fractionalPart * b)
      | _ \<Rightarrow> None)"

definition getValueLinearPhase :: "MipMappedWaveTable \<Rightarrow> real \<Rightarrow> int \<Rightarrow> real option" where
  "getValueLinearPhase wt phaseIndex tableIndex =
     (let intIndex = floorInt phaseIndex;
          frac = phaseIndex - of_int intIndex
      in getValueLinear wt intIndex frac tableIndex)"

subsection \<open>Invariant\<close>

definition wf_row :: "real list \<Rightarrow> bool" where
  "wf_row r \<longleftrightarrow> length r = tableLength + 4 \<and> drop tableLength r = take 4 r"

definition wf_wavetable :: "MipMappedWaveTable \<Rightarrow> bool" where
  "wf_wavetable wt \<longleftrightarrow>
     length (tableSet wt) = numTables \<and> list_all wf_row (tableSet wt) \<and>
     length (prototypeTable wt) = tableLength + 4"

subsection \<open>A concrete table set\<close>

text \<open>
  A table set of the invariant's shape, used to instantiate the theorems below:
  every row holds the ramp \<open>0, 1, \<dots>, 511\<close> followed by its first four samples.
\<close>

definition demo_row :: "real list" where
  "demo_row = map real [0..<tableLength] @ map real [0..<4]"

definition demo_wavetable :: MipMappedWaveTable where
  "demo_wavetable =
     \<lparr>symmetry = 1 / 2, waveform = 1, wtSampleRate = 44100, prototypeTable = demo_row,
      tableSet = replicate numTables demo_row, tanhShaperFactor = 1,
      tanhShaperOffset = 0, squarePhaseShift = 0\<rparr>"


subsection \<open>The invariant and the clamp\<close>

lemma wf_row_length: "wf_row r \<Longrightarrow> length r = tableLength + 4"
  by (simp add: wf_row_def)

lemma wf_row_guard:
  assumes "wf_row r" "k < 4"
  shows "r ! (tableLength + k) = r ! k"
proof -
  have "tableLength \<le> length r"
    using assms(1) by (simp add: wf_row_def)
  then have "r ! (tableLength + k) = drop tableLength r ! k"
    by (simp add: nth_drop)
  also have "\<dots> = take 4 r ! k"
    using assms(1) by (simp add: wf_row_def)
  also have "\<dots> = r ! k"
    using assms(2) by simp
  finally show ?thesis .
qed

lemma wf_wavetable_row:
  "wf_wavetable wt \<Longrightarrow> t < numTables \<Longrightarrow> wf_row (tableSet wt ! t)"
  by (simp add: wf_wavetable_def list_all_length)

lemma clampTableIndex_nonneg: "0 \<le> clampTableIndex ti"
  by (simp add: clampTableIndex_def)

lemma clampTableIndex_le: "clampTableIndex ti \<le> int numTables"
  by (simp add: clampTableIndex_def numTables_def)

lemma clampTableIndex_eq_numTables_iff:
  "clampTableIndex ti = int numTables \<longleftrightarrow> ti = int numTables"
  by (simp add: clampTableIndex_def numTables_def)

lemma clampTableIndex_valid [simp]:
  "0 \<le> ti \<Longrightarrow> ti < int numTables \<Longrightarrow> clampTableIndex ti = ti"
  by (simp add: clampTableIndex_def numTables_def)

lemma tableSet_read_wf:
  assumes "wf_wavetable wt" "0 \<le> t" "t < int numTables" "0 \<le> i" "i < int tableLength + 4"
  shows "tableSet_read (tableSet wt) t i = Some (tableSet wt ! nat t ! nat i)"
proof -
  have t: "nat t < numTables" using assms(2,3) by simp
  have "wf_row (tableSet wt ! nat t)" using wf_wavetable_row [OF assms(1) t] .
  then have "length (tableSet wt ! nat t) = tableLength + 4" by (rule wf_row_length)
  with assms t show ?thesis
    by (simp add: tableSet_read_def wf_wavetable_def)
qed

lemma tableSet_read_numTables:
  "wf_wavetable wt \<Longrightarrow> tableSet_read (tableSet wt) (int numTables) i = None"
  by (simp add: tableSet_read_def wf_wavetable_def)


subsection \<open>Lookup\<close>

lemma getValueLinear_in_range:
  assumes "wf_wavetable wt" "0 \<le> t" "t < int numTables" "0 \<le> ip" "ip < int tableLength + 3"
  shows "getValueLinear wt ip fr t =
           Some ((1 - fr) * tableSet wt ! nat t ! nat ip + fr * tableSet wt ! nat t ! (nat ip + 1))"
proof -
  have a: "tableSet_read (tableSet wt) t ip = Some (tableSet wt ! nat t ! nat ip)"
    using assms by (intro tableSet_read_wf) simp_all
  have b: "tableSet_read (tableSet wt) t (ip + 1) = Some (tableSet wt ! nat t ! (nat ip + 1))"
    using assms tableSet_read_wf [of wt t "ip + 1"] by (simp add: nat_add_distrib)
  show ?thesis
    using assms(2,3) by (simp add: getValueLinear_def a b)
qed

lemma getValueLinear_clamped_eq:
  assumes "wf_wavetable wt" "0 \<le> ip" "ip < int tableLength + 3" "ti \<noteq> int numTables"
  shows "getValueLinear wt ip fr ti =
           Some ((1 - fr) * tableSet wt ! nat (clampTableIndex ti) ! nat ip
                 + fr * tableSet wt ! nat (clampTableIndex ti) ! (nat ip + 1))"
proof -
  let ?t = "clampTableIndex ti"
  have "0 \<le> ?t" by (rule clampTableIndex_nonneg)
  moreover have "?t < int numTables"
    using clampTableIndex_le [of ti] clampTableIndex_eq_numTables_iff [of ti] assms(4) by linarith
  moreover have "getValueLinear wt ip fr ti = getValueLinear wt ip fr ?t"
    by (simp add: getValueLinear_def clampTableIndex_def numTables_def)
  ultimately show ?thesis
    using assms(1-3) getValueLinear_in_range by simp
qed

lemma getValueLinear_at_numTables:
  "wf_wavetable wt \<Longrightarrow> getValueLinear wt ip fr (int numTables) = None"
  using tableSet_read_numTables [of wt] by (simp add: getValueLinear_def clampTableIndex_def numTables_def)

lemma getValueLinear_negative_index:
  "ip < 0 \<Longrightarrow> getValueLinear wt ip fr ti = None"
  by (simp add: getValueLinear_def tableSet_read_def Let_def split: option.splits)

text \<open>
  C10 (functional). On a well-formed table set, \<open>getValueLinear\<close> returns, for
  every integer position whose right neighbour lies inside the row and every table
  index other than \<open>numTables\<close>, the linear interpolation between the samples at
  that position and the next one of the row selected by the clamp.
\<close>

theorem getValueLinear_interpolates:
  assumes "wf_wavetable wt" "0 \<le> ip" "ip < int tableLength + 3" "ti \<noteq> int numTables"
  shows "getValueLinear wt ip fr ti =
           Some ((1 - fr) * tableSet wt ! nat (clampTableIndex ti) ! nat ip
                 + fr * tableSet wt ! nat (clampTableIndex ti) ! (nat ip + 1))"
  using assms by (rule getValueLinear_clamped_eq)

text \<open>
  C9 (error). The clamp tests \<open>tableIndex > numTables\<close>, so the index
  \<open>numTables\<close> itself (12) is not clamped: on a well-formed table set the lookup
  reads a thirteenth row that does not exist, which the model reports as
  \<open>None\<close>.
\<close>

theorem getValueLinear_numTables_None:
  "wf_wavetable wt \<Longrightarrow> getValueLinear wt ip fr (int numTables) = None"
  by (rule getValueLinear_at_numTables)


text \<open>
  C11 (functional). At fraction 0 and 1 the interpolation is exact: it returns the
  stored samples \<open>table[L][i]\<close> and \<open>table[L][i+1]\<close> for every valid level.
\<close>

theorem getValueLinear_exact_at_nodes:
  assumes "wf_wavetable wt" "0 \<le> ip" "ip < int tableLength + 3" "0 \<le> L" "L < int numTables"
  shows "getValueLinear wt ip 0 L = Some (tableSet wt ! nat L ! nat ip) \<and>
         getValueLinear wt ip 1 L = Some (tableSet wt ! nat L ! (nat ip + 1))"
  using getValueLinear_in_range [OF assms(1,4,5,2,3)] by simp

text \<open>
  Thanks to the guard samples, interpolating from the last sample
  of a row (index \<open>tableLength - 1\<close>) blends with the first sample of the row,
  without a wraparound test.
\<close>

theorem getValueLinear_guard_wraparound:
  assumes "wf_wavetable wt" "0 \<le> L" "L < int numTables"
  shows "getValueLinear wt (int tableLength - 1) fr L =
           Some ((1 - fr) * tableSet wt ! nat L ! (tableLength - 1) + fr * tableSet wt ! nat L ! 0)"
proof -
  have "nat L < numTables" using assms(2,3) by simp
  then have "wf_row (tableSet wt ! nat L)" by (rule wf_wavetable_row [OF assms(1)])
  then have g: "tableSet wt ! nat L ! tableLength = tableSet wt ! nat L ! 0"
    using wf_row_guard [of "tableSet wt ! nat L" 0] by simp
  have "getValueLinear wt (int tableLength - 1) fr L =
          Some ((1 - fr) * tableSet wt ! nat L ! (tableLength - 1)
                + fr * tableSet wt ! nat L ! (tableLength - 1 + 1))"
    using getValueLinear_in_range [OF assms(1,2,3), of "int tableLength - 1" fr]
    by (simp add: tableLength_def nat_diff_distrib)
  also have "tableLength - 1 + 1 = tableLength" by (simp add: tableLength_def)
  finally show ?thesis by (simp only: g)
qed

lemma tableSet_read_Some_mem:
  assumes "tableSet_read ts t i = Some x"
  shows "\<exists>row \<in> set ts. x \<in> set row"
proof -
  from assms have "nat t < length ts" "nat i < length (ts ! nat t)" "x = ts ! nat t ! nat i"
    by (auto simp: tableSet_read_def read_at_Some_iff split: option.splits)
  then show ?thesis by (metis nth_mem)
qed

text \<open>
  C12 (bounds). When the fraction lies in \<open>[0, 1]\<close>, a value returned by
  \<open>getValueLinear\<close> is bounded by any bound of the stored samples.
\<close>

theorem getValueLinear_bounded:
  assumes "getValueLinear wt ip fr ti = Some y" "0 \<le> fr" "fr \<le> 1"
      and "list_all (list_all (\<lambda>x. \<bar>x\<bar> \<le> M)) (tableSet wt)"
  shows "\<bar>y\<bar> \<le> M"
proof -
  obtain a b where
    ra: "tableSet_read (tableSet wt) (clampTableIndex ti) ip = Some a" and
    rb: "tableSet_read (tableSet wt) (clampTableIndex ti) (ip + 1) = Some b" and
    y: "y = (1 - fr) * a + fr * b"
    using assms(1) by (auto simp: getValueLinear_def Let_def split: option.splits)
  have "\<bar>a\<bar> \<le> M" "\<bar>b\<bar> \<le> M"
    using tableSet_read_Some_mem [OF ra] tableSet_read_Some_mem [OF rb] assms(4)
    by (auto simp: list_all_iff)
  then show ?thesis
    unfolding y using assms(2,3) by (rule convex_abs_le)
qed

text \<open>
  C13 (functional). The phase lookup splits a phase in \<open>[0, tableLength + 3)\<close>
  into integer and fractional part and interpolates between the two neighbouring
  samples of the clamped table.
\<close>

theorem getValueLinearPhase_interpolates:
  assumes "wf_wavetable wt" "0 \<le> phase" "phase < real tableLength + 3" "ti \<noteq> int numTables"
  shows "getValueLinearPhase wt phase ti =
           Some ((1 - (phase - of_int \<lfloor>phase\<rfloor>)) * tableSet wt ! nat (clampTableIndex ti) ! nat \<lfloor>phase\<rfloor>
                 + (phase - of_int \<lfloor>phase\<rfloor>) * tableSet wt ! nat (clampTableIndex ti) ! (nat \<lfloor>phase\<rfloor> + 1))"
proof -
  have h0: "0 \<le> \<lfloor>phase\<rfloor>" using assms(2) by simp
  have h1: "\<lfloor>phase\<rfloor> < int tableLength + 3"
    using assms(3) by (simp add: tableLength_def floor_less_iff)
  show ?thesis
    using getValueLinear_clamped_eq [OF assms(1) h0 h1 assms(4), of "phase - of_int \<lfloor>phase\<rfloor>"]
    by (simp only: getValueLinearPhase_def floorInt_def Let_def)
qed

subsection \<open>Instances\<close>

lemma demo_wavetable_wf: "wf_wavetable demo_wavetable"
  by (simp add: wf_wavetable_def demo_wavetable_def wf_row_def demo_row_def
      tableLength_def numTables_def list_all_iff take_map take_upt)

theorem getValueLinear_interpolates_witness:
  "wf_wavetable demo_wavetable \<and> (0::int) \<le> 510 \<and> (510::int) < int tableLength + 3 \<and>
   (3::int) \<noteq> int numTables \<and> getValueLinear demo_wavetable 510 (1 / 4) 3 = Some (2041 / 4)"
  using demo_wavetable_wf getValueLinear_interpolates [OF demo_wavetable_wf, of 510 3 "1 / 4"]
  by (simp add: demo_wavetable_def demo_row_def tableLength_def numTables_def
      clampTableIndex_def nth_append)

theorem getValueLinear_numTables_None_witness:
  "wf_wavetable demo_wavetable \<and> getValueLinear demo_wavetable 5 (1 / 2) 12 = None"
  using demo_wavetable_wf getValueLinear_numTables_None [OF demo_wavetable_wf, of 5 "1 / 2"]
  by (simp add: numTables_def)

theorem getValueLinear_exact_at_nodes_witness:
  "wf_wavetable demo_wavetable \<and> (0::int) \<le> 7 \<and> (7::int) < int tableLength + 3 \<and>
   (0::int) \<le> 2 \<and> (2::int) < int numTables \<and>
   getValueLinear demo_wavetable 7 0 2 = Some 7 \<and> getValueLinear demo_wavetable 7 1 2 = Some 8"
  using demo_wavetable_wf getValueLinear_exact_at_nodes [OF demo_wavetable_wf, of 7 2]
  by (simp add: demo_wavetable_def demo_row_def tableLength_def numTables_def nth_append)

theorem getValueLinear_guard_wraparound_witness:
  "wf_wavetable demo_wavetable \<and> (0::int) \<le> 0 \<and> (0::int) < int numTables \<and>
   getValueLinear demo_wavetable 511 (1 / 2) 0 = Some (511 / 2)"
  using demo_wavetable_wf getValueLinear_guard_wraparound [OF demo_wavetable_wf, of 0 "1 / 2"]
  by (simp add: demo_wavetable_def demo_row_def tableLength_def numTables_def nth_append)

theorem getValueLinear_bounded_witness:
  "getValueLinear demo_wavetable 3 (1 / 2) 0 = Some (7 / 2) \<and> (0::real) \<le> 1 / 2 \<and> (1 / 2::real) \<le> 1 \<and>
   list_all (list_all (\<lambda>x. \<bar>x\<bar> \<le> 511)) (tableSet demo_wavetable) \<and> \<bar>7 / 2 :: real\<bar> \<le> 511"
proof -
  have g: "getValueLinear demo_wavetable 3 (1 / 2) 0 = Some (7 / 2)"
    using getValueLinear_in_range [OF demo_wavetable_wf, of 0 3 "1 / 2"]
    by (simp add: demo_wavetable_def demo_row_def tableLength_def numTables_def nth_append)
  have b: "list_all (list_all (\<lambda>x. \<bar>x\<bar> \<le> 511)) (tableSet demo_wavetable)"
    by (auto simp: demo_wavetable_def demo_row_def tableLength_def numTables_def list_all_iff)
  show ?thesis
    using g b getValueLinear_bounded [OF g _ _ b] by simp
qed

theorem getValueLinearPhase_interpolates_witness:
  "wf_wavetable demo_wavetable \<and> (0::real) \<le> 21 / 2 \<and> (21 / 2::real) < real tableLength + 3 \<and>
   (20::int) \<noteq> int numTables \<and> getValueLinearPhase demo_wavetable (21 / 2) 20 = Some (21 / 2)"
proof -
  have f: "\<lfloor>(21 / 2::real)\<rfloor> = 10" by simp
  show ?thesis
    using demo_wavetable_wf getValueLinearPhase_interpolates [OF demo_wavetable_wf, of "21 / 2" 20]
    by (simp add: f demo_wavetable_def demo_row_def tableLength_def numTables_def
        clampTableIndex_def nth_append)
qed

end
