(* ===== verification/BlendOscillator.thy ===== *)
theory BlendOscillator
  imports WaveTable
begin

text \<open>
  The phase-accumulating cross-fade oscillator, class \<open>BlendOscillator\<close> of
  \<open>src/Open303/rosic_BlendOscillator.h\<close>. Its state is the record
  \<open>BlendOscillator\<close>; the two non-owning \<open>MipMappedWaveTable*\<close> pointers are
  addresses (\<open>nat option\<close>, \<open>None\<close> for \<open>NULL\<close>) into an explicit heap of
  wavetables, so that two oscillators, or both pointers of one, may share a table.
  \<open>getSample\<close> returns the sample and the new oscillator state, or an error value
  for the two ways the C code can go wrong: the wraparound loop not returning, and a
  table read outside the C arrays (undefined behaviour in C). The control-rate
  setters are collected in a datatype of operations with a step function, so that
  invariants over any sequence of parameter changes can be stated.
  Operations whose bodies live in \<open>BlendOscillator.cpp\<close> (constructor,
  \<open>setSampleRate\<close>, \<open>setStartPhase\<close>, \<open>resetPhase\<close>, \<open>setPhase\<close>) are modelled
  from the spec.
\<close>

subsection \<open>State\<close>

record BlendOscillator =
  tableLengthDbl :: real
  phaseIndex :: real
  freq :: real
  increment :: real
  blend :: real
  startIndex :: real
  sampleRate :: real
  sampleRateRec :: real
  waveTable1 :: "nat option"
  waveTable2 :: "nat option"

type_synonym wt_heap = "nat \<Rightarrow> MipMappedWaveTable"

datatype osc_error = PhaseLoopDiverges | TableReadOutOfRange

subsection \<open>Construction and control-rate setters\<close>

definition initBlendOscillator :: BlendOscillator where
  "initBlendOscillator =
     \<lparr>tableLengthDbl = real tableLength, phaseIndex = 0, freq = 440,
      increment = real tableLength * 440 / 44100, blend = 0, startIndex = 0,
      sampleRate = 44100, sampleRateRec = 1 / 44100,
      waveTable1 = None, waveTable2 = None\<rparr>"

definition setSampleRate :: "BlendOscillator \<Rightarrow> real \<Rightarrow> BlendOscillator" where
  "setSampleRate osc newSampleRate =
     (if 0 < newSampleRate
      then osc\<lparr>sampleRate := newSampleRate, sampleRateRec := 1 / newSampleRate\<rparr>
      else osc)"

definition setStartPhase :: "BlendOscillator \<Rightarrow> real \<Rightarrow> BlendOscillator" where
  "setStartPhase osc startPhase =
     (if 0 \<le> startPhase \<and> startPhase \<le> 360
      then osc\<lparr>startIndex := (startPhase / 360) * tableLengthDbl osc\<rparr>
      else osc)"

definition setWaveTable1 :: "BlendOscillator \<Rightarrow> nat option \<Rightarrow> BlendOscillator" where
  "setWaveTable1 osc p = osc\<lparr>waveTable1 := p\<rparr>"

definition setWaveTable2 :: "BlendOscillator \<Rightarrow> nat option \<Rightarrow> BlendOscillator" where
  "setWaveTable2 osc p = osc\<lparr>waveTable2 := p\<rparr>"

definition setBlendFactor :: "BlendOscillator \<Rightarrow> real \<Rightarrow> BlendOscillator" where
  "setBlendFactor osc newBlendFactor = osc\<lparr>blend := newBlendFactor\<rparr>"

definition setFrequency :: "BlendOscillator \<Rightarrow> real \<Rightarrow> BlendOscillator" where
  "setFrequency osc newFrequency =
     (if 0 < newFrequency \<and> newFrequency < 20000 then osc\<lparr>freq := newFrequency\<rparr> else osc)"

definition setIncrement :: "BlendOscillator \<Rightarrow> real \<Rightarrow> BlendOscillator" where
  "setIncrement osc newIncrement = osc\<lparr>increment := newIncrement\<rparr>"

definition getBlendFactor :: "BlendOscillator \<Rightarrow> real" where
  "getBlendFactor osc = blend osc"

definition getIncrement :: "BlendOscillator \<Rightarrow> real" where
  "getIncrement osc = increment osc"

definition calculateIncrement :: "BlendOscillator \<Rightarrow> BlendOscillator" where
  "calculateIncrement osc =
     osc\<lparr>increment := tableLengthDbl osc * freq osc * sampleRateRec osc\<rparr>"

definition resetPhase :: "BlendOscillator \<Rightarrow> BlendOscillator" where
  "resetPhase osc = osc\<lparr>phaseIndex := startIndex osc\<rparr>"

definition setPhase :: "BlendOscillator \<Rightarrow> real \<Rightarrow> BlendOscillator" where
  "setPhase osc p = osc\<lparr>phaseIndex := startIndex osc + p\<rparr>"

subsection \<open>The per-sample algorithm\<close>

text \<open>Mip level from the increment: the float exponent plus the safety margin 2.\<close>

definition selectTable :: "real \<Rightarrow> int" where
  "selectTable inc = float_exponent inc + 2"

text \<open>\<open>while( phaseIndex>=tableLengthDbl ) phaseIndex -= tableLengthDbl;\<close>\<close>

partial_function (option) wrapPhase :: "real \<Rightarrow> real \<Rightarrow> real option" where
  "wrapPhase tableLen phase =
     (if tableLen \<le> phase then wrapPhase tableLen (phase - tableLen) else Some phase)"

declare wrapPhase.simps [code]

definition getSample :: "wt_heap \<Rightarrow> BlendOscillator \<Rightarrow> osc_error + real \<times> BlendOscillator" where
  "getSample heap osc =
     (case (waveTable1 osc, waveTable2 osc) of
        (Some p1, Some p2) \<Rightarrow>
          (let tableNumber = selectTable (increment osc) in
           case wrapPhase (tableLengthDbl osc) (phaseIndex osc) of
             None \<Rightarrow> Inl PhaseLoopDiverges
           | Some ph \<Rightarrow>
               (let intIndex = floorInt ph;
                    frac = ph - of_int intIndex
                in case (getValueLinear (heap p1) intIndex frac tableNumber,
                         getValueLinear (heap p2) intIndex frac tableNumber) of
                     (Some v1, Some v2) \<Rightarrow>
                       (let out1 = (1 - blend osc) * v1;
                            out2 = blend osc * v2 * 0.5
                        in Inr (out1 + out2, osc\<lparr>phaseIndex := ph + increment osc\<rparr>))
                   | _ \<Rightarrow> Inl TableReadOutOfRange))
      | _ \<Rightarrow> Inr (0, osc))"

text \<open>A block of \<open>n\<close> successive calls of \<open>getSample\<close>, stopping at the first error.\<close>

fun runSamples :: "wt_heap \<Rightarrow> nat \<Rightarrow> BlendOscillator \<Rightarrow> osc_error + real list \<times> BlendOscillator" where
  "runSamples heap 0 osc = Inr ([], osc)"
| "runSamples heap (Suc n) osc =
     (case getSample heap osc of
        Inl e \<Rightarrow> Inl e
      | Inr (y, osc') \<Rightarrow>
          (case runSamples heap n osc' of
             Inl e \<Rightarrow> Inl e
           | Inr (ys, osc'') \<Rightarrow> Inr (y # ys, osc'')))"

subsection \<open>Control-rate operations\<close>

datatype osc_op =
    SetWaveTable1 "nat option"
  | SetWaveTable2 "nat option"
  | SetSampleRate real
  | SetStartPhase real
  | SetBlendFactor real
  | SetFrequency real
  | SetIncrement real
  | CalculateIncrement
  | ResetPhase
  | SetPhase real

fun osc_step :: "BlendOscillator \<Rightarrow> osc_op \<Rightarrow> BlendOscillator" where
  "osc_step osc (SetWaveTable1 p) = setWaveTable1 osc p"
| "osc_step osc (SetWaveTable2 p) = setWaveTable2 osc p"
| "osc_step osc (SetSampleRate sr) = setSampleRate osc sr"
| "osc_step osc (SetStartPhase p) = setStartPhase osc p"
| "osc_step osc (SetBlendFactor b) = setBlendFactor osc b"
| "osc_step osc (SetFrequency f) = setFrequency osc f"
| "osc_step osc (SetIncrement i) = setIncrement osc i"
| "osc_step osc CalculateIncrement = calculateIncrement osc"
| "osc_step osc ResetPhase = resetPhase osc"
| "osc_step osc (SetPhase p) = setPhase osc p"

definition osc_run :: "BlendOscillator \<Rightarrow> osc_op list \<Rightarrow> BlendOscillator" where
  "osc_run osc ops = foldl osc_step osc ops"

text \<open>The operations that write the phase increment.\<close>

fun writes_increment :: "osc_op \<Rightarrow> bool" where
  "writes_increment (SetIncrement _) = True"
| "writes_increment CalculateIncrement = True"
| "writes_increment _ = False"

text \<open>
  The oscillators a program can reach: constructed, then any interleaving of
  control-rate operations and sample pulls against a heap of wavetables.
\<close>

inductive osc_reachable :: "wt_heap \<Rightarrow> BlendOscillator \<Rightarrow> bool" for heap where
  init: "osc_reachable heap initBlendOscillator"
| control: "osc_reachable heap osc \<Longrightarrow> osc_reachable heap (osc_step osc op)"
| sample: "osc_reachable heap osc \<Longrightarrow> getSample heap osc = Inr (y, osc') \<Longrightarrow> osc_reachable heap osc'"

definition osc_inv :: "BlendOscillator \<Rightarrow> bool" where
  "osc_inv osc \<longleftrightarrow>
     tableLengthDbl osc = real tableLength \<and> 0 < freq osc \<and> freq osc < 20000 \<and>
     0 < sampleRate osc \<and> sampleRateRec osc = 1 / sampleRate osc \<and>
     0 \<le> startIndex osc \<and> startIndex osc \<le> real tableLength"

subsection \<open>Specification of one output sample\<close>

text \<open>
  The value a sample should have: the clamped table's row interpolated at the phase
  reduced modulo the table length, the first table weighted by \<open>1 - blend\<close>, the
  second by \<open>blend / 2\<close>.
\<close>

definition table_interp :: "MipMappedWaveTable \<Rightarrow> int \<Rightarrow> real \<Rightarrow> real" where
  "table_interp wt t ph =
     (let r = tableSet wt ! nat (clampTableIndex t); i = nat \<lfloor>ph\<rfloor>; f = ph - of_int \<lfloor>ph\<rfloor>
      in (1 - f) * r ! i + f * r ! (i + 1))"

definition blend_spec :: "wt_heap \<Rightarrow> nat \<Rightarrow> nat \<Rightarrow> BlendOscillator \<Rightarrow> real" where
  "blend_spec heap p1 p2 osc =
     (let t = selectTable (increment osc);
          ph = wrap_mod (tableLengthDbl osc) (phaseIndex osc)
      in (1 - blend osc) * table_interp (heap p1) t ph + blend osc * table_interp (heap p2) t ph / 2)"

subsection \<open>A concrete heap and oscillator\<close>

definition demo_heap :: wt_heap where
  "demo_heap = (\<lambda>_. demo_wavetable)"

definition demo_osc :: BlendOscillator where
  "demo_osc = setWaveTable2 (setWaveTable1 initBlendOscillator (Some 0)) (Some 1)"

text \<open>The oscillator at sample rate 8 kHz playing 19 kHz, with the increment recomputed.\<close>

definition overflow_osc :: BlendOscillator where
  "overflow_osc = osc_run demo_osc [SetSampleRate 8000, SetFrequency 19000, CalculateIncrement]"



lemma wrapPhase_below: "phase < tableLen \<Longrightarrow> wrapPhase tableLen phase = Some phase"
  by (subst wrapPhase.simps) simp

lemma wrapPhase_step: "tableLen \<le> phase \<Longrightarrow> wrapPhase tableLen phase = wrapPhase tableLen (phase - tableLen)"
  by (subst wrapPhase.simps) simp

lemma wrapPhase_eq:
  assumes "0 < L"
  shows "wrapPhase L p = Some (if 0 \<le> p then wrap_mod L p else p)"
proof (induction "nat \<lfloor>p / L\<rfloor>" arbitrary: p)
  case 0
  then have "\<lfloor>p / L\<rfloor> \<le> 0" by simp
  then have "p / L < 1" by linarith
  then have "p < L" using assms by (simp add: divide_less_eq)
  then show ?case
    using assms by (simp add: wrapPhase_below wrap_mod_small)
next
  case (Suc n)
  then have "1 \<le> \<lfloor>p / L\<rfloor>" by linarith
  then have "1 \<le> p / L" by linarith
  then have pL: "L \<le> p" using assms by (simp add: le_divide_eq)
  have "(p - L) / L = p / L - 1" using assms by (simp add: field_simps)
  then have "\<lfloor>(p - L) / L\<rfloor> = \<lfloor>p / L\<rfloor> - 1" by simp
  with Suc.hyps(2) have "n = nat \<lfloor>(p - L) / L\<rfloor>" by simp
  then have "wrapPhase L (p - L) = Some (if 0 \<le> p - L then wrap_mod L (p - L) else p - L)"
    by (rule Suc.hyps(1))
  with pL assms show ?case
    by (simp add: wrapPhase_step wrap_mod_minus_period)
qed


text \<open>
  C7 (termination). For a positive table length the wraparound loop of
  \<open>getSample\<close> always returns: a non-negative phase comes back reduced modulo the
  table length (the loop never truncates it to an integer), a negative phase comes
  back unchanged.
\<close>

theorem wrapPhase_total:
  assumes "0 < L"
  shows "wrapPhase L p = Some (if 0 \<le> p then wrap_mod L p else p)"
  using assms by (rule wrapPhase_eq)

lemma wrapPhase_Some_nonpos:
  assumes ret: "wrapPhase L p = Some r"
  shows "L \<le> 0 \<longrightarrow> p < L"
proof (rule wrapPhase.raw_induct [where P = "\<lambda>L p r. L \<le> 0 \<longrightarrow> p < L", OF _ ret])
  fix f :: "real \<Rightarrow> real \<Rightarrow> real option" and L p r
  assume IH: "\<And>L p r. f L p = Some r \<Longrightarrow> L \<le> 0 \<longrightarrow> p < L"
    and eq: "(if L \<le> p then f L (p - L) else Some p) = Some r"
  show "L \<le> 0 \<longrightarrow> p < L"
  proof (cases "L \<le> p")
    case True
    with eq have "f L (p - L) = Some r" by simp
    then have "L \<le> 0 \<longrightarrow> p - L < L" by (rule IH)
    then show ?thesis by linarith
  next
    case False
    then show ?thesis by simp
  qed
qed

theorem wrapPhase_diverges:
  assumes "L \<le> 0" "L \<le> p"
  shows "wrapPhase L p = None"
proof (cases "wrapPhase L p")
  case (Some r)
  with wrapPhase_Some_nonpos assms show ?thesis by fastforce
qed


lemma getValueLinear_table_interp:
  assumes "wf_wavetable wt" "0 \<le> ph" "ph < real tableLength" "t \<noteq> int numTables"
  shows "getValueLinear wt (floorInt ph) (ph - of_int (floorInt ph)) t = Some (table_interp wt t ph)"
proof -
  have h0: "0 \<le> \<lfloor>ph\<rfloor>" using assms(2) by simp
  have h1: "\<lfloor>ph\<rfloor> < int tableLength + 3"
    using assms(3) by (simp add: tableLength_def floor_less_iff)
  show ?thesis
    using getValueLinear_clamped_eq [OF assms(1) h0 h1 assms(4), of "ph - of_int \<lfloor>ph\<rfloor>"]
    by (simp add: floorInt_def table_interp_def Let_def)
qed

lemma getValueLinearPhase_table_interp:
  assumes "wf_wavetable wt" "0 \<le> ph" "ph < real tableLength" "t \<noteq> int numTables"
  shows "getValueLinearPhase wt ph t = Some (table_interp wt t ph)"
  using getValueLinear_table_interp [OF assms] by (simp add: getValueLinearPhase_def)

lemma wrapPhase_table:
  assumes "0 \<le> p"
  shows "wrapPhase (real tableLength) p = Some (wrap_mod (real tableLength) p)"
    and "0 \<le> wrap_mod (real tableLength) p" and "wrap_mod (real tableLength) p < real tableLength"
proof -
  have L: "0 < real tableLength" by (simp add: tableLength_def)
  show "wrapPhase (real tableLength) p = Some (wrap_mod (real tableLength) p)"
    using wrapPhase_eq [OF L, of p] assms by simp
  show "0 \<le> wrap_mod (real tableLength) p" "wrap_mod (real tableLength) p < real tableLength"
    using wrap_mod_bounds [OF L] by auto
qed

lemma getSample_eq:
  assumes "waveTable1 osc = Some p1" "waveTable2 osc = Some p2"
      and "wf_wavetable (heap p1)" "wf_wavetable (heap p2)"
      and "tableLengthDbl osc = real tableLength" "0 \<le> phaseIndex osc"
      and "selectTable (increment osc) \<noteq> int numTables"
  shows "getSample heap osc =
           Inr (blend_spec heap p1 p2 osc,
                osc\<lparr>phaseIndex := wrap_mod (real tableLength) (phaseIndex osc) + increment osc\<rparr>)"
proof -
  define ph where "ph = wrap_mod (real tableLength) (phaseIndex osc)"
  note w = wrapPhase_table [OF assms(6), folded ph_def]
  have v1: "getValueLinear (heap p1) (floorInt ph) (ph - of_int (floorInt ph)) (selectTable (increment osc))
              = Some (table_interp (heap p1) (selectTable (increment osc)) ph)"
    using getValueLinear_table_interp [OF assms(3) w(2) w(3) assms(7)] .
  have v2: "getValueLinear (heap p2) (floorInt ph) (ph - of_int (floorInt ph)) (selectTable (increment osc))
              = Some (table_interp (heap p2) (selectTable (increment osc)) ph)"
    using getValueLinear_table_interp [OF assms(4) w(2) w(3) assms(7)] .
  show ?thesis
    using assms(1,2,5) w(1) v1 v2
    by (simp add: getSample_def blend_spec_def ph_def Let_def)
qed


text \<open>
  C1 (refinement). With both tables bound and well formed, the table length of the
  constructor, a non-negative phase and a mip level other than \<open>numTables\<close>,
  \<open>getSample\<close> returns the specified sample \<open>blend_spec\<close> (interpolated
  tables at the phase modulo the table length, weighted \<open>1 - blend\<close> and
  \<open>blend / 2\<close>) and advances the wrapped phase by the increment.
\<close>

theorem getSample_refines:
  assumes "waveTable1 osc = Some p1" "waveTable2 osc = Some p2"
      and "wf_wavetable (heap p1)" "wf_wavetable (heap p2)"
      and "tableLengthDbl osc = real tableLength" "0 \<le> phaseIndex osc"
      and "selectTable (increment osc) \<noteq> int numTables"
  shows "getSample heap osc =
           Inr (blend_spec heap p1 p2 osc,
                osc\<lparr>phaseIndex := wrap_mod (real tableLength) (phaseIndex osc) + increment osc\<rparr>)"
  using assms by (rule getSample_eq)

text \<open>
  C3 (functional). With blend factor 0 the output of \<open>getSample\<close> is exactly the
  first table's interpolated value at the wrapped phase and selected mip level.
\<close>

theorem getSample_blend0:
  assumes "waveTable1 osc = Some p1" "waveTable2 osc = Some p2"
      and "wf_wavetable (heap p1)" "wf_wavetable (heap p2)"
      and "tableLengthDbl osc = real tableLength" "0 \<le> phaseIndex osc"
      and "selectTable (increment osc) \<noteq> int numTables" "blend osc = 0"
  shows "\<exists>v osc'. getValueLinearPhase (heap p1) (wrap_mod (tableLengthDbl osc) (phaseIndex osc))
                    (selectTable (increment osc)) = Some v \<and>
                  getSample heap osc = Inr (v, osc')"
proof -
  note w = wrapPhase_table [OF assms(6)]
  show ?thesis
    using getSample_eq [OF assms(1-7)] getValueLinearPhase_table_interp [OF assms(3) w(2,3) assms(7)]
      assms(5,8) by (simp add: blend_spec_def Let_def)
qed

text \<open>
  C4 (functional). With blend factor 1 the output of \<open>getSample\<close> is exactly half
  the second table's interpolated value (the fixed crest-compensation factor 0.5).
\<close>

theorem getSample_blend1:
  assumes "waveTable1 osc = Some p1" "waveTable2 osc = Some p2"
      and "wf_wavetable (heap p1)" "wf_wavetable (heap p2)"
      and "tableLengthDbl osc = real tableLength" "0 \<le> phaseIndex osc"
      and "selectTable (increment osc) \<noteq> int numTables" "blend osc = 1"
  shows "\<exists>v osc'. getValueLinearPhase (heap p2) (wrap_mod (tableLengthDbl osc) (phaseIndex osc))
                    (selectTable (increment osc)) = Some v \<and>
                  getSample heap osc = Inr (0.5 * v, osc')"
proof -
  note w = wrapPhase_table [OF assms(6)]
  show ?thesis
    using getSample_eq [OF assms(1-7)] getValueLinearPhase_table_interp [OF assms(4) w(2,3) assms(7)]
      assms(5,8) by (simp add: blend_spec_def Let_def)
qed

text \<open>
  C14 (error). If either table pointer is unset, \<open>getSample\<close> degrades gracefully:
  it returns 0 and leaves the oscillator (its phase included) unchanged.
\<close>

theorem getSample_unbound:
  "waveTable1 osc = None \<or> waveTable2 osc = None \<Longrightarrow> getSample heap osc = Inr (0, osc)"
  by (auto simp: getSample_def split: option.splits)

text \<open>
  C8 (error). When the increment selects mip level \<open>numTables\<close> (an increment in
  \<open>[1024, 2048)\<close>, i.e. a frequency of two to four times the sample rate), the
  level slips past the off-by-one clamp of \<open>getValueLinear\<close> and
  \<open>getSample\<close> reads outside the table set.
\<close>

theorem getSample_table_overflow:
  assumes "waveTable1 osc = Some p1" "waveTable2 osc = Some p2"
      and "wf_wavetable (heap p1)"
      and "tableLengthDbl osc = real tableLength" "0 \<le> phaseIndex osc"
      and "selectTable (increment osc) = int numTables"
  shows "getSample heap osc = Inl TableReadOutOfRange"
proof -
  note w = wrapPhase_table [OF assms(5)]
  show ?thesis
    using assms(1,2,4,6) w(1) getValueLinear_at_numTables [OF assms(3)]
    by (simp add: getSample_def Let_def)
qed

text \<open>
  C15 (error). The wraparound loop only subtracts: a negative phase (reachable through
  \<open>setPhase\<close> or a negative \<open>setIncrement\<close>) is never wrapped, its integer part is
  negative and \<open>getSample\<close> reads before the start of the table.
\<close>

theorem getSample_negative_phase:
  assumes "waveTable1 osc = Some p1" "waveTable2 osc = Some p2"
      and "tableLengthDbl osc = real tableLength" "phaseIndex osc < 0"
  shows "getSample heap osc = Inl TableReadOutOfRange"
proof -
  have L: "0 < real tableLength" by (simp add: tableLength_def)
  have w: "wrapPhase (tableLengthDbl osc) (phaseIndex osc) = Some (phaseIndex osc)"
    using wrapPhase_eq [OF L, of "phaseIndex osc"] assms(3,4) by simp
  have "floorInt (phaseIndex osc) < 0"
    using assms(4) by (simp add: floorInt_def)
  then show ?thesis
    using assms(1,2) w getValueLinear_negative_index
    by (simp add: getSample_def Let_def)
qed


lemma blend_spec_phase_cong:
  assumes "wrap_mod (tableLengthDbl osc) x = wrap_mod (tableLengthDbl osc) y"
  shows "blend_spec heap p1 p2 (osc\<lparr>phaseIndex := x\<rparr>) = blend_spec heap p1 p2 (osc\<lparr>phaseIndex := y\<rparr>)"
  using assms by (simp add: blend_spec_def)

lemma wrap_mod_table_advance:
  "wrap_mod (real tableLength) (wrap_mod (real tableLength) p + i + x) =
   wrap_mod (real tableLength) (p + i + x)"
proof -
  have L: "0 < real tableLength" by (simp add: tableLength_def)
  show ?thesis
    using wrap_mod_add [OF L, of p "i + x"] by (simp add: add.assoc)
qed

lemma runSamples_blocks:
  assumes "waveTable1 osc = Some p1" "waveTable2 osc = Some p2"
      and "wf_wavetable (heap p1)" "wf_wavetable (heap p2)"
      and "tableLengthDbl osc = real tableLength" "0 \<le> phaseIndex osc" "0 \<le> increment osc"
      and "selectTable (increment osc) \<noteq> int numTables"
  shows "\<exists>ys osc'. runSamples heap n osc = Inr (ys, osc') \<and> length ys = n \<and>
           (\<forall>k < n. ys ! k = blend_spec heap p1 p2 (osc\<lparr>phaseIndex := phaseIndex osc + real k * increment osc\<rparr>)) \<and>
           wrap_mod (real tableLength) (phaseIndex osc') =
             wrap_mod (real tableLength) (phaseIndex osc + real n * increment osc)"
  using assms
proof (induction n arbitrary: osc)
  case 0
  then show ?case by simp
next
  case (Suc n)
  define osc1 where "osc1 = osc\<lparr>phaseIndex := wrap_mod (real tableLength) (phaseIndex osc) + increment osc\<rparr>"
  have step: "getSample heap osc = Inr (blend_spec heap p1 p2 osc, osc1)"
    unfolding osc1_def using getSample_eq [OF Suc.prems(1-6,8)] .
  have "0 \<le> wrap_mod (real tableLength) (phaseIndex osc)"
    using wrapPhase_table(2) [OF Suc.prems(6)] .
  then have ph1: "0 \<le> phaseIndex osc1" using Suc.prems(7) by (simp add: osc1_def)
  obtain ys osc' where
      run: "runSamples heap n osc1 = Inr (ys, osc')" and len: "length ys = n" and
      outs: "\<forall>k < n. ys ! k = blend_spec heap p1 p2 (osc1\<lparr>phaseIndex := phaseIndex osc1 + real k * increment osc1\<rparr>)" and
      fin: "wrap_mod (real tableLength) (phaseIndex osc') =
              wrap_mod (real tableLength) (phaseIndex osc1 + real n * increment osc1)"
    using Suc.IH [of osc1] Suc.prems ph1 by (auto simp: osc1_def)
  have outs': "ys ! k = blend_spec heap p1 p2 (osc\<lparr>phaseIndex := phaseIndex osc + real (Suc k) * increment osc\<rparr>)"
    if "k < n" for k
  proof -
    have "ys ! k = blend_spec heap p1 p2 (osc\<lparr>phaseIndex := wrap_mod (real tableLength) (phaseIndex osc)
                     + increment osc + real k * increment osc\<rparr>)"
      using outs that by (simp add: osc1_def)
    also have "\<dots> = blend_spec heap p1 p2 (osc\<lparr>phaseIndex := phaseIndex osc + increment osc + real k * increment osc\<rparr>)"
      by (rule blend_spec_phase_cong) (simp add: Suc.prems(5) wrap_mod_table_advance)
    finally show ?thesis by (simp add: algebra_simps)
  qed
  have fin': "wrap_mod (real tableLength) (phaseIndex osc') =
                wrap_mod (real tableLength) (phaseIndex osc + real (Suc n) * increment osc)"
    using fin wrap_mod_table_advance [of "phaseIndex osc" "increment osc" "real n * increment osc"]
    by (simp add: osc1_def algebra_simps)
  have run': "runSamples heap (Suc n) osc = Inr (blend_spec heap p1 p2 osc # ys, osc')"
    using step run by simp
  have all: "\<forall>k < Suc n. (blend_spec heap p1 p2 osc # ys) ! k =
               blend_spec heap p1 p2 (osc\<lparr>phaseIndex := phaseIndex osc + real k * increment osc\<rparr>)"
  proof (intro allI impI)
    fix k assume k: "k < Suc n"
    show "(blend_spec heap p1 p2 osc # ys) ! k =
            blend_spec heap p1 p2 (osc\<lparr>phaseIndex := phaseIndex osc + real k * increment osc\<rparr>)"
    proof (cases k)
      case 0
      then show ?thesis by simp
    next
      case (Suc j)
      with k outs' [of j] show ?thesis by simp
    qed
  qed
  show ?case
    using run' len all fin' by (intro exI [of _ "blend_spec heap p1 p2 osc # ys"] exI [of _ osc']) simp
qed

text \<open>
  C2 (refinement). A block of \<open>n\<close> successive \<open>getSample\<close> calls under the
  conditions of the single-sample refinement and a non-negative increment returns
  \<open>n\<close> samples, the \<open>k\<close>-th being the specified sample at phase
  \<open>phase\<^sub>0 + k * increment\<close>, and leaves a phase congruent to
  \<open>phase\<^sub>0 + n * increment\<close> modulo the table length.
\<close>

theorem runSamples_spec:
  assumes "waveTable1 osc = Some p1" "waveTable2 osc = Some p2"
      and "wf_wavetable (heap p1)" "wf_wavetable (heap p2)"
      and "tableLengthDbl osc = real tableLength" "0 \<le> phaseIndex osc" "0 \<le> increment osc"
      and "selectTable (increment osc) \<noteq> int numTables"
  shows "\<exists>ys osc'. runSamples heap n osc = Inr (ys, osc') \<and> length ys = n \<and>
           (\<forall>k < n. ys ! k = blend_spec heap p1 p2 (osc\<lparr>phaseIndex := phaseIndex osc + real k * increment osc\<rparr>)) \<and>
           wrap_mod (real tableLength) (phaseIndex osc') =
             wrap_mod (real tableLength) (phaseIndex osc + real n * increment osc)"
  using assms by (rule runSamples_blocks)


text \<open>
  C16 (error). A frequency outside the open interval \<open>(0, 20000)\<close> is silently
  rejected: \<open>setFrequency\<close> leaves the whole oscillator unchanged.
\<close>

theorem setFrequency_rejects:
  "\<not> (0 < f \<and> f < 20000) \<Longrightarrow> setFrequency osc f = osc"
  by (auto simp: setFrequency_def)

lemma getters_setters:
  "getBlendFactor (setBlendFactor osc b) = b" "getIncrement (setIncrement osc i) = i"
  "getIncrement (calculateIncrement osc) = tableLengthDbl osc * freq osc * sampleRateRec osc"
  by (simp_all add: getBlendFactor_def setBlendFactor_def getIncrement_def setIncrement_def
      calculateIncrement_def)

lemma osc_step_increment:
  "\<not> writes_increment op \<Longrightarrow> increment (osc_step osc op) = increment osc"
  by (cases op) (simp_all add: setSampleRate_def setStartPhase_def setWaveTable1_def setWaveTable2_def
      setBlendFactor_def setFrequency_def resetPhase_def setPhase_def)

text \<open>
  The increment is recomputed only on request: any sequence of
  control-rate operations without \<open>setIncrement\<close> or \<open>calculateIncrement\<close>
  (frequency, sample rate, blend, phase, table changes) leaves it unchanged.
\<close>

theorem osc_run_increment_frame:
  "\<not> list_ex writes_increment ops \<Longrightarrow> increment (osc_run osc ops) = increment osc"
proof (induction ops arbitrary: osc)
  case Nil
  then show ?case by (simp add: osc_run_def)
next
  case (Cons op ops)
  then have "increment (osc_run (osc_step osc op) ops) = increment (osc_step osc op)" by simp
  with Cons.prems show ?case by (simp add: osc_run_def osc_step_increment)
qed

lemma osc_inv_init: "osc_inv initBlendOscillator"
  by (simp add: osc_inv_def initBlendOscillator_def tableLength_def)

lemma osc_inv_step: "osc_inv osc \<Longrightarrow> osc_inv (osc_step osc op)"
proof (cases op)
  case (SetStartPhase p)
  assume "osc_inv osc"
  moreover have "0 \<le> p \<Longrightarrow> p \<le> 360 \<Longrightarrow> p / 360 * real tableLength \<le> real tableLength"
    by (simp add: tableLength_def)
  ultimately show ?thesis
    using SetStartPhase by (auto simp: osc_inv_def setStartPhase_def)
qed (auto simp: osc_inv_def setSampleRate_def setWaveTable1_def setWaveTable2_def
      setBlendFactor_def setFrequency_def setIncrement_def calculateIncrement_def resetPhase_def setPhase_def)

lemma osc_phase_self: "\<exists>p. osc = osc\<lparr>phaseIndex := p\<rparr>"
  by (intro exI [of _ "phaseIndex osc"]) simp

lemma getSample_frame:
  "getSample heap osc = Inr (y, osc') \<Longrightarrow> \<exists>p. osc' = osc\<lparr>phaseIndex := p\<rparr>"
  by (auto simp: getSample_def Let_def intro: osc_phase_self split: option.splits prod.splits)

lemma osc_inv_sample:
  assumes "osc_inv osc" "getSample heap osc = Inr (y, osc')"
  shows "osc_inv osc'"
proof -
  obtain p where "osc' = osc\<lparr>phaseIndex := p\<rparr>"
    using getSample_frame [OF assms(2)] by blast
  with assms(1) show ?thesis by (simp add: osc_inv_def)
qed

lemma osc_reachable_osc_inv: "osc_reachable heap osc \<Longrightarrow> osc_inv osc"
proof (induction rule: osc_reachable.induct)
  case init
  show ?case by (rule osc_inv_init)
next
  case (control osc op)
  from control.IH show ?case by (rule osc_inv_step)
next
  case (sample osc y osc')
  then show ?case by (blast intro: osc_inv_sample)
qed

text \<open>
  C17 (invariant). In every oscillator state reachable from the constructor by
  control-rate operations and sample pulls, the table length is 512, the frequency
  lies in \<open>(0, 20000)\<close>, the sample rate is positive with its reciprocal cached,
  and the start index lies within the table.
\<close>

theorem osc_reachable_inv: "osc_reachable heap osc \<Longrightarrow> osc_inv osc"
  by (rule osc_reachable_osc_inv)


lemma selectTable_calculated:
  assumes inv: "osc_inv osc" and sr10: "10000 \<le> sampleRate osc"
  shows "selectTable (real tableLength * freq osc / sampleRate osc) < int numTables"
proof -
  have f: "0 < freq osc" "freq osc < 20000" and sr: "0 < sampleRate osc"
    using inv by (simp_all add: osc_inv_def)
  have "real tableLength * freq osc / sampleRate osc < 512 * 20000 / sampleRate osc"
    using f sr by (simp add: tableLength_def divide_strict_right_mono)
  also have "\<dots> \<le> 512 * 20000 / 10000"
    using sr10 sr by (intro divide_left_mono) simp_all
  finally have "\<bar>real tableLength * freq osc / sampleRate osc\<bar> < 2 powi (9 + 1)"
    using f sr by (simp add: tableLength_def)
  then have "float_exponent (real tableLength * freq osc / sampleRate osc) \<le> 9"
    by (rule float_exponent_le) simp_all
  then show ?thesis by (simp add: selectTable_def numTables_def)
qed

text \<open>
  C18 (bounds). In a reachable state with a sample rate of at least 10 kHz,
  \<open>calculateIncrement\<close> sets the increment to \<open>tableLength * freq / sampleRate\<close>
  and the mip level \<open>getSample\<close> derives from it is below \<open>numTables\<close>.
\<close>

theorem calculateIncrement_selects_valid_table:
  assumes "osc_reachable heap osc" "10000 \<le> sampleRate osc"
  shows "increment (calculateIncrement osc) = real tableLength * freq osc / sampleRate osc \<and>
         selectTable (increment (calculateIncrement osc)) < int numTables"
proof -
  have inv: "osc_inv osc" using assms(1) by (rule osc_reachable_osc_inv)
  have inc: "increment (calculateIncrement osc) = real tableLength * freq osc / sampleRate osc"
    using inv by (simp add: calculateIncrement_def osc_inv_def)
  with selectTable_calculated [OF inv assms(2)] show ?thesis by simp
qed

text \<open>
  C19 (refinement). The mip level \<open>getSample\<close> computes on the bits of its
  \<open>float\<close> increment, \<open>(int)EXPOFFLT(increment) + 2\<close>, equals the level
  \<open>selectTable\<close> computes on the real value those bits encode, for every finite
  single-precision increment.
\<close>

theorem selectTable_EXPOFFLT:
  "unat (float_expfield bits) \<noteq> 255 \<Longrightarrow> EXPOFFLT bits + 2 = selectTable (float_val bits)"
  by (simp add: selectTable_def EXPOFFLT_float_val)

subsection \<open>Instances\<close>

lemma demo_osc_fields [simp]:
  "waveTable1 demo_osc = Some 0" "waveTable2 demo_osc = Some 1"
  "tableLengthDbl demo_osc = real tableLength" "phaseIndex demo_osc = 0"
  "increment demo_osc = real tableLength * 440 / 44100" "blend demo_osc = 0"
  by (simp_all add: demo_osc_def setWaveTable1_def setWaveTable2_def initBlendOscillator_def)

lemma demo_heap_wf [simp]: "wf_wavetable (demo_heap p)"
  by (simp add: demo_heap_def demo_wavetable_wf)

lemma demo_osc_level: "selectTable (increment demo_osc) = 4"
  by (simp add: selectTable_def float_exponent_def tableLength_def compute_bitlen)

theorem wrapPhase_total_witness:
  "(0::real) < 512 \<and> wrapPhase 512 1030 = Some 6"
proof -
  have "wrapPhase 512 1030 = Some (if 0 \<le> (1030::real) then wrap_mod 512 1030 else 1030)"
    using wrapPhase_total [of 512 1030] by simp
  moreover have "wrap_mod 512 (1030::real) = 6" by (simp add: wrap_mod_def)
  ultimately show ?thesis by simp
qed

theorem getSample_refines_witness:
  "waveTable1 demo_osc = Some 0 \<and> waveTable2 demo_osc = Some 1 \<and>
   wf_wavetable (demo_heap 0) \<and> wf_wavetable (demo_heap 1) \<and>
   tableLengthDbl demo_osc = real tableLength \<and> 0 \<le> phaseIndex demo_osc \<and>
   selectTable (increment demo_osc) \<noteq> int numTables \<and>
   getSample demo_heap demo_osc =
     Inr (blend_spec demo_heap 0 1 demo_osc,
          demo_osc\<lparr>phaseIndex := wrap_mod (real tableLength) (phaseIndex demo_osc) + increment demo_osc\<rparr>)"
  using getSample_refines [of demo_osc 0 1 demo_heap] demo_osc_level by (simp add: numTables_def)

theorem getSample_blend0_witness:
  "waveTable1 demo_osc = Some 0 \<and> waveTable2 demo_osc = Some 1 \<and>
   wf_wavetable (demo_heap 0) \<and> wf_wavetable (demo_heap 1) \<and>
   tableLengthDbl demo_osc = real tableLength \<and> 0 \<le> phaseIndex demo_osc \<and>
   selectTable (increment demo_osc) \<noteq> int numTables \<and> blend demo_osc = 0 \<and>
   (\<exists>v osc'. getValueLinearPhase (demo_heap 0) (wrap_mod (tableLengthDbl demo_osc) (phaseIndex demo_osc))
                 (selectTable (increment demo_osc)) = Some v \<and>
               getSample demo_heap demo_osc = Inr (v, osc'))"
  using getSample_blend0 [of demo_osc 0 1 demo_heap] demo_osc_level by (simp add: numTables_def)

theorem getSample_blend1_witness:
  "waveTable1 (setBlendFactor demo_osc 1) = Some 0 \<and> waveTable2 (setBlendFactor demo_osc 1) = Some 1 \<and>
   wf_wavetable (demo_heap 0) \<and> wf_wavetable (demo_heap 1) \<and>
   tableLengthDbl (setBlendFactor demo_osc 1) = real tableLength \<and> 0 \<le> phaseIndex (setBlendFactor demo_osc 1) \<and>
   selectTable (increment (setBlendFactor demo_osc 1)) \<noteq> int numTables \<and> blend (setBlendFactor demo_osc 1) = 1 \<and>
   (\<exists>v osc'. getValueLinearPhase (demo_heap 1)
                 (wrap_mod (tableLengthDbl (setBlendFactor demo_osc 1)) (phaseIndex (setBlendFactor demo_osc 1)))
                 (selectTable (increment (setBlendFactor demo_osc 1))) = Some v \<and>
               getSample demo_heap (setBlendFactor demo_osc 1) = Inr (0.5 * v, osc'))"
  using getSample_blend1 [of "setBlendFactor demo_osc 1" 0 1 demo_heap] demo_osc_level
  by (simp add: numTables_def setBlendFactor_def)

theorem getSample_unbound_witness:
  "(waveTable1 initBlendOscillator = None \<or> waveTable2 initBlendOscillator = None) \<and>
   getSample demo_heap initBlendOscillator = Inr (0, initBlendOscillator)"
proof -
  have h: "waveTable1 initBlendOscillator = None \<or> waveTable2 initBlendOscillator = None"
    by (simp add: initBlendOscillator_def)
  show ?thesis using h getSample_unbound [OF h] by simp
qed

lemma overflow_osc_fields:
  "waveTable1 overflow_osc = Some 0" "waveTable2 overflow_osc = Some 1"
  "tableLengthDbl overflow_osc = real tableLength" "phaseIndex overflow_osc = 0"
  "selectTable (increment overflow_osc) = int numTables"
  by (simp_all add: overflow_osc_def osc_run_def setSampleRate_def setFrequency_def calculateIncrement_def
      selectTable_def float_exponent_def tableLength_def numTables_def compute_bitlen)

theorem getSample_table_overflow_witness:
  "waveTable1 overflow_osc = Some 0 \<and> waveTable2 overflow_osc = Some 1 \<and> wf_wavetable (demo_heap 0) \<and>
   tableLengthDbl overflow_osc = real tableLength \<and> 0 \<le> phaseIndex overflow_osc \<and>
   selectTable (increment overflow_osc) = int numTables \<and>
   getSample demo_heap overflow_osc = Inl TableReadOutOfRange"
  using getSample_table_overflow [of overflow_osc 0 1 demo_heap] overflow_osc_fields by simp

theorem getSample_negative_phase_witness:
  "waveTable1 (setPhase demo_osc (-1)) = Some 0 \<and> waveTable2 (setPhase demo_osc (-1)) = Some 1 \<and>
   tableLengthDbl (setPhase demo_osc (-1)) = real tableLength \<and> phaseIndex (setPhase demo_osc (-1)) < 0 \<and>
   getSample demo_heap (setPhase demo_osc (-1)) = Inl TableReadOutOfRange"
proof -
  have s: "startIndex demo_osc = 0"
    by (simp add: demo_osc_def setWaveTable1_def setWaveTable2_def initBlendOscillator_def)
  show ?thesis
    using getSample_negative_phase [of "setPhase demo_osc (-1)" 0 1 demo_heap] s by (simp add: setPhase_def)
qed

theorem runSamples_spec_witness:
  "waveTable1 demo_osc = Some 0 \<and> waveTable2 demo_osc = Some 1 \<and>
   wf_wavetable (demo_heap 0) \<and> wf_wavetable (demo_heap 1) \<and>
   tableLengthDbl demo_osc = real tableLength \<and> 0 \<le> phaseIndex demo_osc \<and> 0 \<le> increment demo_osc \<and>
   selectTable (increment demo_osc) \<noteq> int numTables \<and>
   (\<exists>ys osc'. runSamples demo_heap 3 demo_osc = Inr (ys, osc') \<and> length ys = 3 \<and>
      (\<forall>k < 3. ys ! k = blend_spec demo_heap 0 1 (demo_osc\<lparr>phaseIndex := phaseIndex demo_osc + real k * increment demo_osc\<rparr>)) \<and>
      wrap_mod (real tableLength) (phaseIndex osc') =
        wrap_mod (real tableLength) (phaseIndex demo_osc + real 3 * increment demo_osc))"
  using runSamples_spec [of demo_osc 0 1 demo_heap 3] demo_osc_level
  by (simp add: numTables_def tableLength_def)

theorem setFrequency_rejects_witness:
  "\<not> (0 < (30000::real) \<and> (30000::real) < 20000) \<and> setFrequency demo_osc 30000 = demo_osc \<and>
   \<not> (0 < (-5::real) \<and> (-5::real) < 20000) \<and> setFrequency demo_osc (-5) = demo_osc"
  using setFrequency_rejects [of 30000 demo_osc] setFrequency_rejects [of "-5" demo_osc] by simp

theorem osc_run_increment_frame_witness:
  "\<not> list_ex writes_increment [SetFrequency 300, SetSampleRate 48000, ResetPhase] \<and>
   increment (osc_run demo_osc [SetFrequency 300, SetSampleRate 48000, ResetPhase]) = increment demo_osc"
  using osc_run_increment_frame [of "[SetFrequency 300, SetSampleRate 48000, ResetPhase]" demo_osc] by simp

theorem osc_reachable_inv_witness:
  "osc_reachable demo_heap demo_osc \<and> osc_inv demo_osc"
proof -
  have r: "osc_reachable demo_heap demo_osc"
    unfolding demo_osc_def
    using osc_reachable.control [OF osc_reachable.control [OF osc_reachable.init, of demo_heap "SetWaveTable1 (Some 0)"],
        of "SetWaveTable2 (Some 1)"] by simp
  show ?thesis using r osc_reachable_inv [OF r] by simp
qed

theorem calculateIncrement_selects_valid_table_witness:
  "osc_reachable demo_heap initBlendOscillator \<and> 10000 \<le> sampleRate initBlendOscillator \<and>
   increment (calculateIncrement initBlendOscillator) =
     real tableLength * freq initBlendOscillator / sampleRate initBlendOscillator \<and>
   selectTable (increment (calculateIncrement initBlendOscillator)) < int numTables"
proof -
  have r: "osc_reachable demo_heap initBlendOscillator" by (rule osc_reachable.init)
  have sr: "10000 \<le> sampleRate initBlendOscillator" by (simp add: initBlendOscillator_def)
  show ?thesis using r sr calculateIncrement_selects_valid_table [OF r sr] by blast
qed

theorem selectTable_EXPOFFLT_witness:
  "unat (float_expfield 0x40A3A3A4) \<noteq> 255 \<and> EXPOFFLT 0x40A3A3A4 + 2 = selectTable (float_val 0x40A3A3A4)"
proof -
  have h: "unat (float_expfield 0x40A3A3A4) \<noteq> 255"
    by (simp add: float_expfield_def)
  show ?thesis using h selectTable_EXPOFFLT [OF h] by simp
qed

end
