(* ===== verification/Rounding.thy ===== *)
theory Rounding
  imports FloatFunctions
begin

text \<open>
  IEEE-754 rounding of the C conversions and operations that the helpers of
  \<open>GlobalFunctions.h\<close> perform in \<open>float\<close> (binary32, 24-bit significand) and
  \<open>double\<close> (binary64, 53-bit significand): the exact real result is rounded
  to the nearest value with \<open>p\<close> significant bits, ties to the even
  significand (\<open>round_prec\<close>). \<open>binade x\<close> is the exponent \<open>e\<close> with
  \<open>2^e \<le> |x| < 2^(e+1)\<close>, computed with \<open>bitlen\<close> so that the rounding
  evaluates. Overflow to infinity and subnormal results are outside the
  model: the values the helpers round here lie far inside the normal range.
  Lemmas: a value with at most \<open>p\<close> significant bits is kept exactly, the
  relative error is at most \<open>2^-p\<close>, and rounding below a power of two
  stays at or below it.
\<close>

definition binade :: "real \<Rightarrow> int" where
  "binade x = (let a = \<bar>x\<bar> in if 1 \<le> a then bitlen \<lfloor>a\<rfloor> - 1 else - bitlen (\<lceil>1 / a\<rceil> - 1))"

definition round_even :: "real \<Rightarrow> int" where
  "round_even y =
     (let f = \<lfloor>y\<rfloor>; d = y - of_int f in if 1 / 2 < d \<or> (d = 1 / 2 \<and> odd f) then f + 1 else f)"

definition round_prec :: "nat \<Rightarrow> real \<Rightarrow> real" where
  "round_prec p x =
     (if x = 0 then 0
      else let e = binade x - (int p - 1) in of_int (round_even (x / 2 powi e)) * 2 powi e)"

definition to_float :: "real \<Rightarrow> real" where
  "to_float x = round_prec 24 x"

definition to_double :: "real \<Rightarrow> real" where
  "to_double x = round_prec 53 x"

lemma binade_bounds:
  assumes "x \<noteq> 0"
  shows "2 powi binade x \<le> \<bar>x\<bar>" and "\<bar>x\<bar> < 2 powi (binade x + 1)"
proof -
  have "2 powi binade x \<le> \<bar>x\<bar> \<and> \<bar>x\<bar> < 2 powi (binade x + 1)"
  proof (cases "1 \<le> \<bar>x\<bar>")
    case True
    then show ?thesis using bitlen_floor_bounds [OF True] by (simp add: binade_def)
  next
    case False
    then have "0 < \<bar>x\<bar>" "\<bar>x\<bar> < 1" using assms by auto
    from bitlen_ceil_inverse_bounds [OF this] False show ?thesis by (simp add: binade_def)
  qed
  then show "2 powi binade x \<le> \<bar>x\<bar>" and "\<bar>x\<bar> < 2 powi (binade x + 1)" by simp_all
qed

lemma binade_eqI:
  assumes "2 powi k \<le> \<bar>x\<bar>" "\<bar>x\<bar> < 2 powi (k + 1)"
  shows "binade x = k"
proof -
  have "0 < \<bar>x\<bar>" using assms(1) two_powi_pos [of k] by linarith
  then have "x \<noteq> 0" by simp
  from binade_bounds [OF this] assms show ?thesis
    by (blast intro: two_powi_exponent_unique)
qed

lemma round_even_error: "\<bar>of_int (round_even y) - y\<bar> \<le> 1 / 2"
  unfolding round_even_def Let_def by (auto simp: abs_if) linarith+

lemma round_even_of_int [simp]: "round_even (of_int m) = m"
  by (simp add: round_even_def)

lemma round_even_nonneg: "0 \<le> y \<Longrightarrow> 0 \<le> round_even y"
  unfolding round_even_def Let_def by auto

lemma round_even_le: "y < of_int n \<Longrightarrow> round_even y \<le> n"
  unfolding round_even_def Let_def by (auto simp: floor_less_iff) linarith+

lemma round_even_top:
  assumes "y < of_int n" "odd (n - 1)"
  shows "round_even y = n \<longleftrightarrow> of_int n - 1 / 2 \<le> y"
proof -
  have f: "\<lfloor>y\<rfloor> \<le> n - 1" using assms(1) by linarith
  show ?thesis
  proof (cases "\<lfloor>y\<rfloor> = n - 1")
    case True
    then show ?thesis using assms(2) unfolding round_even_def Let_def by auto
  next
    case False
    then have "\<lfloor>y\<rfloor> < n - 1" using f by simp
    then have y: "y < of_int n - 1" by linarith
    have "round_even y \<le> \<lfloor>y\<rfloor> + 1" unfolding round_even_def Let_def by auto
    then have "round_even y \<noteq> n" using \<open>\<lfloor>y\<rfloor> < n - 1\<close> by simp
    then show ?thesis using y by simp
  qed
qed

lemma binade_less:
  assumes "x \<noteq> 0" "\<bar>x\<bar> < 2 powi k"
  shows "binade x < k"
proof (rule ccontr)
  assume "\<not> binade x < k"
  then have "2 powi k \<le> (2::real) powi binade x" by (intro two_powi_mono) simp
  with binade_bounds(1) [OF assms(1)] assms(2) show False by simp
qed

lemma round_prec_scaled:
  "x \<noteq> 0 \<Longrightarrow>
   round_prec p x = of_int (round_even (x / 2 powi (binade x - (int p - 1)))) * 2 powi (binade x - (int p - 1))"
  by (simp add: round_prec_def Let_def)

lemma round_prec_exact:
  assumes "\<bar>m\<bar> < 2 ^ p"
  shows "round_prec p (of_int m * 2 powi k) = of_int m * 2 powi k"
proof (cases "m = 0")
  case True
  then show ?thesis by (simp add: round_prec_def)
next
  case False
  define x where "x = of_int m * (2::real) powi k"
  define e where "e = binade x - (int p - 1)"
  have x0: "x \<noteq> 0" using False by (simp add: x_def)
  have "\<bar>x\<bar> = of_int \<bar>m\<bar> * 2 powi k" by (simp add: x_def abs_mult)
  also have "\<dots> < 2 ^ p * 2 powi k"
  proof -
    have "real_of_int \<bar>m\<bar> < real_of_int (2 ^ p)" using assms by (simp only: of_int_less_iff)
    then show ?thesis by (intro mult_strict_right_mono) simp_all
  qed
  also have "\<dots> = 2 powi (int p + k)" by (simp add: power_int_add)
  finally have "binade x < int p + k" by (rule binade_less [OF x0])
  then have ek: "e \<le> k" by (simp add: e_def)
  have "x / 2 powi e = of_int m * 2 powi (k - e)" by (simp add: x_def power_int_diff)
  also have "\<dots> = of_int (m * 2 ^ nat (k - e))" using ek by (simp add: powi_nat_real)
  finally have y: "x / 2 powi e = of_int (m * 2 ^ nat (k - e))" .
  have "round_prec p x = of_int (round_even (x / 2 powi e)) * 2 powi e"
    using round_prec_scaled [OF x0, of p] by (simp only: e_def)
  also have "\<dots> = of_int (m * 2 ^ nat (k - e)) * 2 powi e" by (simp only: y round_even_of_int)
  also have "\<dots> = x" using y [symmetric] by simp
  finally show ?thesis by (simp add: x_def)
qed

lemma round_prec_error:
  assumes "0 < p"
  shows "\<bar>round_prec p x - x\<bar> \<le> \<bar>x\<bar> / 2 ^ p"
proof (cases "x = 0")
  case True
  then show ?thesis by (simp add: round_prec_def)
next
  case False
  define e where "e = binade x - (int p - 1)"
  define y where "y = x / 2 powi e"
  have "round_prec p x - x = (of_int (round_even y) - y) * 2 powi e"
    using round_prec_scaled [OF False, of p] by (simp add: y_def e_def [symmetric] left_diff_distrib)
  then have "\<bar>round_prec p x - x\<bar> = \<bar>of_int (round_even y) - y\<bar> * 2 powi e"
    by (simp add: abs_mult)
  also have "\<dots> \<le> 1 / 2 * 2 powi e"
    by (rule mult_right_mono [OF round_even_error]) simp
  also have "(2::real) powi e = 2 powi binade x / 2 ^ (p - 1)"
  proof -
    have "e + int (p - 1) = binade x" using assms by (simp add: e_def)
    then have "(2::real) powi binade x = 2 powi e * 2 powi int (p - 1)"
      using power_int_add [of "2::real" e "int (p - 1)"] by simp
    then show ?thesis by (simp add: power_int_of_nat)
  qed
  also have "\<dots> \<le> \<bar>x\<bar> / 2 ^ (p - 1)"
    using binade_bounds(1) [OF False] by (simp add: divide_right_mono)
  also have "1 / 2 * (\<bar>x\<bar> / 2 ^ (p - 1)) = \<bar>x\<bar> / 2 ^ p"
    using assms by (cases p) simp_all
  finally show ?thesis by simp
qed

lemma round_prec_nonneg: "0 \<le> x \<Longrightarrow> 0 \<le> round_prec p x"
  by (simp add: round_prec_def Let_def round_even_nonneg)

lemma round_prec_scaled_below:
  assumes "0 < x"
  shows "x / 2 powi (binade x - (int p - 1)) < of_int (2 ^ p)"
    and "(2::real) powi (binade x + 1) = of_int (2 ^ p) * 2 powi (binade x - (int p - 1))"
proof -
  have "(2::real) powi (int p + (binade x - (int p - 1))) = 2 powi int p * 2 powi (binade x - (int p - 1))"
    by (rule power_int_add) simp
  then show eq: "(2::real) powi (binade x + 1) = of_int (2 ^ p) * 2 powi (binade x - (int p - 1))"
    by (simp add: power_int_of_nat)
  have "x < 2 powi (binade x + 1)" using binade_bounds(2) [of x] assms by simp
  then show "x / 2 powi (binade x - (int p - 1)) < of_int (2 ^ p)"
    by (simp only: eq) (simp add: divide_less_eq)
qed

lemma round_prec_le_binade:
  assumes "0 < x"
  shows "round_prec p x \<le> 2 powi (binade x + 1)"
proof -
  define e where "e = binade x - (int p - 1)"
  have "round_even (x / 2 powi e) \<le> 2 ^ p"
    using round_prec_scaled_below(1) [OF assms, of p] by (intro round_even_le) (simp add: e_def)
  then have "of_int (round_even (x / 2 powi e)) * 2 powi e \<le> of_int (2 ^ p) * (2::real) powi e"
    by (intro mult_right_mono) simp_all
  then show ?thesis
    using assms round_prec_scaled_below(2) [OF assms, of p] by (simp add: round_prec_def Let_def e_def)
qed

lemma round_prec_below_half:
  assumes "0 < x" "x < 1 / 2"
  shows "round_prec p x \<le> 1 / 2"
proof -
  have "binade x < -1" using assms by (intro binade_less) simp_all
  then have "(2::real) powi (binade x + 1) \<le> 2 powi (-1)" by (intro two_powi_mono) simp
  then show ?thesis using round_prec_le_binade [OF assms(1), of p] by simp
qed

lemma round_prec_upper_half:
  assumes "0 < p" "1 / 2 \<le> x" "x < 1"
  shows "round_prec p x \<le> 1" and "round_prec p x = 1 \<longleftrightarrow> 1 - 1 / 2 ^ (p + 1) \<le> x"
proof -
  have b: "binade x = -1" using assms(2,3) by (intro binade_eqI) simp_all
  define y where "y = x * 2 ^ p"
  have x0: "x \<noteq> 0" using assms(2) by auto
  have e: "binade x - (int p - 1) = - int p" using b by simp
  have pm: "(2::real) powi (- int p) = 1 / 2 ^ p" by (simp add: power_int_minus power_int_of_nat inverse_eq_divide)
  have "x / 2 powi (- int p) = y" by (simp only: pm y_def) simp
  then have r: "round_prec p x = of_int (round_even y) / 2 ^ p"
    using round_prec_scaled [OF x0, of p] by (simp only: e pm) simp
  have yl: "y < of_int (2 ^ p)" using assms(3) by (simp add: y_def)
  have "round_even y \<le> 2 ^ p" using yl by (rule round_even_le)
  then show "round_prec p x \<le> 1" by (simp add: r divide_le_eq)
  have odd: "odd ((2::int) ^ p - 1)" using assms(1) by simp
  have "round_prec p x = 1 \<longleftrightarrow> round_even y = 2 ^ p" by (auto simp: r divide_eq_1_iff)
  also have "\<dots> \<longleftrightarrow> of_int (2 ^ p) - 1 / 2 \<le> y" using round_even_top [OF yl odd] .
  also have "\<dots> \<longleftrightarrow> 1 - 1 / 2 ^ (p + 1) \<le> x" by (simp add: y_def field_simps)
  finally show "round_prec p x = 1 \<longleftrightarrow> 1 - 1 / 2 ^ (p + 1) \<le> x" .
qed

end
