(* ===== verification/GlobalFunctions.thy ===== *)
theory GlobalFunctions
  imports Rounding "HOL-Library.Signed_Division"
begin

text \<open>
  The global helper functions of \<open>src/Open303/GlobalFunctions.h\<close>, in the order
  of the file. \<open>float\<close> arithmetic is real arithmetic, except in
  \<open>indexToNormalizedValue\<close>, \<open>normalizedValueToIndex\<close> and \<open>randomUniform\<close>,
  whose claims depend on it: there every \<open>float\<close> and \<open>double\<close> conversion and
  operation is rounded to nearest even (\<open>to_float\<close>, \<open>to_double\<close> of
  \<open>Rounding\<close>). The two loops over
  \<open>unsigned int\<close> (\<open>isPowerOfTwo\<close>, \<open>nextPowerOfTwo\<close> for unsigned \<open>T\<close>) are
  defined with \<open>partial_function (option)\<close> on words, because their doubling
  counter wraps to 0 and the loop then never ends; \<open>None\<close> is that
  non-termination. \<open>randomUniform\<close> keeps its static \<open>unsigned long\<close> state
  (32 bits on the ESP32) as an explicit \<open>32 word\<close> argument and result. The array
  scans read the array with \<open>read_at\<close>: \<open>None\<close> is a read outside the array.
  The constants \<open>PI_DIV_180\<close>, \<open>ONE_EIGHTY_DIV_PI\<close> and \<open>LN10\<close> of
  \<open>GlobalDefinitions.h\<close> are taken as \<open>pi / 180\<close>, \<open>180 / pi\<close> and \<open>ln 10\<close>.
\<close>

unbundle bit_operations_syntax

subsection \<open>Definitions\<close>

definition amp2dB :: "real \<Rightarrow> real" where
  "amp2dB amp = 8.6858896380650365530225783783321 * ln amp"

definition amp2dBWithCheck :: "real \<Rightarrow> real \<Rightarrow> real" where
  "amp2dBWithCheck amp lowAmplitude =
     (if amp \<ge> lowAmplitude then 8.6858896380650365530225783783321 * ln amp
      else 8.6858896380650365530225783783321 * ln lowAmplitude)"

text \<open>The declaration's default \<open>lowAmplitude = 0.000001f\<close> (line 16).\<close>

definition amp2dBWithCheck_default :: "real \<Rightarrow> real" where
  "amp2dBWithCheck_default amp = amp2dBWithCheck amp 0.000001"

function arrayMaxIndex_loop :: "real list \<Rightarrow> int \<Rightarrow> int \<Rightarrow> int \<Rightarrow> real \<Rightarrow> int option" where
  "arrayMaxIndex_loop theArray numValues i maxIndex maxValue =
     (if i < numValues then
        (case read_at theArray i of
           None \<Rightarrow> None
         | Some x \<Rightarrow>
             if x > maxValue then arrayMaxIndex_loop theArray numValues (i + 1) i x
             else arrayMaxIndex_loop theArray numValues (i + 1) maxIndex maxValue)
      else Some maxIndex)"
  by pat_completeness auto
termination
  by (relation "measure (\<lambda>(_, n, i, _, _). nat (n - i))") auto

definition arrayMaxIndex :: "real list \<Rightarrow> int \<Rightarrow> int option" where
  "arrayMaxIndex theArray numValues =
     (case read_at theArray 0 of
        None \<Rightarrow> None
      | Some v0 \<Rightarrow> arrayMaxIndex_loop theArray numValues 0 0 v0)"

function arrayMinIndex_loop :: "real list \<Rightarrow> int \<Rightarrow> int \<Rightarrow> int \<Rightarrow> real \<Rightarrow> int option" where
  "arrayMinIndex_loop theArray numValues i minIndex minValue =
     (if i < numValues then
        (case read_at theArray i of
           None \<Rightarrow> None
         | Some x \<Rightarrow>
             if x < minValue then arrayMinIndex_loop theArray numValues (i + 1) i x
             else arrayMinIndex_loop theArray numValues (i + 1) minIndex minValue)
      else Some minIndex)"
  by pat_completeness auto
termination
  by (relation "measure (\<lambda>(_, n, i, _, _). nat (n - i))") auto

definition arrayMinIndex :: "real list \<Rightarrow> int \<Rightarrow> int option" where
  "arrayMinIndex theArray numValues =
     (case read_at theArray 0 of
        None \<Rightarrow> None
      | Some v0 \<Rightarrow> arrayMinIndex_loop theArray numValues 0 0 v0)"

definition beatsToSeconds :: "real \<Rightarrow> real \<Rightarrow> real" where
  "beatsToSeconds beat bpm = (60 / bpm) * beat"

definition dB2amp :: "real \<Rightarrow> real" where
  "dB2amp dB = exp (dB * 0.11512925464970228420089957273422)"

definition degreeToRadiant :: "real \<Rightarrow> real" where
  "degreeToRadiant degrees = (pi / 180) * degrees"

definition euclideanDistance :: "real \<Rightarrow> real \<Rightarrow> real \<Rightarrow> real \<Rightarrow> real" where
  "euclideanDistance x1 y1 x2 y2 = sqrt ((x2 - x1) * (x2 - x1) + (y2 - y1) * (y2 - y1))"

definition exp10 :: "real \<Rightarrow> real" where
  "exp10 x = exp (ln 10 * x)"

definition freqToPitch :: "real \<Rightarrow> real" where
  "freqToPitch freq = 12 * log 2 (freq / 440) + 69"

definition freqToPitchTuned :: "real \<Rightarrow> real \<Rightarrow> real" where
  "freqToPitchTuned freq masterTuneA4 = 12 * log 2 (freq / masterTuneA4) + 69"

definition indexToNormalizedValue :: "int \<Rightarrow> int \<Rightarrow> real option" where
  "indexToNormalizedValue index numIndices =
     (if int32_range (2 * index) \<and> int32_range (2 * index + 1) \<and> int32_range (2 * numIndices)
      then Some (to_float (to_float (real_of_int (2 * index + 1)) / to_float (real_of_int (2 * numIndices))))
      else None)"

definition isCloseTo :: "real \<Rightarrow> real \<Rightarrow> real \<Rightarrow> bool" where
  "isCloseTo x targetValue tolerance = (\<bar>x - targetValue\<bar> \<le> tolerance)"

definition isEven :: "int \<Rightarrow> bool" where
  "isEven x = (x smod 2 = 0)"

definition isOdd :: "int \<Rightarrow> bool" where
  "isOdd x = (x smod 2 \<noteq> 0)"

partial_function (option) isPowerOfTwo_loop :: "u32 \<Rightarrow> u32 \<Rightarrow> bool option" where
  "isPowerOfTwo_loop x currentPower =
     (if currentPower \<le> x then
        (if currentPower = x then Some True else isPowerOfTwo_loop x (currentPower * 2))
      else Some False)"

declare isPowerOfTwo_loop.simps [code]

definition isPowerOfTwo :: "u32 \<Rightarrow> bool option" where
  "isPowerOfTwo x = isPowerOfTwo_loop x 1"

definition logB :: "real \<Rightarrow> real \<Rightarrow> real" where
  "logB x b = ln x / ln b"

definition linToLin :: "real \<Rightarrow> real \<Rightarrow> real \<Rightarrow> real \<Rightarrow> real \<Rightarrow> real" where
  "linToLin input inMin inMax outMin outMax =
     (let tmp = (input - inMin) / (inMax - inMin);
          tmp = tmp * (outMax - outMin)
      in tmp + outMin)"

definition linToExp :: "real \<Rightarrow> real \<Rightarrow> real \<Rightarrow> real \<Rightarrow> real \<Rightarrow> real" where
  "linToExp input inMin inMax outMin outMax =
     (let tmp = (input - inMin) / (inMax - inMin)
      in outMin * exp (tmp * ln (outMax / outMin)))"

definition linToExpWithOffset :: "real \<Rightarrow> real \<Rightarrow> real \<Rightarrow> real \<Rightarrow> real \<Rightarrow> real \<Rightarrow> real" where
  "linToExpWithOffset input inMin inMax outMin outMax offset =
     (let tmp = linToExp input inMin inMax outMin outMax;
          tmp = tmp + offset
      in tmp * (outMax / (outMax + offset)))"

definition expToLin :: "real \<Rightarrow> real \<Rightarrow> real \<Rightarrow> real \<Rightarrow> real \<Rightarrow> real" where
  "expToLin input inMin inMax outMin outMax =
     (let tmp = ln (input / inMin) / ln (inMax / inMin)
      in outMin + tmp * (outMax - outMin))"

definition expToLinWithOffset :: "real \<Rightarrow> real \<Rightarrow> real \<Rightarrow> real \<Rightarrow> real \<Rightarrow> real \<Rightarrow> real" where
  "expToLinWithOffset input inMin inMax outMin outMax offset =
     (let tmp = input * (inMax + offset) / inMax;
          tmp = tmp - offset
      in expToLin tmp inMin inMax outMin outMax)"

text \<open>The declarations' default \<open>offset = 0.0\<close> (lines 102-103 and 109-110).\<close>

definition linToExpWithOffset_default :: "real \<Rightarrow> real \<Rightarrow> real \<Rightarrow> real \<Rightarrow> real \<Rightarrow> real" where
  "linToExpWithOffset_default input inMin inMax outMin outMax =
     linToExpWithOffset input inMin inMax outMin outMax 0"

definition expToLinWithOffset_default :: "real \<Rightarrow> real \<Rightarrow> real \<Rightarrow> real \<Rightarrow> real \<Rightarrow> real" where
  "expToLinWithOffset_default input inMin inMax outMin outMax =
     expToLinWithOffset input inMin inMax outMin outMax 0"

partial_function (option) nextPowerOfTwo_loop :: "'a::len word \<Rightarrow> 'a word \<Rightarrow> 'a word option" where
  "nextPowerOfTwo_loop x accu =
     (if accu < x then nextPowerOfTwo_loop x (accu * 2) else Some accu)"

declare nextPowerOfTwo_loop.simps [code]

definition nextPowerOfTwo :: "'a::len word \<Rightarrow> 'a word option" where
  "nextPowerOfTwo x = nextPowerOfTwo_loop x 1"

definition normalizedValueToIndex :: "real \<Rightarrow> int \<Rightarrow> int option" where
  "normalizedValueToIndex normalizedValue numIndices =
     (let k = \<lfloor>to_float (normalizedValue * to_float (real_of_int numIndices))\<rfloor>
      in if int32_range k then Some k else None)"

definition pitchOffsetToFreqFactor :: "real \<Rightarrow> real" where
  "pitchOffsetToFreqFactor pitchOffset = exp (0.057762265046662109118102676788181 * pitchOffset)"

definition pitchToFreq :: "real \<Rightarrow> real" where
  "pitchToFreq pitch =
     8.1757989156437073336828122976033 * exp (0.057762265046662109118102676788181 * pitch)"

definition pitchToFreqTuned :: "real \<Rightarrow> real \<Rightarrow> real" where
  "pitchToFreqTuned pitch masterTuneA4 =
     masterTuneA4 * 0.018581361171917516667460937040007 * exp (0.057762265046662109118102676788181 * pitch)"

definition radiantToDegree :: "real \<Rightarrow> real" where
  "radiantToDegree radiant = (180 / pi) * radiant"

text \<open>The generator step \<open>state = 1664525*state + 1013904223\<close>, wrapping modulo \<open>2^32\<close>.\<close>

definition lcg_next :: "u32 \<Rightarrow> u32" where
  "lcg_next state = 1664525 * state + 1013904223"

definition randomUniform :: "real \<Rightarrow> real \<Rightarrow> int \<Rightarrow> u32 \<Rightarrow> real \<times> u32" where
  "randomUniform minValue maxValue seed state =
     (let state = (if seed \<ge> 0 then word_of_int seed else state);
          state = lcg_next state;
          scaled = to_double (to_double (1 / 4294967296) * to_double (real (unat state)));
          range = to_float (maxValue - minValue);
          r = to_double (minValue + to_double (range * scaled))
      in (to_float r, state))"

text \<open>The typical call \<open>randomUniform()\<close> with the declaration's defaults
  \<open>min = 0.0, max = 1.0, seed = -1\<close> (line 138).\<close>

definition randomUniform_default :: "u32 \<Rightarrow> real \<times> u32" where
  "randomUniform_default state = randomUniform 0 1 (-1) state"

definition secondsToBeats :: "real \<Rightarrow> real \<Rightarrow> real" where
  "secondsToBeats timeInSeconds bpm = timeInSeconds * (bpm / 60)"

definition sign :: "real \<Rightarrow> real" where
  "sign x = (if x < 0 then -1 else if x > 0 then 1 else 0)"

definition wholeNotesToSeconds :: "real \<Rightarrow> real \<Rightarrow> real" where
  "wholeNotesToSeconds noteValue bpm = (240 / bpm) * noteValue"

text \<open>The inverse of the generator step, used to state that it is a bijection.\<close>

definition lcg_prev :: "u32 \<Rightarrow> u32" where
  "lcg_prev state = 4276115653 * (state - 1013904223)"

text \<open>The sum \<open>1 + a + ... + a^(n-1)\<close> of the multiplier's powers: \<open>n\<close> steps of the
  generator add \<open>1013904223\<close> times it to \<open>a^n * state\<close>.\<close>

definition lcg_geo :: "nat \<Rightarrow> nat" where
  "lcg_geo n = (\<Sum>i<n. 1664525 ^ i)"

declare arrayMaxIndex_loop.simps [simp del] arrayMinIndex_loop.simps [simp del]

subsection \<open>Word loops, generator, array scans and conversions\<close>

lemma isPowerOfTwo_loop_pow:
  assumes "k \<le> 31" "unat x \<le> 2 ^ 31"
  shows "isPowerOfTwo_loop x (2 ^ k) = Some (\<exists>j \<ge> k. unat x = 2 ^ j)"
  using assms
proof (induction "31 - k" arbitrary: k)
  case 0
  then have k: "k = 31" by simp
  have u: "unat ((2::u32) ^ 31) = 2 ^ 31" by (rule unat_pow2_word) simp
  have ex: "(\<exists>j \<ge> 31. unat x = 2 ^ j) \<longleftrightarrow> unat x = 2 ^ 31"
  proof
    assume "\<exists>j \<ge> 31. unat x = 2 ^ j"
    then obtain j where "31 \<le> j" "unat x = 2 ^ j" by blast
    moreover have "(2::nat) ^ 31 \<le> 2 ^ j" using \<open>31 \<le> j\<close> by (rule power_increasing) simp
    ultimately show "unat x = 2 ^ 31" using "0.prems"(2) by simp
  qed blast
  show ?case
  proof (cases "unat x = 2 ^ 31")
    case True
    then have "x = 2 ^ 31" using u by (simp add: word_unat_eq_iff)
    then show ?thesis using k True by (subst isPowerOfTwo_loop.simps) auto
  next
    case False
    then have "\<not> (2::u32) ^ 31 \<le> x"
      using u "0.prems"(2) by (simp add: word_le_nat_alt)
    then show ?thesis using k ex False by (subst isPowerOfTwo_loop.simps) simp
  qed
next
  case (Suc m)
  then have k: "k < 31" by simp
  have u: "unat ((2::u32) ^ k) = 2 ^ k" by (rule unat_pow2_word) (use k in simp)
  show ?case
  proof (cases "(2::u32) ^ k \<le> x")
    case le: True
    show ?thesis
    proof (cases "(2::u32) ^ k = x")
      case True
      then show ?thesis using u by (subst isPowerOfTwo_loop.simps) auto
    next
      case False
      then have ne: "unat x \<noteq> 2 ^ k" using u by (simp add: word_unat_eq_iff)
      have "isPowerOfTwo_loop x (2 ^ Suc k) = Some (\<exists>j \<ge> Suc k. unat x = 2 ^ j)"
        using Suc.hyps(1) [of "Suc k"] Suc.hyps(2) Suc.prems(2) k by simp
      moreover have "(\<exists>j \<ge> Suc k. unat x = 2 ^ j) \<longleftrightarrow> (\<exists>j \<ge> k. unat x = 2 ^ j)"
        using ne Suc_le_eq le_eq_less_or_eq by auto
      ultimately show ?thesis
        using le False by (subst isPowerOfTwo_loop.simps) (simp add: pow2_word_double)
    qed
  next
    case False
    then have "unat x < 2 ^ k" using u by (simp add: word_le_nat_alt)
    then have "\<not> (\<exists>j \<ge> k. unat x = 2 ^ j)"
      by (metis leD order_less_le_trans power_increasing one_le_numeral)
    then show ?thesis using False by (subst isPowerOfTwo_loop.simps) simp
  qed
qed

lemma isPowerOfTwo_loop_zero:
  assumes "x \<noteq> 0"
  shows "isPowerOfTwo_loop x 0 = None"
proof -
  have "(case (x, cp) of (x, cp) \<Rightarrow> isPowerOfTwo_loop x cp) = Some r \<Longrightarrow>
    (case (x, cp) of (x, cp) \<Rightarrow> \<lambda>r. cp = 0 \<longrightarrow> x = 0) r" for cp r
    by (rule isPowerOfTwo_loop.raw_induct [where P = "\<lambda>x cp r. cp = 0 \<longrightarrow> x = 0"])
      (auto split: if_splits)
  then show ?thesis using assms by (cases "isPowerOfTwo_loop x 0") auto
qed

lemma isPowerOfTwo_loop_wraps:
  assumes "k \<le> 31" "2 ^ 31 < unat x"
  shows "isPowerOfTwo_loop x (2 ^ k) = isPowerOfTwo_loop x 0"
  using assms
proof (induction "31 - k" arbitrary: k)
  case 0
  then have k: "k = 31" by simp
  have u: "unat ((2::u32) ^ 31) = 2 ^ 31" by (rule unat_pow2_word) simp
  have "(2::u32) ^ 31 \<le> x" "(2::u32) ^ 31 \<noteq> x"
    using u "0.prems"(2) by (auto simp add: word_le_nat_alt)
  then have "isPowerOfTwo_loop x (2 ^ 31) = isPowerOfTwo_loop x (2 ^ 31 * 2)"
    by (subst isPowerOfTwo_loop.simps) simp
  also have "(2::u32) ^ 31 * 2 = 0" by simp
  finally show ?case using k by simp
next
  case (Suc m)
  then have k: "k < 31" by simp
  have u: "unat ((2::u32) ^ k) = 2 ^ k" by (rule unat_pow2_word) (use k in simp)
  have "(2::nat) ^ k < 2 ^ 31" using k by (rule power_strict_increasing) simp
  then have "(2::u32) ^ k \<le> x" "(2::u32) ^ k \<noteq> x"
    using u Suc.prems(2) by (auto simp add: word_le_nat_alt)
  moreover have "isPowerOfTwo_loop x (2 ^ Suc k) = isPowerOfTwo_loop x 0"
    using Suc.hyps(1) [of "Suc k"] Suc.hyps(2) Suc.prems(2) k by simp
  ultimately show ?case by (subst isPowerOfTwo_loop.simps) (simp add: pow2_word_double)
qed

lemma nextPowerOfTwo_loop_zero:
  assumes "x \<noteq> 0"
  shows "nextPowerOfTwo_loop x 0 = None"
proof -
  have "(case (x, a) of (x, a) \<Rightarrow> nextPowerOfTwo_loop x a) = Some r \<Longrightarrow>
    (case (x, a) of (x, a) \<Rightarrow> \<lambda>r. a = 0 \<longrightarrow> x = 0) r" for a r
    by (rule nextPowerOfTwo_loop.raw_induct [where P = "\<lambda>x a r. a = 0 \<longrightarrow> x = 0"])
      (auto split: if_splits simp: word_gt_0)
  then show ?thesis using assms by (cases "nextPowerOfTwo_loop x 0") auto
qed

lemma nextPowerOfTwo_loop_wraps:
  fixes x :: "'a::len word"
  assumes "k \<le> LENGTH('a) - 1" "2 ^ (LENGTH('a) - 1) < unat x"
  shows "nextPowerOfTwo_loop x (2 ^ k) = nextPowerOfTwo_loop x 0"
  using assms
proof (induction "LENGTH('a) - 1 - k" arbitrary: k)
  case 0
  then have k: "k = LENGTH('a) - 1" by simp
  have u: "unat ((2::'a word) ^ k) = 2 ^ k" by (rule unat_pow2_word) (use k in simp)
  have "(2::'a word) ^ k < x" using u "0.prems"(2) k by (simp add: word_less_nat_alt)
  moreover have "(2::'a word) ^ k * 2 = 2 ^ LENGTH('a)" using k
    by (simp only: pow2_word_double) simp
  then have "(2::'a word) ^ k * 2 = 0" by (simp only: pow2_word_len_zero)
  ultimately show ?case by (subst nextPowerOfTwo_loop.simps) simp
next
  case (Suc m)
  then have k: "k < LENGTH('a) - 1" by simp
  have u: "unat ((2::'a word) ^ k) = 2 ^ k" by (rule unat_pow2_word) (use k in simp)
  have "(2::nat) ^ k < 2 ^ (LENGTH('a) - 1)" using k by (rule power_strict_increasing) simp
  then have "2 ^ k < unat x" using Suc.prems(2) by linarith
  then have "(2::'a word) ^ k < x" using u by (simp add: word_less_nat_alt)
  moreover have "nextPowerOfTwo_loop x (2 ^ Suc k) = nextPowerOfTwo_loop x 0"
    using Suc.hyps(1) [of "Suc k"] Suc.hyps(2) Suc.prems(2) k by simp
  ultimately show ?case by (subst nextPowerOfTwo_loop.simps) (simp add: pow2_word_double)
qed

lemma nextPowerOfTwo_loop_pow:
  fixes x :: "'a::len word"
  assumes "k < LENGTH('a)" "unat x \<le> 2 ^ (LENGTH('a) - 1)" "2 ^ k < 2 * max 1 (unat x)"
  shows "\<exists>j. nextPowerOfTwo_loop x (2 ^ k) = Some (2 ^ j) \<and> j < LENGTH('a) \<and>
           unat x \<le> 2 ^ j \<and> 2 ^ j < 2 * max 1 (unat x)"
  using assms
proof (induction "LENGTH('a) - k" arbitrary: k)
  case 0
  then show ?case by simp
next
  case (Suc m)
  have u: "unat ((2::'a word) ^ k) = 2 ^ k" by (rule unat_pow2_word) (use Suc.prems(1) in simp)
  show ?case
  proof (cases "(2::'a word) ^ k < x")
    case True
    then have lt: "2 ^ k < unat x" using u by (simp add: word_less_nat_alt)
    then have "(2::nat) ^ k < 2 ^ (LENGTH('a) - 1)" using Suc.prems(2) by linarith
    then have k: "Suc k < LENGTH('a)" by simp
    have lt2: "2 ^ Suc k < 2 * max 1 (unat x)" using lt by simp
    have "m = LENGTH('a) - Suc k" using Suc.hyps(2) by simp
    from Suc.hyps(1) [OF this k Suc.prems(2) lt2] obtain j
      where "nextPowerOfTwo_loop x (2 ^ Suc k) = Some (2 ^ j) \<and> j < LENGTH('a) \<and>
        unat x \<le> 2 ^ j \<and> 2 ^ j < 2 * max 1 (unat x)" by blast
    then show ?thesis using True
      by (subst nextPowerOfTwo_loop.simps) (auto simp add: pow2_word_double)
  next
    case False
    then have "unat x \<le> 2 ^ k" using u by (simp add: word_less_nat_alt)
    then show ?thesis using False Suc.prems by (subst nextPowerOfTwo_loop.simps) auto
  qed
qed

text \<open>
  C30 (functional). For every 32-bit \<open>x \<le> 2^31\<close>, \<open>isPowerOfTwo\<close> returns,
  and it returns true exactly when \<open>x\<close> is a power of two.
\<close>

lemma isPowerOfTwo_correct:
  assumes "unat x \<le> 2 ^ 31"
  shows "isPowerOfTwo x = Some (\<exists>j. unat x = 2 ^ j)"
  using isPowerOfTwo_loop_pow [of 0 x] assms by (simp add: isPowerOfTwo_def)

lemma isPowerOfTwo_correct_witness:
  "unat (64::u32) \<le> 2 ^ 31 \<and> isPowerOfTwo 64 = Some (\<exists>j. unat (64::u32) = 2 ^ j)"
  using isPowerOfTwo_correct [of 64] by simp

text \<open>
  C31 (error). For \<open>x > 2^31\<close> the loop of \<open>isPowerOfTwo\<close> never returns:
  \<open>currentPower\<close> passes \<open>2^31\<close>, wraps to 0 and then stays below \<open>x\<close> forever.
\<close>

lemma isPowerOfTwo_diverges:
  assumes "2 ^ 31 < unat x"
  shows "isPowerOfTwo x = None"
proof -
  have "x \<noteq> 0" using assms by (auto simp: unat_eq_zero)
  then show ?thesis
    using isPowerOfTwo_loop_wraps [of 0 x] isPowerOfTwo_loop_zero assms by (simp add: isPowerOfTwo_def)
qed

lemma isPowerOfTwo_diverges_witness:
  "2 ^ 31 < unat (0x80000001::u32) \<and> isPowerOfTwo (0x80000001::u32) = None"
  using isPowerOfTwo_diverges [of "0x80000001"] by simp

text \<open>
  C32 (functional). For unsigned \<open>x \<le> 2^(n-1)\<close> on \<open>n\<close> bits, \<open>nextPowerOfTwo\<close>
  returns the least power of two that is at least \<open>x\<close> (1 for \<open>x \<le> 1\<close>).
\<close>

lemma nextPowerOfTwo_correct:
  fixes x :: "'a::len word"
  assumes "unat x \<le> 2 ^ (LENGTH('a) - 1)"
  shows "\<exists>r j. nextPowerOfTwo x = Some r \<and> unat r = 2 ^ j \<and>
           unat x \<le> unat r \<and> unat r < 2 * max 1 (unat x)"
proof -
  have "1 \<le> max 1 (unat x)" by simp
  then have "(2::nat) ^ 0 < 2 * max 1 (unat x)" by simp
  from nextPowerOfTwo_loop_pow [OF len_gt_0 assms this] obtain j
    where j: "nextPowerOfTwo_loop x (2 ^ 0) = Some (2 ^ j) \<and> j < LENGTH('a) \<and>
        unat x \<le> 2 ^ j \<and> 2 ^ j < 2 * max 1 (unat x)" by blast
  then have "unat ((2::'a word) ^ j) = 2 ^ j" by (simp add: unat_pow2_word)
  then show ?thesis using j by (auto simp add: nextPowerOfTwo_def)
qed

lemma nextPowerOfTwo_correct_witness:
  "unat (100::u32) \<le> 2 ^ (LENGTH(32) - 1) \<and>
   (\<exists>r j. nextPowerOfTwo (100::u32) = Some r \<and> unat r = 2 ^ j \<and>
      unat (100::u32) \<le> unat r \<and> unat r < 2 * max 1 (unat (100::u32)))"
  using nextPowerOfTwo_correct [of "100::u32"] by simp

text \<open>
  C33 (error). For unsigned \<open>x > 2^(n-1)\<close> the doubling accumulator of
  \<open>nextPowerOfTwo\<close> wraps to 0 and the loop never returns.
\<close>

lemma nextPowerOfTwo_diverges:
  fixes x :: "'a::len word"
  assumes "2 ^ (LENGTH('a) - 1) < unat x"
  shows "nextPowerOfTwo x = None"
proof -
  have "x \<noteq> 0" using assms by (auto simp: unat_eq_zero)
  then show ?thesis
    using nextPowerOfTwo_loop_wraps [of 0 x] nextPowerOfTwo_loop_zero assms
    by (simp add: nextPowerOfTwo_def)
qed

lemma nextPowerOfTwo_diverges_witness:
  "2 ^ (LENGTH(32) - 1) < unat (0x80000001::u32) \<and> nextPowerOfTwo (0x80000001::u32) = None"
  using nextPowerOfTwo_diverges [of "0x80000001::u32"] by simp

lemma lcg_multiplier_inverse: "(4276115653::u32) * 1664525 = 1"
  by (simp add: word_uint_eq_iff)

text \<open>
  The 32-bit generator step of \<open>randomUniform\<close> is a bijection:
  multiplication by \<open>4276115653\<close> (the inverse of \<open>1664525\<close> modulo \<open>2^32\<close>) undoes it.
\<close>

lemma lcg_roundtrip:
  "lcg_prev (lcg_next s) = s \<and> lcg_next (lcg_prev s) = s"
proof -
  have inv2: "(1664525::u32) * 4276115653 = 1"
    by (simp only: mult.commute [of "1664525::u32"] lcg_multiplier_inverse)
  show ?thesis
    unfolding lcg_next_def lcg_prev_def
    by (simp only: add_diff_cancel_right' diff_add_cancel mult.assoc [symmetric]
        lcg_multiplier_inverse inv2 mult_1 simp_thms)
qed

lemma unat_u32_scaled_bounds:
  "0 \<le> (1 / 4294967296) * real (unat (w::u32)) \<and> (1 / 4294967296) * real (unat w) < 1"
proof -
  have "unat w < 4294967296" using unsigned_less [of w] by simp
  then have "real (unat w) < 4294967296" by linarith
  then show ?thesis by (simp del: of_nat_unat)
qed

lemma two_powi_neg32: "(2::real) powi (-32) = 1 / 4294967296"
  by (simp add: power_int_minus inverse_eq_divide)

lemma to_double_u32_exact:
  "to_double (real (unat (w::u32))) = real (unat w)"
  "to_double (real (unat w) / 4294967296) = real (unat w) / 4294967296"
proof -
  have u: "\<bar>int (unat w)\<bar> < 2 ^ 53" using uint_lt2p [of w] by simp
  have "round_prec 53 (of_int (int (unat w)) * 2 powi 0) = of_int (int (unat w)) * 2 powi 0"
    using u by (rule round_prec_exact)
  then show "to_double (real (unat w)) = real (unat w)"
    by (simp only: of_int_of_nat_eq power_int_0_right mult_1_right to_double_def)
  have "round_prec 53 (of_int (int (unat w)) * 2 powi (-32)) = of_int (int (unat w)) * 2 powi (-32)"
    using u by (rule round_prec_exact)
  then show "to_double (real (unat w) / 4294967296) = real (unat w) / 4294967296"
    by (simp only: two_powi_neg32 of_int_of_nat_eq times_divide_eq_right mult_1_right to_double_def)
qed

lemma randomUniform_default_value:
  "fst (randomUniform_default s) = to_float (real (unat (lcg_next s)) / 4294967296)"
proof -
  define x where "x = real (unat (lcg_next s)) / 4294967296"
  have c: "to_double (1 / 4294967296) = 1 / 4294967296"
  proof -
    have "round_prec 53 (of_int 1 * 2 powi (-32)) = of_int 1 * 2 powi (-32)"
      by (rule round_prec_exact) simp
    then show ?thesis by (simp only: two_powi_neg32 of_int_1 mult_1_left to_double_def)
  qed
  have one: "to_float (1 - 0) = 1"
  proof -
    have "round_prec 24 (of_int 1 * 2 powi 0) = of_int 1 * 2 powi 0" by (rule round_prec_exact) simp
    then show ?thesis by (simp add: to_float_def)
  qed
  have sc: "to_double (to_double (1 / 4294967296) * to_double (real (unat (lcg_next s)))) = x"
    using to_double_u32_exact [of "lcg_next s"] by (simp only: c x_def) simp
  have "fst (randomUniform_default s) = to_float (to_double (0 + to_double (to_float (1 - 0) * x)))"
    using sc by (simp add: randomUniform_default_def randomUniform_def Let_def del: of_nat_unat)
  also have "\<dots> = to_float x"
    using to_double_u32_exact(2) [of "lcg_next s"] by (simp only: one mult_1_left add_0_left x_def)
  finally show ?thesis by (simp only: x_def)
qed

text \<open>
  C37 (bounds). The typical call \<open>randomUniform()\<close> (\<open>min = 0\<close>, \<open>max = 1\<close>, no
  seed) returns a value in the closed interval \<open>[0, 1]\<close>, as its documentation
  says (inclusive): the exact quotient \<open>state / 2^32\<close> is below 1, but its
  conversion to the \<open>float\<close> result rounds to exactly 1.0 precisely for the 128
  generator states from \<open>2^32 - 128\<close> on.
\<close>

theorem randomUniform_default_closed:
  "0 \<le> fst (randomUniform_default s) \<and> fst (randomUniform_default s) \<le> 1 \<and>
   (fst (randomUniform_default s) = 1 \<longleftrightarrow> 2 ^ 32 - 128 \<le> unat (lcg_next s))"
proof -
  define u where "u = unat (lcg_next s)"
  define x where "x = real u / 4294967296"
  have ul: "u < 2 ^ 32" using unsigned_less [of "lcg_next s"] by (simp add: u_def)
  have v: "fst (randomUniform_default s) = round_prec 24 x"
    by (simp add: randomUniform_default_value to_float_def x_def u_def del: of_nat_unat)
  have x: "0 \<le> x" "x < 1" using ul by (simp_all add: x_def)
  show ?thesis
  proof (cases "x < 1 / 2")
    case True
    have "round_prec 24 x \<le> 1 / 2"
    proof (cases "x = 0")
      case False
      then show ?thesis using True x(1) by (intro round_prec_below_half) simp_all
    qed (simp add: round_prec_def)
    moreover have "\<not> 2 ^ 32 - 128 \<le> u" using True by (simp add: x_def)
    ultimately show ?thesis using round_prec_nonneg [OF x(1), of 24] by (simp add: v u_def)
  next
    case False
    then have h: "1 / 2 \<le> x" by simp
    have "1 - 1 / 2 ^ (24 + 1) \<le> x \<longleftrightarrow> 2 ^ 32 - 128 \<le> u"
    proof -
      have "1 - 1 / 2 ^ (24 + 1) \<le> x \<longleftrightarrow> real (2 ^ 32 - 128) \<le> real u" by (simp add: x_def)
      then show ?thesis by (simp only: of_nat_le_iff)
    qed
    then show ?thesis
      using round_prec_upper_half [of 24 x] h x round_prec_nonneg [OF x(1), of 24] by (simp add: v u_def)
  qed
qed

text \<open>
  \<open>isEven\<close> and \<open>isOdd\<close>, written with C's truncating \<open>%\<close>,
  decide parity correctly for negative arguments too.
\<close>

lemma isEven_iff: "isEven x = even x \<and> isOdd x = odd x"
  by (auto simp add: isEven_def isOdd_def signed_modulo_int_def sgn_eq_0_iff
      even_iff_mod_2_eq_zero [symmetric])

lemma to_float_int_exact: "\<bar>k\<bar> < 2 ^ 24 \<Longrightarrow> to_float (real_of_int k) = real_of_int k"
  using round_prec_exact [of k 24 0] by (simp add: to_float_def)

lemma to_float_rel_error: "\<bar>to_float x - x\<bar> \<le> \<bar>x\<bar> / 2 ^ 24"
  unfolding to_float_def by (rule round_prec_error) simp

text \<open>
  C36 (roundtrip). For \<open>0 \<le> i < n \<le> 2^21\<close>, \<open>indexToNormalizedValue\<close> returns a
  \<open>float\<close> in \<open>(0, 1)\<close>, and \<open>normalizedValueToIndex\<close> maps it back to \<open>i\<close>: the
  rounding of the \<open>float\<close> division and product moves \<open>i + 1/2\<close> by less than
  \<open>3 (i + 1/2) / 2^24 < 1/2\<close>. For larger tables the round trip can fail
  (lemma \<open>index_roundtrip_float_fails\<close>).
\<close>

lemma index_roundtrip:
  assumes "0 \<le> i" "i < n" "n \<le> 2 ^ 21"
  shows "\<exists>v. indexToNormalizedValue i n = Some v \<and> 0 < v \<and> v < 1 \<and>
             normalizedValueToIndex v n = Some i"
proof -
  define q where "q = real_of_int (2 * i + 1) / real_of_int (2 * n)"
  define E where "E = real_of_int i + 1 / 2"
  define v where "v = to_float q"
  define w where "w = to_float (v * real_of_int n)"
  have n: "0 < real_of_int n" "real_of_int n \<le> 2 ^ 21" using assms by simp_all
  have fa: "to_float (real_of_int (2 * i + 1)) = real_of_int (2 * i + 1)"
    using assms by (intro to_float_int_exact) simp
  have fb: "to_float (real_of_int (2 * n)) = real_of_int (2 * n)"
    using assms by (intro to_float_int_exact) simp
  have fn: "to_float (real_of_int n) = real_of_int n"
    using assms by (intro to_float_int_exact) simp
  have some: "indexToNormalizedValue i n = Some v"
    using assms fa fb by (simp add: indexToNormalizedValue_def int32_range_def v_def q_def)
  have q3: "q \<le> 1 - 1 / (2 * real_of_int n)"
  proof -
    have "real_of_int (2 * i + 1) \<le> 2 * real_of_int n - 1" using assms by simp
    then have "q \<le> (2 * real_of_int n - 1) / (2 * real_of_int n)"
      unfolding q_def using n(1) by (simp add: divide_right_mono)
    also have "\<dots> = 1 - 1 / (2 * real_of_int n)" using n(1) by (simp add: diff_divide_distrib)
    finally show ?thesis .
  qed
  have q: "0 < q" "q * real_of_int n = E" "q \<le> 1 - 1 / (2 * real_of_int n)"
    using assms n(1) q3 by (simp_all add: q_def E_def field_simps)
  have ev: "\<bar>v - q\<bar> \<le> q / 2 ^ 24" using to_float_rel_error [of q] q(1) by (simp add: v_def)
  then have ev2: "q - v \<le> q / 16777216" "v - q \<le> q / 16777216"
    unfolding abs_le_iff by simp_all
  then have v0: "0 < v" using q(1) by linarith
  have "q / 2 ^ 24 < 1 / (2 * real_of_int n)"
  proof -
    have "0 < 1 / (2 * real_of_int n)" using n(1) by simp
    then have "q < 1" using q(3) by linarith
    then have "q / 2 ^ 24 < 1 / 2 ^ 24" by (simp add: divide_strict_right_mono)
    also have "\<dots> \<le> 1 / (2 * real_of_int n)" using n by (intro divide_left_mono) simp_all
    finally show ?thesis .
  qed
  then have v1: "v < 1" using ev2 q(3) by simp
  have "v * real_of_int n - E = (v - q) * real_of_int n"
    using q(2) by (simp add: left_diff_distrib)
  then have "\<bar>v * real_of_int n - E\<bar> = \<bar>v - q\<bar> * real_of_int n"
    using n(1) by (simp add: abs_mult)
  also have "\<dots> \<le> q / 2 ^ 24 * real_of_int n" using ev n(1) by (intro mult_right_mono) simp_all
  also have "\<dots> = E / 2 ^ 24" using q(2) by simp
  finally have e1: "\<bar>v * real_of_int n - E\<bar> \<le> E / 2 ^ 24" .
  have e2: "\<bar>w - v * real_of_int n\<bar> \<le> v * real_of_int n / 2 ^ 24"
    using to_float_rel_error [of "v * real_of_int n"] v0 n(1) by (simp add: w_def)
  have E: "0 < E" "E \<le> 2097152" using assms n by (simp_all add: E_def)
  have l: "v * real_of_int n - E \<le> E / 16777216" "E - v * real_of_int n \<le> E / 16777216"
    "w - v * real_of_int n \<le> v * real_of_int n / 16777216"
    "v * real_of_int n - w \<le> v * real_of_int n / 16777216"
    using e1 e2 unfolding abs_le_iff by simp_all
  have "w - E < 1 / 2" "E - w < 1 / 2" using l E by linarith+
  then have "\<lfloor>w\<rfloor> = i" by (simp add: E_def floor_eq_iff)
  then have "normalizedValueToIndex v n = Some i"
    using assms fn by (simp add: normalizedValueToIndex_def int32_range_def w_def)
  with some v0 v1 show ?thesis by blast
qed

text \<open>
  The round trip fails for \<open>2^25\<close> indices: \<open>2 * index + 1 = 2^26 - 1\<close> has 26
  significant bits, its conversion to \<open>float\<close> rounds up to \<open>2^26\<close>, the value is
  exactly 1.0 and maps back to \<open>numIndices\<close>, one past the last index.
\<close>

lemma index_roundtrip_float_fails:
  "indexToNormalizedValue (2 ^ 25 - 1) (2 ^ 25) = Some 1 \<and> normalizedValueToIndex 1 (2 ^ 25) = Some (2 ^ 25)"
proof -
  define x :: real where "x = 2 ^ 26 - 1"
  have x0: "x \<noteq> 0" by (simp add: x_def)
  have b: "binade x = 25" by (rule binade_eqI) (simp_all add: x_def)
  have y: "x / 2 powi (binade x - (int 24 - 1)) = 16777215.75" by (simp only: b) (simp add: x_def)
  have "round_even 16777215.75 = 2 ^ 24"
    by (subst round_even_top) simp_all
  then have up: "to_float x = 2 ^ 26"
    using round_prec_scaled [OF x0, of 24] by (simp only: to_float_def y) (simp add: b)
  have ex: "to_float (2 ^ k) = 2 ^ k" for k :: nat
    using round_prec_exact [of 1 24 "int k"] by (simp add: to_float_def power_int_of_nat)
  have "to_float (real_of_int (2 * (2 ^ 25 - 1) + 1)) = 2 ^ 26" using up by (simp add: x_def)
  moreover have "to_float (real_of_int (2 * 2 ^ 25)) = 2 ^ 26" using ex [of 26] by simp
  moreover have "to_float 1 = 1" using ex [of 0] by simp
  ultimately have "indexToNormalizedValue (2 ^ 25 - 1) (2 ^ 25) = Some 1"
    by (simp add: indexToNormalizedValue_def int32_range_def)
  moreover have "normalizedValueToIndex 1 (2 ^ 25) = Some (2 ^ 25)"
    using ex [of 25] by (simp add: normalizedValueToIndex_def int32_range_def)
  ultimately show ?thesis by simp
qed

lemma indexToNormalizedValue_overflow:
  "2 ^ 30 \<le> index \<Longrightarrow> indexToNormalizedValue index numIndices = None"
  by (simp add: indexToNormalizedValue_def int32_range_def)

text \<open>
  Mapping a range linearly and back is the identity when
  both ranges are non-degenerate.
\<close>

lemma linToLin_roundtrip:
  assumes "inMin \<noteq> inMax" "outMin \<noteq> outMax"
  shows "linToLin (linToLin x inMin inMax outMin outMax) outMin outMax inMin inMax = x"
proof -
  define t where "t = (x - inMin) / (inMax - inMin)"
  have a: "linToLin x inMin inMax outMin outMax = t * (outMax - outMin) + outMin"
    by (simp add: linToLin_def t_def)
  have "(t * (outMax - outMin) + outMin - outMin) / (outMax - outMin) = t"
    using assms by simp
  then show ?thesis using assms by (simp add: a linToLin_def t_def)
qed

text \<open>
  \<open>expToLin\<close> inverts \<open>linToExp\<close> on positive, distinct output bounds.
\<close>

lemma expToLin_linToExp:
  assumes "inMin \<noteq> inMax" "0 < outMin" "0 < outMax" "outMin \<noteq> outMax"
  shows "expToLin (linToExp x inMin inMax outMin outMax) outMin outMax inMin inMax = x"
proof -
  have l: "ln (outMax / outMin) \<noteq> 0" using assms by simp
  have "ln (linToExp x inMin inMax outMin outMax / outMin) =
        (x - inMin) / (inMax - inMin) * ln (outMax / outMin)"
    using assms by (simp add: linToExp_def Let_def)
  then show ?thesis using assms l by (simp add: expToLin_def Let_def field_simps)
qed

text \<open>
  As documented, \<open>expToLinWithOffset\<close> inverts \<open>linToExpWithOffset\<close> (called with
  the ranges swapped) when the scaled range \<open>outMax + offset\<close> is not zero; with
  the default offset 0 the offset variant is \<open>linToExp\<close> itself.
\<close>

lemma expToLinWithOffset_linToExpWithOffset:
  assumes "inMin \<noteq> inMax" "0 < outMin" "0 < outMax" "outMin \<noteq> outMax" "outMax + offset \<noteq> 0"
  shows "expToLinWithOffset (linToExpWithOffset x inMin inMax outMin outMax offset)
           outMin outMax inMin inMax offset = x"
proof -
  define e where "e = linToExp x inMin inMax outMin outMax"
  have "(e + offset) * (outMax / (outMax + offset)) * (outMax + offset) = (e + offset) * outMax"
    using assms(5) by simp
  then have "(e + offset) * (outMax / (outMax + offset)) * (outMax + offset) / outMax - offset = e"
    using assms(3) by simp
  then show ?thesis
    using expToLin_linToExp [OF assms(1-4), of x]
    by (simp add: expToLinWithOffset_def linToExpWithOffset_def Let_def e_def)
qed

lemma linToExpWithOffset_default_eq:
  "outMax \<noteq> 0 \<Longrightarrow>
   linToExpWithOffset_default x inMin inMax outMin outMax = linToExp x inMin inMax outMin outMax"
  by (simp add: linToExpWithOffset_default_def linToExpWithOffset_def)

lemma expToLinWithOffset_default_eq:
  "inMax \<noteq> 0 \<Longrightarrow>
   expToLinWithOffset_default x inMin inMax outMin outMax = expToLin x inMin inMax outMin outMax"
  by (simp add: expToLinWithOffset_default_def expToLinWithOffset_def)

text \<open>
  The check floors the level at \<open>amp2dB 0.000001\<close> (about -120 dB) for every
  amplitude, zero and negative ones included, where \<open>amp2dB\<close> itself has no
  meaningful value.
\<close>

lemma amp2dBWithCheck_default_floor: "amp2dB 0.000001 \<le> amp2dBWithCheck_default amp"
proof (cases "0.000001 \<le> amp")
  case True
  then have "ln 0.000001 \<le> ln amp" by simp
  then show ?thesis using True by (simp add: amp2dB_def amp2dBWithCheck_default_def amp2dBWithCheck_def)
qed (simp add: amp2dB_def amp2dBWithCheck_default_def amp2dBWithCheck_def)

text \<open>
  \<open>secondsToBeats\<close> inverts \<open>beatsToSeconds\<close> at any non-zero tempo.
\<close>

lemma beats_seconds_roundtrip:
  assumes "bpm \<noteq> 0"
  shows "secondsToBeats (beatsToSeconds b bpm) bpm = b"
  using assms by (simp add: secondsToBeats_def beatsToSeconds_def)

lemma nat_int_succ_less: "0 \<le> i \<Longrightarrow> j < nat (i + 1) \<longleftrightarrow> j < nat i \<or> j = nat i"
  by auto

lemma arrayMaxIndex_loop_correct:
  assumes "0 \<le> i" "i \<le> n" "n \<le> int (length xs)" "0 < n"
    and "0 \<le> mi" "mi < i \<or> mi = 0" "mv = xs ! nat mi"
    and "\<forall>j < nat i. xs ! j \<le> mv" "\<forall>j < nat mi. xs ! j < mv"
  shows "\<exists>r. arrayMaxIndex_loop xs n i mi mv = Some r \<and> 0 \<le> r \<and> r < n \<and>
           (\<forall>j < nat n. xs ! j \<le> xs ! nat r) \<and> (\<forall>j < nat r. xs ! j < xs ! nat r)"
  using assms
proof (induction xs n i mi mv rule: arrayMaxIndex_loop.induct)
  case (1 xs n i mi mv)
  show ?case
  proof (cases "i < n")
    case lt: True
    then have rd: "read_at xs i = Some (xs ! nat i)" using "1.prems"(1,3) by simp
    show ?thesis
    proof (cases "xs ! nat i > mv")
      case True
      have "\<exists>r. arrayMaxIndex_loop xs n (i + 1) i (xs ! nat i) = Some r \<and> 0 \<le> r \<and> r < n \<and>
           (\<forall>j < nat n. xs ! j \<le> xs ! nat r) \<and> (\<forall>j < nat r. xs ! j < xs ! nat r)"
        using "1.prems" lt True by (intro "1.IH"(1) [OF lt rd True]) (auto simp: nat_int_succ_less)
      then show ?thesis using lt rd True by (subst arrayMaxIndex_loop.simps) simp
    next
      case False
      have "\<exists>r. arrayMaxIndex_loop xs n (i + 1) mi mv = Some r \<and> 0 \<le> r \<and> r < n \<and>
           (\<forall>j < nat n. xs ! j \<le> xs ! nat r) \<and> (\<forall>j < nat r. xs ! j < xs ! nat r)"
        using "1.prems" lt False by (intro "1.IH"(2) [OF lt rd False]) (auto simp: nat_int_succ_less)
      then show ?thesis using lt rd False by (subst arrayMaxIndex_loop.simps) simp
    qed
  next
    case False
    then have "i = n" using "1.prems"(2) by simp
    then show ?thesis using "1.prems" False by (subst arrayMaxIndex_loop.simps) auto
  qed
qed

lemma arrayMaxIndex_loop_beyond:
  assumes "int (length xs) < n" "0 \<le> i" "i \<le> int (length xs)"
  shows "arrayMaxIndex_loop xs n i mi mv = None"
  using assms
proof (induction xs n i mi mv rule: arrayMaxIndex_loop.induct)
  case (1 xs n i mi mv)
  show ?case
  proof (cases "i = int (length xs)")
    case True
    then show ?thesis using "1.prems" by (subst arrayMaxIndex_loop.simps) simp
  next
    case False
    then have lt: "i < n" and rd: "read_at xs i = Some (xs ! nat i)" using "1.prems" by auto
    then show ?thesis using "1.IH" [OF lt rd] "1.prems" False
      by (subst arrayMaxIndex_loop.simps) simp
  qed
qed

lemma arrayMinIndex_loop_eq:
  "arrayMinIndex_loop xs n i mi mv = arrayMaxIndex_loop (map uminus xs) n i mi (- mv)"
proof (induction xs n i mi mv rule: arrayMinIndex_loop.induct)
  case (1 xs n i mi mv)
  show ?case
  proof (cases "i < n")
    case lt: True
    show ?thesis
    proof (cases "read_at xs i")
      case None
      then show ?thesis using lt
        by (subst arrayMinIndex_loop.simps, subst arrayMaxIndex_loop.simps) (simp add: read_at_map)
    next
      case (Some x)
      then show ?thesis using lt "1.IH" [OF lt Some]
        by (subst arrayMinIndex_loop.simps, subst arrayMaxIndex_loop.simps) (simp add: read_at_map)
    qed
  next
    case False
    then show ?thesis
      by (subst arrayMinIndex_loop.simps, subst arrayMaxIndex_loop.simps) simp
  qed
qed

text \<open>
  C34 (functional). For \<open>0 < numValues \<le> length\<close>, \<open>arrayMaxIndex\<close> returns the index
  of the first maximum of the first \<open>numValues\<close> entries.
\<close>

lemma arrayMaxIndex_correct:
  assumes "0 < numValues" "numValues \<le> int (length theArray)"
  shows "\<exists>r. arrayMaxIndex theArray numValues = Some r \<and> 0 \<le> r \<and> r < numValues \<and>
           (\<forall>j < nat numValues. theArray ! j \<le> theArray ! nat r) \<and>
           (\<forall>j < nat r. theArray ! j < theArray ! nat r)"
proof -
  have "read_at theArray 0 = Some (theArray ! 0)" using assms by (auto simp add: read_at_def)
  then show ?thesis
    using arrayMaxIndex_loop_correct [of 0 numValues theArray 0 "theArray ! 0"] assms
    by (simp add: arrayMaxIndex_def)
qed

lemma arrayMaxIndex_correct_witness:
  "0 < (5::int) \<and> 5 \<le> int (length [3, 7, 1, 7, 2 :: real]) \<and>
   (\<exists>r. arrayMaxIndex [3, 7, 1, 7, 2] 5 = Some r \<and> 0 \<le> r \<and> r < 5 \<and>
      (\<forall>j < nat 5. [3, 7, 1, 7, 2 :: real] ! j \<le> [3, 7, 1, 7, 2 :: real] ! nat r) \<and>
      (\<forall>j < nat r. [3, 7, 1, 7, 2 :: real] ! j < [3, 7, 1, 7, 2 :: real] ! nat r))"
  using arrayMaxIndex_correct [of 5 "[3, 7, 1, 7, 2]"] by simp

text \<open>
  When \<open>numValues\<close> exceeds the array length the scan reads
  outside the array (undefined behaviour in C).
\<close>

lemma arrayMaxIndex_out_of_range:
  assumes "int (length theArray) < numValues"
  shows "arrayMaxIndex theArray numValues = None"
proof (cases theArray)
  case Nil
  then show ?thesis by (simp add: arrayMaxIndex_def)
next
  case (Cons a as)
  then show ?thesis using arrayMaxIndex_loop_beyond [OF assms] by (simp add: arrayMaxIndex_def)
qed

lemma arrayMaxIndex_out_of_range_witness:
  "int (length [3, 7, 1 :: real]) < 5 \<and> arrayMaxIndex [3, 7, 1] 5 = None"
  using arrayMaxIndex_out_of_range [of "[3, 7, 1]" 5] by simp

text \<open>
  C35 (equivalence). \<open>arrayMinIndex\<close> is \<open>arrayMaxIndex\<close> on the negated array: the
  two loops agree step by step, reads outside the array included.
\<close>

lemma arrayMinIndex_eq:
  "arrayMinIndex theArray numValues = arrayMaxIndex (map uminus theArray) numValues"
  by (simp add: arrayMinIndex_def arrayMaxIndex_def read_at_map arrayMinIndex_loop_eq
      split: option.split)


lemma index_roundtrip_witness:
  "0 \<le> (5::int) \<and> (5::int) < 12 \<and> (12::int) \<le> 2 ^ 21 \<and>
   (\<exists>v. indexToNormalizedValue 5 12 = Some v \<and> 0 < v \<and> v < 1 \<and> normalizedValueToIndex v 12 = Some 5)"
  using index_roundtrip [of 5 12] by simp

lemma linToLin_roundtrip_witness:
  "(0::real) \<noteq> 1 \<and> (0::real) \<noteq> 10 \<and> linToLin (linToLin 0.25 0 1 0 10) 0 10 0 1 = 0.25"
  using linToLin_roundtrip [where x = "0.25" and inMin = 0 and inMax = 1 and outMin = 0 and outMax = 10]
  by simp

lemma expToLin_linToExp_witness:
  "(0::real) \<noteq> 1 \<and> (0::real) < 20 \<and> (0::real) < 20000 \<and> (20::real) \<noteq> 20000 \<and>
   expToLin (linToExp 0.5 0 1 20 20000) 20 20000 0 1 = 0.5"
  using expToLin_linToExp [where x = "0.5" and inMin = 0 and inMax = 1 and outMin = 20 and outMax = 20000]
  by simp

lemma beats_seconds_roundtrip_witness:
  "(120::real) \<noteq> 0 \<and> secondsToBeats (beatsToSeconds 4 120) 120 = 4"
  using beats_seconds_roundtrip [where b = 4 and bpm = 120] by simp


lemma lcg_geo_Suc: "lcg_geo (Suc n) = 1 + 1664525 * lcg_geo n"
  unfolding lcg_geo_def sum.lessThan_Suc_shift by (simp add: sum_distrib_left)

lemma lcg_geo_power: "lcg_geo n * 1664524 + 1 = 1664525 ^ n"
  by (induction n) (simp_all add: lcg_geo_def algebra_simps)

lemma lcg_geo_parity: "even (lcg_geo n) \<longleftrightarrow> even n"
  by (induction n) (simp_all add: lcg_geo_def)

lemma lcg_geo_double: "lcg_geo (2 * m) = lcg_geo m * (1 + 1664525 ^ m)"
proof -
  have "lcg_geo (2 * m) * 1664524 + 1 = (lcg_geo m * 1664524 + 1) ^ 2"
    by (simp only: lcg_geo_power power_mult [symmetric] mult.commute [of 2 m])
  then have "lcg_geo (2 * m) * 1664524 = lcg_geo m * (lcg_geo m * 1664524 + 2) * 1664524"
    by (simp add: power2_eq_square algebra_simps)
  then have "lcg_geo (2 * m) = lcg_geo m * (lcg_geo m * 1664524 + 2)" by simp
  also have "lcg_geo m * 1664524 + 2 = 1 + 1664525 ^ m" using lcg_geo_power [of m] by simp
  finally show ?thesis .
qed

lemma lcg_power_mod4: "(1664525::nat) ^ m mod 4 = 1"
proof -
  have "(1664525::nat) ^ m mod 4 = (1664525 mod 4) ^ m mod 4" by (rule power_mod [symmetric])
  then show ?thesis by simp
qed

lemma lcg_geo_dvd_iff: "2 ^ k dvd lcg_geo n \<longleftrightarrow> 2 ^ k dvd n"
proof (induction k arbitrary: n)
  case 0
  then show ?case by simp
next
  case (Suc k)
  show ?case
  proof (cases "even n")
    case False
    then have "\<not> 2 dvd lcg_geo n" using lcg_geo_parity [of n] by simp
    then show ?thesis using False by (auto dest: dvd_mult_left simp: power_Suc)
  next
    case True
    then obtain m where n: "n = 2 * m" by (auto elim: evenE)
    obtain q where q: "1 + (1664525::nat) ^ m = 2 * (2 * q + 1)"
    proof -
      have "(1664525::nat) ^ m = 4 * ((1664525::nat) ^ m div 4) + 1"
        using lcg_power_mod4 [of m] div_mult_mod_eq [of "(1664525::nat) ^ m" 4] by simp
      then show ?thesis by (intro that [of "(1664525::nat) ^ m div 4"]) simp
    qed
    have cop: "coprime (2 ^ k) (2 * q + 1 :: nat)" by simp
    have g: "lcg_geo n = 2 * (lcg_geo m * (2 * q + 1))"
      unfolding n lcg_geo_double q by (simp only: ac_simps)
    have "2 ^ Suc k dvd lcg_geo n \<longleftrightarrow> 2 * 2 ^ k dvd 2 * (lcg_geo m * (2 * q + 1))"
      by (simp only: g power_Suc)
    also have "\<dots> \<longleftrightarrow> 2 ^ k dvd lcg_geo m * (2 * q + 1)" by (rule dvd_times_left_cancel_iff) simp
    also have "\<dots> \<longleftrightarrow> 2 ^ k dvd lcg_geo m" using cop by (rule coprime_dvd_mult_left_iff)
    also have "\<dots> \<longleftrightarrow> 2 ^ k dvd m" by (rule Suc.IH)
    also have "\<dots> \<longleftrightarrow> 2 ^ Suc k dvd n" by (simp add: n)
    finally show ?thesis .
  qed
qed

lemma lcg_iter_of_nat:
  "(lcg_next ^^ n) (word_of_nat x) = word_of_nat (1664525 ^ n * x + 1013904223 * lcg_geo n)"
proof (induction n)
  case 0
  then show ?case by (simp add: lcg_geo_def)
next
  case (Suc n)
  have "1664525 * (1664525 ^ n * x + 1013904223 * lcg_geo n) + 1013904223 =
        1664525 ^ Suc n * x + 1013904223 * lcg_geo (Suc n)"
    by (simp add: lcg_geo_Suc algebra_simps)
  moreover have "word_of_nat (1664525 * Y + 1013904223) = (1664525 * word_of_nat Y + 1013904223 :: u32)"
    for Y :: nat by simp
  ultimately show ?case using Suc by (simp only: funpow.simps comp_apply lcg_next_def) metis
qed

lemma lcg_iter_fix_nat:
  "(lcg_next ^^ n) (word_of_nat x :: u32) = word_of_nat x \<longleftrightarrow> 2 ^ 32 dvd n"
proof -
  define X where "X = 1664525 ^ n * x + 1013904223 * lcg_geo n"
  have X: "X = x + lcg_geo n * (1664524 * x + 1013904223)"
    using lcg_geo_power [of n] by (simp add: X_def algebra_simps flip: lcg_geo_power)
  have "odd (1664524 * x + 1013904223 :: nat)" by simp
  then have cop: "coprime ((2::nat) ^ 32) (1664524 * x + 1013904223)"
    unfolding coprime_power_left_iff by (simp add: coprime_left_2_iff_odd)
  have "(lcg_next ^^ n) (word_of_nat x :: u32) = word_of_nat x \<longleftrightarrow> X mod 2 ^ 32 = x mod 2 ^ 32"
    by (simp add: lcg_iter_of_nat X_def [symmetric] word_of_nat_eq_iff take_bit_eq_mod)
  also have "\<dots> \<longleftrightarrow> 2 ^ 32 dvd X - x" by (rule mod_eq_dvd_iff_nat) (simp add: X)
  also have "\<dots> \<longleftrightarrow> 2 ^ 32 dvd lcg_geo n * (1664524 * x + 1013904223)" by (simp add: X)
  also have "\<dots> \<longleftrightarrow> 2 ^ 32 dvd lcg_geo n" using cop by (rule coprime_dvd_mult_left_iff)
  also have "\<dots> \<longleftrightarrow> 2 ^ 32 dvd n" by (rule lcg_geo_dvd_iff)
  finally show ?thesis .
qed

lemma lcg_iter_fix: "(lcg_next ^^ n) s = s \<longleftrightarrow> 2 ^ 32 dvd n"
  using lcg_iter_fix_nat [of n "unat s"] by simp

lemma lcg_orbit: "(\<lambda>k. (lcg_next ^^ k) s) ` {..<2 ^ 32} = UNIV"
proof -
  have inj: "inj_on (\<lambda>k. (lcg_next ^^ k) s) {..<2 ^ 32}"
  proof (rule inj_onI)
    fix i j :: nat
    assume ij: "i \<in> {..<2 ^ 32}" "j \<in> {..<2 ^ 32}" and eq: "(lcg_next ^^ i) s = (lcg_next ^^ j) s"
    show "i = j"
    proof (rule ccontr)
      assume ne: "i \<noteq> j"
      have key: "(lcg_next ^^ (b - a)) ((lcg_next ^^ a) s) = (lcg_next ^^ a) s"
        if "a < b" "(lcg_next ^^ a) s = (lcg_next ^^ b) s" for a b
      proof -
        have "(lcg_next ^^ ((b - a) + a)) s = (lcg_next ^^ (b - a)) ((lcg_next ^^ a) s)"
          by (simp only: funpow_add comp_apply)
        then show ?thesis using that by simp
      qed
      have "\<exists>a b. a < b \<and> b < 2 ^ 32 \<and> (lcg_next ^^ a) s = (lcg_next ^^ b) s"
      proof (cases "i < j")
        case True
        then show ?thesis using ij eq by blast
      next
        case False
        then have "j < i" using ne by simp
        then show ?thesis using ij eq by (metis lessThan_iff)
      qed
      then obtain a b where ab: "a < b" "b < 2 ^ 32" "(lcg_next ^^ a) s = (lcg_next ^^ b) s" by blast
      then have "2 ^ 32 dvd b - a" using key [OF ab(1,3)] lcg_iter_fix by blast
      moreover have "0 < b - a" "b - a < 2 ^ 32" using ab by simp_all
      ultimately show False by (simp add: nat_dvd_not_less)
    qed
  qed
  have "card ((\<lambda>k. (lcg_next ^^ k) s) ` {..<2 ^ 32}) = card (UNIV :: u32 set)"
    using card_image [OF inj] by (simp add: card_word)
  then show ?thesis by (intro card_subset_eq) simp_all
qed

lemma randomUniform_state_step:
  "seed < 0 \<Longrightarrow> snd (randomUniform minValue maxValue seed st) = lcg_next st"
  by (simp add: randomUniform_def Let_def)

text \<open>
  C38 (functional). The generator of \<open>randomUniform\<close> has the period \<open>2^32\<close> its
  documentation states: calls without a seed return to a state after \<open>n\<close>
  calls exactly when \<open>2^32\<close> divides \<open>n\<close>, and one period visits every 32-bit
  state exactly once, from any starting state.
\<close>

theorem randomUniform_full_period:
  "(((\<lambda>st. snd (randomUniform minValue maxValue (-1) st)) ^^ n) s = s \<longleftrightarrow> 2 ^ 32 dvd n) \<and>
   (\<lambda>k. ((\<lambda>st. snd (randomUniform minValue maxValue (-1) st)) ^^ k) s) ` {..<2 ^ 32} = UNIV"
proof -
  have "(\<lambda>st. snd (randomUniform minValue maxValue (-1) st)) = lcg_next"
    by (rule ext) (simp add: randomUniform_state_step)
  then show ?thesis using lcg_iter_fix [of n s] lcg_orbit [of s] by simp
qed

end
