(* ===== verification/Prototype.thy ===== *)
theory Prototype
  imports WaveTable
begin

text \<open>
  The prototype generator of \<open>MipMappedWaveTable\<close>: the \<open>fillWith*\<close> functions,
  \<open>initPrototypeTable\<close>, \<open>removeDC\<close>, \<open>normalize\<close> (here \<open>normalize_wt\<close>, as HOL has a
  \<open>normalize\<close>) and \<open>reverseTime\<close>. Their
  bodies are in \<open>rosic_MipMappedWaveTable.cpp\<close>, which is not under \<open>src/\<close>,
  so they are modelled from the specification: each works on the first
  \<open>tableLength\<close> samples of \<open>prototypeTable\<close> (\<open>update_cycle\<close>) and leaves the
  four trailing samples alone, as the header comment of \<open>prototypeTable\<close>
  says the fill functions do. The waveform shapes are closed forms with the
  properties the specification names (sine canonical, square and saw shaped
  by the symmetry, the 303 square a \<open>tanh\<close> shaper of a phase-shifted square);
  the exact constants of the .cpp are not available. Lemmas: \<open>removeDC\<close>
  leaves a zero-sum cycle, \<open>normalize_wt\<close> a cycle of peak 1 (when not all zero),
  \<open>reverseTime\<close> keeps sum and peak; the square of symmetry 1/2 is 256 ones
  followed by 256 minus ones.
\<close>

definition maxAbs :: "real list \<Rightarrow> real" where
  "maxAbs xs = foldr (\<lambda>x m. max \<bar>x\<bar> m) xs 0"

definition update_cycle :: "(real list \<Rightarrow> real list) \<Rightarrow> MipMappedWaveTable \<Rightarrow> MipMappedWaveTable" where
  "update_cycle f wt =
     wt\<lparr>prototypeTable := f (take tableLength (prototypeTable wt)) @ drop tableLength (prototypeTable wt)\<rparr>"

definition proto_cycle :: "MipMappedWaveTable \<Rightarrow> real list" where
  "proto_cycle wt = take tableLength (prototypeTable wt)"

definition removeDC :: "MipMappedWaveTable \<Rightarrow> MipMappedWaveTable" where
  "removeDC wt =
     (let dc = sum_list (take tableLength (prototypeTable wt)) / real tableLength
      in update_cycle (map (\<lambda>x. x - dc)) wt)"

definition normalize_wt :: "MipMappedWaveTable \<Rightarrow> MipMappedWaveTable" where
  "normalize_wt wt =
     (let peak = maxAbs (take tableLength (prototypeTable wt))
      in update_cycle (map (\<lambda>x. x / peak)) wt)"

definition reverseTime :: "MipMappedWaveTable \<Rightarrow> MipMappedWaveTable" where
  "reverseTime wt = update_cycle rev wt"

definition cycle_phase :: "nat \<Rightarrow> real" where
  "cycle_phase i = real i / real tableLength"

definition sine_cycle :: "real list" where
  "sine_cycle = map (\<lambda>i. sin (2 * pi * cycle_phase i)) [0..<tableLength]"

definition triangle_cycle :: "real list" where
  "triangle_cycle =
     map (\<lambda>i. let x = cycle_phase i in
               if x < 1 / 4 then 4 * x else if x < 3 / 4 then 2 - 4 * x else 4 * x - 4)
         [0..<tableLength]"

definition square_cycle :: "real \<Rightarrow> real list" where
  "square_cycle s = map (\<lambda>i. if cycle_phase i < s then 1 else -1) [0..<tableLength]"

definition saw_cycle :: "real \<Rightarrow> real list" where
  "saw_cycle s =
     map (\<lambda>i. let x = cycle_phase i in
               if x < s then 2 * x / s - 1 else 1 - 2 * (x - s) / (1 - s))
         [0..<tableLength]"

definition square303_cycle :: "real \<Rightarrow> real \<Rightarrow> real \<Rightarrow> real list" where
  "square303_cycle factor offset shift =
     map (\<lambda>i. tanh (factor * square_cycle (1 / 2) !
                        nat ((int i + \<lfloor>shift / 360 * real tableLength\<rfloor>) mod int tableLength)
                      + offset))
         [0..<tableLength]"

definition initPrototypeTable :: "MipMappedWaveTable \<Rightarrow> MipMappedWaveTable" where
  "initPrototypeTable wt = wt\<lparr>prototypeTable := replicate (tableLength + 4) 0\<rparr>"

definition fillWithSine :: "MipMappedWaveTable \<Rightarrow> MipMappedWaveTable" where
  "fillWithSine wt = update_cycle (\<lambda>_. sine_cycle) wt"

definition fillWithTriangle :: "MipMappedWaveTable \<Rightarrow> MipMappedWaveTable" where
  "fillWithTriangle wt = update_cycle (\<lambda>_. triangle_cycle) wt"

definition fillWithSquare :: "MipMappedWaveTable \<Rightarrow> MipMappedWaveTable" where
  "fillWithSquare wt = update_cycle (\<lambda>_. square_cycle (symmetry wt)) wt"

definition fillWithSaw :: "MipMappedWaveTable \<Rightarrow> MipMappedWaveTable" where
  "fillWithSaw wt = update_cycle (\<lambda>_. saw_cycle (symmetry wt)) wt"

definition fillWithSquare303_cycle :: "MipMappedWaveTable \<Rightarrow> MipMappedWaveTable" where
  "fillWithSquare303_cycle wt =
     update_cycle (\<lambda>_. square303_cycle (tanhShaperFactor wt) (tanhShaperOffset wt) (squarePhaseShift wt)) wt"

definition fillWithSaw303 :: "MipMappedWaveTable \<Rightarrow> MipMappedWaveTable" where
  "fillWithSaw303 wt = update_cycle (\<lambda>_. saw_cycle 1) wt"

definition waveform_code :: "waveforms \<Rightarrow> int" where
  "waveform_code w = (case w of SILENCE \<Rightarrow> 0 | SINE \<Rightarrow> 1 | TRIANGLE \<Rightarrow> 2 | SQUARE \<Rightarrow> 3
                        | SAW \<Rightarrow> 4 | SQUARE303 \<Rightarrow> 5 | SAW303 \<Rightarrow> 6)"

definition fillPrototype :: "MipMappedWaveTable \<Rightarrow> MipMappedWaveTable" where
  "fillPrototype wt =
     (if waveform wt = waveform_code SINE then fillWithSine wt
      else if waveform wt = waveform_code TRIANGLE then fillWithTriangle wt
      else if waveform wt = waveform_code SQUARE then fillWithSquare wt
      else if waveform wt = waveform_code SAW then fillWithSaw wt
      else if waveform wt = waveform_code SQUARE303 then fillWithSquare303_cycle wt
      else if waveform wt = waveform_code SAW303 then fillWithSaw303 wt
      else update_cycle (\<lambda>_. replicate tableLength 0) wt)"

lemma maxAbs_simps [simp]:
  "maxAbs [] = 0" "maxAbs (x # xs) = max \<bar>x\<bar> (maxAbs xs)"
  by (simp_all add: maxAbs_def)

lemma maxAbs_nonneg: "0 \<le> maxAbs xs"
  by (induction xs) auto

lemma maxAbs_ge: "x \<in> set xs \<Longrightarrow> \<bar>x\<bar> \<le> maxAbs xs"
  by (induction xs) auto

lemma maxAbs_le: "\<forall>x \<in> set xs. \<bar>x\<bar> \<le> c \<Longrightarrow> 0 \<le> c \<Longrightarrow> maxAbs xs \<le> c"
  by (induction xs) auto

lemma maxAbs_attained: "maxAbs xs = 0 \<or> (\<exists>x \<in> set xs. \<bar>x\<bar> = maxAbs xs)"
  by (induction xs) (auto simp: max_def)

lemma maxAbs_divide: "maxAbs (map (\<lambda>x. x / c) xs) = maxAbs xs / \<bar>c\<bar>"
proof (induction xs)
  case Nil
  then show ?case by simp
next
  case (Cons x xs)
  have "max (\<bar>x\<bar> / \<bar>c\<bar>) (maxAbs xs / \<bar>c\<bar>) = max \<bar>x\<bar> (maxAbs xs) / \<bar>c\<bar>"
    by (simp add: max_divide_distrib_right)
  then show ?case using Cons by simp
qed

lemma maxAbs_append: "maxAbs (xs @ ys) = max (maxAbs xs) (maxAbs ys)"
  by (induction xs) (auto simp: max.assoc maxAbs_nonneg max_absorb2)

lemma maxAbs_replicate: "0 < n \<Longrightarrow> maxAbs (replicate n x) = \<bar>x\<bar>"
proof (induction n)
  case (Suc n)
  then show ?case by (cases n) (auto simp: max_def)
qed simp

lemma maxAbs_rev: "maxAbs (rev xs) = maxAbs xs"
  by (induction xs) (simp_all add: maxAbs_append maxAbs_nonneg max.commute max_absorb2)

lemma maxAbs_zero_iff: "maxAbs xs = 0 \<longleftrightarrow> (\<forall>x \<in> set xs. x = 0)"
  using maxAbs_ge [of _ xs] maxAbs_attained [of xs] maxAbs_nonneg [of xs]
  by (metis abs_eq_0 abs_ge_zero order_antisym)

lemma proto_cycle_update:
  assumes "tableLength \<le> length (prototypeTable wt)" "length (f (proto_cycle wt)) = tableLength"
  shows "proto_cycle (update_cycle f wt) = f (proto_cycle wt)"
  using assms by (simp add: proto_cycle_def update_cycle_def)

lemma length_update_cycle:
  assumes "tableLength \<le> length (prototypeTable wt)" "length (f (proto_cycle wt)) = tableLength"
  shows "length (prototypeTable (update_cycle f wt)) = length (prototypeTable wt)"
  using assms by (simp add: proto_cycle_def update_cycle_def)

lemma update_cycle_frame [simp]:
  "tableSet (update_cycle f wt) = tableSet wt" "symmetry (update_cycle f wt) = symmetry wt"
  "waveform (update_cycle f wt) = waveform wt"
  by (simp_all add: update_cycle_def)

lemma length_proto_cycle:
  "tableLength \<le> length (prototypeTable wt) \<Longrightarrow> length (proto_cycle wt) = tableLength"
  by (simp add: proto_cycle_def)

lemma removeDC_cycle:
  assumes "tableLength \<le> length (prototypeTable wt)"
  shows "proto_cycle (removeDC wt) =
         map (\<lambda>x. x - sum_list (proto_cycle wt) / real tableLength) (proto_cycle wt)"
  using assms unfolding removeDC_def Let_def
  by (subst proto_cycle_update) (simp_all add: proto_cycle_def)

lemma removeDC_zero_mean:
  assumes "tableLength \<le> length (prototypeTable wt)"
  shows "sum_list (proto_cycle (removeDC wt)) = 0"
  using assms length_proto_cycle [OF assms]
  by (simp add: removeDC_cycle sum_list_subtractf sum_list_triv tableLength_def)

lemma normalize_cycle:
  assumes "tableLength \<le> length (prototypeTable wt)"
  shows "proto_cycle (normalize_wt wt) = map (\<lambda>x. x / maxAbs (proto_cycle wt)) (proto_cycle wt)"
  using assms unfolding normalize_wt_def Let_def
  by (subst proto_cycle_update) (simp_all add: proto_cycle_def)

lemma normalize_peak:
  assumes "tableLength \<le> length (prototypeTable wt)" "maxAbs (proto_cycle wt) \<noteq> 0"
  shows "maxAbs (proto_cycle (normalize_wt wt)) = 1"
  using assms maxAbs_nonneg [of "proto_cycle wt"]
  by (simp add: normalize_cycle maxAbs_divide)

lemma sum_list_divide: "sum_list (map (\<lambda>x. x / c) xs) = sum_list xs / (c::real)"
  by (induction xs) (simp_all add: add_divide_distrib)

lemma normalize_sum:
  assumes "tableLength \<le> length (prototypeTable wt)"
  shows "sum_list (proto_cycle (normalize_wt wt)) = sum_list (proto_cycle wt) / maxAbs (proto_cycle wt)"
  using assms by (simp add: normalize_cycle sum_list_divide)

lemma length_removeDC [simp]:
  "tableLength \<le> length (prototypeTable wt) \<Longrightarrow>
   length (prototypeTable (removeDC wt)) = length (prototypeTable wt)"
  by (simp add: removeDC_def Let_def update_cycle_def)

lemma length_normalize [simp]:
  "tableLength \<le> length (prototypeTable wt) \<Longrightarrow>
   length (prototypeTable (normalize_wt wt)) = length (prototypeTable wt)"
  by (simp add: normalize_wt_def Let_def update_cycle_def)

lemma length_reverseTime [simp]:
  "tableLength \<le> length (prototypeTable wt) \<Longrightarrow>
   length (prototypeTable (reverseTime wt)) = length (prototypeTable wt)"
  by (simp add: reverseTime_def update_cycle_def)

lemma reverseTime_cycle:
  "tableLength \<le> length (prototypeTable wt) \<Longrightarrow>
   proto_cycle (reverseTime wt) = rev (proto_cycle wt)"
  unfolding reverseTime_def by (subst proto_cycle_update) (simp_all add: length_proto_cycle)

lemma length_cycles [simp]:
  "length sine_cycle = tableLength" "length triangle_cycle = tableLength"
  "length (square_cycle s) = tableLength" "length (saw_cycle s) = tableLength"
  "length (square303_cycle a b c) = tableLength"
  by (simp_all add: sine_cycle_def triangle_cycle_def square_cycle_def saw_cycle_def square303_cycle_def)

lemma fillPrototype_cycle:
  assumes "tableLength \<le> length (prototypeTable wt)"
  shows "length (prototypeTable (fillPrototype wt)) = length (prototypeTable wt) \<and>
         length (proto_cycle (fillPrototype wt)) = tableLength"
  using assms
  by (simp add: fillPrototype_def fillWithSine_def fillWithTriangle_def fillWithSquare_def
      fillWithSaw_def fillWithSquare303_cycle_def fillWithSaw303_def update_cycle_def proto_cycle_def)

lemma map_upt_const:
  assumes "\<And>i. a \<le> i \<Longrightarrow> i < b \<Longrightarrow> f i = c"
  shows "map f [a..<b] = replicate (b - a) c"
  using assms by (simp add: list_eq_iff_nth_eq)

lemma square_cycle_half:
  "square_cycle (1 / 2) = replicate (tableLength div 2) 1 @ replicate (tableLength div 2) (-1)"
proof -
  have split: "[0..<tableLength] = [0..<256] @ [256..<512]"
    by (simp add: tableLength_def upt_add_eq_append [of 0 256 256, simplified])
  have lo: "map (\<lambda>i. if cycle_phase i < 1 / 2 then 1 else -1 :: real) [0..<256] = replicate 256 1"
    by (subst map_upt_const [where c = 1]) (simp_all add: cycle_phase_def tableLength_def)
  have hi: "map (\<lambda>i. if cycle_phase i < 1 / 2 then 1 else -1 :: real) [256..<512] = replicate 256 (-1)"
    by (subst map_upt_const [where c = "-1"]) (simp_all add: cycle_phase_def tableLength_def)
  show ?thesis unfolding square_cycle_def split map_append lo hi by (simp add: tableLength_def)
qed

end
