(* ===== verification/Spectral.thy ===== *)
theory Spectral
  imports Prelude
begin

text \<open>
  The spectral transform the band-limiter consumes. The code uses an FFT
  (\<open>FourierTransformerRadix2\<close>, not under \<open>src/\<close>); the specification treats it
  as an opaque forward/inverse complex transform over a power-of-two length,
  so it is modelled by the discrete Fourier transform it computes: \<open>dft\<close> with
  kernel \<open>cis (-2 pi k n / N)\<close> and \<open>idft\<close> with the conjugate kernel and the
  factor \<open>1/N\<close>. The lemmas are the inversion theorems \<open>dft (idft Y) = Y\<close>
  and \<open>idft (dft x) = x\<close>
  (through the sum of the \<open>N\<close>-th roots of unity, \<open>root_sum_eq\<close>), the spectrum
  of the real part of an inverse transform, and the conjugate symmetry of the
  spectrum of a real signal.
\<close>

definition root_sum :: "nat \<Rightarrow> int \<Rightarrow> complex" where
  "root_sum N d = (\<Sum>n<N. cis (2 * pi * real_of_int d * real n / real N))"

definition dft :: "complex list \<Rightarrow> complex list" where
  "dft xs = map (\<lambda>k. \<Sum>n<length xs. xs ! n * cis (- 2 * pi * real k * real n / real (length xs)))
              [0..<length xs]"

definition idft :: "complex list \<Rightarrow> complex list" where
  "idft ys = map (\<lambda>n. (\<Sum>k<length ys. ys ! k * cis (2 * pi * real k * real n / real (length ys)))
                      / of_nat (length ys))
              [0..<length ys]"


lemma cis_int_multiple: "cis (2 * pi * real_of_int m) = 1"
  by (simp add: complex_eq_iff)

lemma root_sum_eq:
  assumes "0 < N"
  shows "root_sum N d = (if int N dvd d then of_nat N else 0)"
proof (cases "int N dvd d")
  case True
  then obtain m where d: "d = int N * m" by (auto elim: dvdE)
  have "cis (2 * pi * real_of_int d * real n / real N) = 1" for n
  proof -
    have "2 * pi * real_of_int d * real n / real N = 2 * pi * real_of_int (m * int n)"
      using assms by (simp add: d field_simps)
    then show ?thesis by (simp only: cis_int_multiple)
  qed
  then show ?thesis using True by (simp add: root_sum_def)
next
  case False
  define w where "w = cis (2 * pi * real_of_int d / real N)"
  have pow: "w ^ n = cis (2 * pi * real_of_int d * real n / real N)" for n
    by (simp add: w_def DeMoivre field_simps)
  have wN: "w ^ N = 1"
  proof -
    have "2 * pi * real_of_int d * real N / real N = 2 * pi * real_of_int d" using assms by simp
    then show ?thesis by (simp only: pow cis_int_multiple)
  qed
  have w1: "w \<noteq> 1"
  proof
    assume "w = 1"
    then have "cos (2 * pi * real_of_int d / real N) = 1" by (simp add: w_def complex_eq_iff)
    then obtain m :: int where m: "2 * pi * real_of_int d / real N = real_of_int m * (2 * pi)"
      by (auto simp: cos_one_2pi_int)
    then have "real_of_int d = real_of_int m * real N" using assms by (simp add: field_simps)
    then have "d = m * int N" by (metis of_int_eq_iff of_int_mult of_int_of_nat_eq)
    then show False using False by simp
  qed
  have "root_sum N d = (\<Sum>n<N. w ^ n)" by (simp add: root_sum_def pow)
  also have "\<dots> = 0" using wN w1 by (simp add: geometric_sum)
  finally show ?thesis using False by simp
qed

lemma dvd_small_diff_iff:
  assumes "j < N" "k < N"
  shows "int N dvd (int j - int k) \<longleftrightarrow> j = k"
proof
  assume d: "int N dvd (int j - int k)"
  show "j = k"
  proof (rule ccontr)
    assume "j \<noteq> k"
    then have "int j - int k \<noteq> 0" by simp
    from dvd_imp_le_int [OF this d] assms show False by simp
  qed
qed simp

lemma dvd_small_sum_iff:
  assumes "j < N" "k < N"
  shows "int N dvd (- (int j + int k)) \<longleftrightarrow> j = (N - k) mod N"
proof
  assume d: "int N dvd (- (int j + int k))"
  then have d': "int N dvd (int j + int k)" by (simp only: dvd_minus_iff)
  show "j = (N - k) mod N"
  proof (cases "k = 0")
    case True
    then have "int N dvd int j" using d' by simp
    then have "N dvd j" by simp
    then have "j = 0" using assms(1) by (metis dvd_imp_le leD neq0_conv)
    then show ?thesis using True by simp
  next
    case False
    have "int j + int k - int N \<noteq> 0 \<Longrightarrow> int N dvd (int j + int k - int N) \<Longrightarrow> False"
    proof -
      assume nz: "int j + int k - int N \<noteq> 0" and dd: "int N dvd (int j + int k - int N)"
      from dvd_imp_le_int [OF nz dd] assms False show False by simp
    qed
    then have "int j + int k - int N = 0" using d' by (metis dvd_diff dvd_refl)
    then show ?thesis using assms False by simp
  qed
next
  assume "j = (N - k) mod N"
  then show "int N dvd (- (int j + int k))" using assms
    by (cases "k = 0") (auto simp: of_nat_diff)
qed

lemma cis_phase_diff:
  "cis (2 * pi * real j * real n / real N) * cis (- 2 * pi * real k * real n / real N) =
   cis (2 * pi * real_of_int (int j - int k) * real n / real N)"
proof -
  have "2 * pi * real j * real n / real N + - 2 * pi * real k * real n / real N =
        2 * pi * real_of_int (int j - int k) * real n / real N"
    by (simp add: divide_inverse algebra_simps)
  then show ?thesis by (simp only: cis_mult)
qed

lemma sum_root_pick:
  assumes "k < N"
  shows "(\<Sum>j<N. c j * root_sum N (int j - int k)) = of_nat N * c k"
proof -
  have "(\<Sum>j<N. c j * root_sum N (int j - int k)) = (\<Sum>j<N. if j = k then c j * of_nat N else 0)"
    using assms by (intro sum.cong) (auto simp: root_sum_eq dvd_small_diff_iff)
  also have "\<dots> = of_nat N * c k" using assms by (simp add: sum.delta)
  finally show ?thesis .
qed

lemma idft_nth:
  "n < length ys \<Longrightarrow>
   idft ys ! n = (\<Sum>k<length ys. ys ! k * cis (2 * pi * real k * real n / real (length ys))) / of_nat (length ys)"
  by (simp add: idft_def)

lemma dft_nth:
  "k < length xs \<Longrightarrow>
   dft xs ! k = (\<Sum>n<length xs. xs ! n * cis (- 2 * pi * real k * real n / real (length xs)))"
  by (simp add: dft_def)

lemma length_idft [simp]: "length (idft ys) = length ys"
  by (simp add: idft_def)

lemma length_dft [simp]: "length (dft xs) = length xs"
  by (simp add: dft_def)

lemma dft_idft:
  assumes "k < length ys"
  shows "dft (idft ys) ! k = ys ! k"
proof -
  define N where "N = length ys"
  have N: "0 < N" "k < N" using assms by (auto simp add: N_def)
  have "dft (idft ys) ! k =
        (\<Sum>n<N. (\<Sum>j<N. ys ! j * cis (2 * pi * real j * real n / real N)) / of_nat N
                 * cis (- 2 * pi * real k * real n / real N))"
    using N by (simp add: dft_nth idft_nth N_def)
  also have "\<dots> = (\<Sum>n<N. \<Sum>j<N. ys ! j * (cis (2 * pi * real j * real n / real N)
                 * cis (- 2 * pi * real k * real n / real N))) / of_nat N"
    by (simp add: sum_divide_distrib sum_distrib_right mult.assoc)
  also have "\<dots> = (\<Sum>j<N. \<Sum>n<N. ys ! j * (cis (2 * pi * real j * real n / real N)
                 * cis (- 2 * pi * real k * real n / real N))) / of_nat N"
    by (subst sum.swap) (rule refl)
  also have "\<dots> = (\<Sum>j<N. ys ! j * root_sum N (int j - int k)) / of_nat N"
    by (simp only: cis_phase_diff root_sum_def sum_distrib_left)
  also have "\<dots> = ys ! k" using N by (simp add: sum_root_pick)
  finally show ?thesis .
qed

lemma cis_phase_sum:
  "cis (- 2 * pi * real j * real n / real N) * cis (- 2 * pi * real k * real n / real N) =
   cis (2 * pi * real_of_int (- (int j + int k)) * real n / real N)"
proof -
  have "- 2 * pi * real j * real n / real N + - 2 * pi * real k * real n / real N =
        2 * pi * real_of_int (- (int j + int k)) * real n / real N"
    by (simp add: divide_inverse algebra_simps)
  then show ?thesis by (simp only: cis_mult)
qed

lemma sum_root_pick_conj:
  assumes "k < N"
  shows "(\<Sum>j<N. c j * root_sum N (- (int j + int k))) = of_nat N * c ((N - k) mod N)"
proof -
  have lt: "(N - k) mod N < N" using assms by simp
  have "(\<Sum>j<N. c j * root_sum N (- (int j + int k))) =
        (\<Sum>j<N. if j = (N - k) mod N then c j * of_nat N else 0)"
  proof (rule sum.cong)
    fix j assume "j \<in> {..<N}"
    then have j: "j < N" by simp
    have pos: "0 < N" using assms by simp
    show "c j * root_sum N (- (int j + int k)) = (if j = (N - k) mod N then c j * of_nat N else 0)"
      by (simp only: root_sum_eq [OF pos] dvd_small_sum_iff [OF j assms]) simp
  qed simp
  also have "\<dots> = of_nat N * c ((N - k) mod N)" using lt by (simp add: sum.delta)
  finally show ?thesis .
qed

lemma cnj_idft_nth:
  "n < length ys \<Longrightarrow>
   cnj (idft ys ! n) =
   (\<Sum>j<length ys. cnj (ys ! j) * cis (- 2 * pi * real j * real n / real (length ys))) / of_nat (length ys)"
  by (simp add: idft_nth cis_cnj)

lemma of_real_Re_eq: "complex_of_real (Re z) = (z + cnj z) / 2"
  by (simp add: complex_add_cnj)

lemma dft_real_part:
  assumes "k < length ys"
  shows "dft (map (\<lambda>z. complex_of_real (Re z)) (idft ys)) ! k =
         (ys ! k + cnj (ys ! ((length ys - k) mod length ys))) / 2"
proof -
  define N where "N = length ys"
  define e where "e n = cis (- 2 * pi * real k * real n / real N)" for n
  have N: "0 < N" "k < N" using assms by (auto simp add: N_def)
  have "dft (map (\<lambda>z. complex_of_real (Re z)) (idft ys)) ! k =
        (\<Sum>n<N. (idft ys ! n + cnj (idft ys ! n)) / 2 * e n)"
    using N by (simp add: dft_nth N_def e_def of_real_Re_eq)
  also have "\<dots> = ((\<Sum>n<N. idft ys ! n * e n) + (\<Sum>n<N. cnj (idft ys ! n) * e n)) / 2"
  proof -
    have "(idft ys ! n + cnj (idft ys ! n)) / 2 * e n = (idft ys ! n * e n + cnj (idft ys ! n) * e n) / 2"
      for n by (simp add: distrib_right)
    then show ?thesis by (simp only: sum_divide_distrib [symmetric] sum.distrib)
  qed
  also have "(\<Sum>n<N. idft ys ! n * e n) = ys ! k"
    using dft_idft [OF assms] N by (simp add: dft_nth N_def e_def)
  also have "(\<Sum>n<N. cnj (idft ys ! n) * e n) =
             (\<Sum>n<N. \<Sum>j<N. cnj (ys ! j) * (cis (- 2 * pi * real j * real n / real N) * e n)) / of_nat N"
    by (simp add: cnj_idft_nth N_def sum_divide_distrib sum_distrib_right mult.assoc)
  also have "\<dots> = (\<Sum>j<N. \<Sum>n<N. cnj (ys ! j) * (cis (- 2 * pi * real j * real n / real N) * e n)) / of_nat N"
    by (subst sum.swap) (rule refl)
  also have "\<dots> = (\<Sum>j<N. cnj (ys ! j) * root_sum N (- (int j + int k))) / of_nat N"
    by (simp only: e_def cis_phase_sum root_sum_def sum_distrib_left)
  also have "\<dots> = cnj (ys ! ((N - k) mod N))"
    using N by (simp only: sum_root_pick_conj [OF N(2), where c = "\<lambda>j. cnj (ys ! j)"]) simp
  finally show ?thesis by (simp add: N_def)
qed


lemma cis_shift_int: "cis (a + 2 * pi * real_of_int m) = cis a"
  by (simp only: cis_mult [symmetric] cis_int_multiple mult_1_right)

lemma dft_real_conj:
  assumes "k < length xs"
  shows "dft (map complex_of_real xs) ! ((length xs - k) mod length xs) =
         cnj (dft (map complex_of_real xs) ! k)"
proof -
  define N where "N = length xs"
  have N: "0 < N" "k < N" using assms by (auto simp: N_def)
  have c: "cis (- 2 * pi * real ((N - k) mod N) * real n / real N) =
           cis (- (- 2 * pi * real k * real n / real N))" for n
  proof (cases "k = 0")
    case True
    then show ?thesis by simp
  next
    case False
    then have "(N - k) mod N = N - k" using N by simp
    moreover have "- 2 * pi * real (N - k) * real n / real N =
                   - (- 2 * pi * real k * real n / real N) + 2 * pi * real_of_int (- int n)"
      using N False by (simp add: of_nat_diff field_simps)
    ultimately show ?thesis by (simp only: cis_shift_int)
  qed
  have "dft (map complex_of_real xs) ! ((N - k) mod N) =
        (\<Sum>n<N. complex_of_real (xs ! n) * cis (- 2 * pi * real ((N - k) mod N) * real n / real N))"
    using N by (simp add: dft_nth N_def)
  also have "\<dots> = (\<Sum>n<N. complex_of_real (xs ! n) * cis (- (- 2 * pi * real k * real n / real N)))"
    by (simp only: c)
  also have "\<dots> = cnj (\<Sum>n<N. complex_of_real (xs ! n) * cis (- 2 * pi * real k * real n / real N))"
    by (simp add: cis_cnj)
  also have "\<dots> = cnj (dft (map complex_of_real xs) ! k)"
    using N by (simp add: dft_nth N_def)
  finally show ?thesis by (simp add: N_def)
qed

lemma cis_phase_diff_swap:
  "cis (- 2 * pi * real k * real m / real N) * cis (2 * pi * real k * real n / real N) =
   cis (2 * pi * real_of_int (- (int m - int n)) * real k / real N)"
proof -
  have "- 2 * pi * real k * real m / real N + 2 * pi * real k * real n / real N =
        2 * pi * real_of_int (- (int m - int n)) * real k / real N"
    by (simp add: divide_inverse algebra_simps)
  then show ?thesis by (simp only: cis_mult)
qed

lemma root_sum_uminus: "0 < N \<Longrightarrow> root_sum N (- d) = root_sum N d"
  by (simp add: root_sum_eq)

lemma idft_dft:
  assumes "n < length xs"
  shows "idft (dft xs) ! n = xs ! n"
proof -
  define N where "N = length xs"
  have N: "0 < N" "n < N" using assms by (auto simp add: N_def)
  have "idft (dft xs) ! n =
        (\<Sum>k<N. (\<Sum>m<N. xs ! m * cis (- 2 * pi * real k * real m / real N))
                 * cis (2 * pi * real k * real n / real N)) / of_nat N"
    using N by (simp add: dft_nth idft_nth N_def)
  also have "\<dots> = (\<Sum>k<N. \<Sum>m<N. xs ! m * (cis (- 2 * pi * real k * real m / real N)
                 * cis (2 * pi * real k * real n / real N))) / of_nat N"
    by (simp add: sum_distrib_right mult.assoc)
  also have "\<dots> = (\<Sum>m<N. \<Sum>k<N. xs ! m * (cis (- 2 * pi * real k * real m / real N)
                 * cis (2 * pi * real k * real n / real N))) / of_nat N"
    by (subst sum.swap) (rule refl)
  also have "\<dots> = (\<Sum>m<N. xs ! m * root_sum N (- (int m - int n))) / of_nat N"
    by (simp only: cis_phase_diff_swap root_sum_def sum_distrib_left)
  also have "\<dots> = (\<Sum>m<N. xs ! m * root_sum N (int m - int n)) / of_nat N"
    by (simp only: root_sum_uminus [OF N(1)])
  also have "\<dots> = xs ! n" using N by (simp add: sum_root_pick)
  finally show ?thesis .
qed


lemma idft_dft_list: "idft (dft xs) = xs"
  by (intro nth_equalityI) (simp_all add: idft_dft)

lemma idft_zero: "idft (replicate n 0) = replicate n 0"
  by (intro nth_equalityI) (simp_all add: idft_nth)

end
