(* ===== verification/MipMap.thy ===== *)
theory MipMap
  imports Prototype Spectral GlobalFunctions
begin

text \<open>
  The band-limiter and the control-rate operations of \<open>MipMappedWaveTable\<close>.
  \<open>generateMipMap\<close> (in the .cpp, modelled from the specification) transforms
  the prototype cycle, zeroes every bin whose frequency \<open>min j (N - j)\<close> is at
  or above the level's cutoff Nyquist/2^k (\<open>bin_removed\<close>), transforms back,
  keeps the real part and appends the first four samples as guard samples.
  \<open>regenerate\<close> is the pipeline the specification names (remove DC,
  normalise, band-limit); \<open>renderWaveform\<close>, \<open>setWaveform\<close>, \<open>setSymmetry\<close>
  and the import \<open>setWaveform(float*, int)\<close> (here \<open>importWaveform\<close>) run it.
  The shaper setters and getters are the inline bodies of
  \<open>rosic_MipMappedWaveTable.h\<close> lines 75-101; the \<open>fillWithSquare303\<close> they call
  fills the 303 square and regenerates, as the specification says each of
  them triggers regeneration. \<open>wt_op\<close>/\<open>wt_step\<close> collect the operations.
  Lemmas: the spectrum of every level (a refinement of the specification's
  band-limiting), the ordering of the levels, the preservation of
  \<open>wf_wavetable\<close>, zero mean and unit peak after regeneration, and the frames
  of the shaper setters. \<open>normalize_wt\<close> divides by the peak in HOL, where
  \<open>x / 0 = 0\<close>: an all-zero cycle stays zero, while a C division by a zero peak
  gives NaN; no lemma here depends on that case beyond keeping it zero.
\<close>

definition bin_removed :: "nat \<Rightarrow> nat \<Rightarrow> nat \<Rightarrow> bool" where
  "bin_removed N k j \<longleftrightarrow> N \<le> 2 * 2 ^ k * min j (N - j)"

definition bandlimit :: "nat \<Rightarrow> complex list \<Rightarrow> complex list" where
  "bandlimit k ys = map (\<lambda>j. if bin_removed (length ys) k j then 0 else ys ! j) [0..<length ys]"

definition mipLevel :: "nat \<Rightarrow> real list \<Rightarrow> real list" where
  "mipLevel k proto =
     (let spectrum = dft (map complex_of_real (take tableLength proto));
          r = map Re (idft (bandlimit k spectrum))
      in r @ take 4 r)"

definition generateMipMap :: "MipMappedWaveTable \<Rightarrow> MipMappedWaveTable" where
  "generateMipMap wt = wt\<lparr>tableSet := map (\<lambda>k. mipLevel k (prototypeTable wt)) [0..<numTables]\<rparr>"

definition regenerate :: "MipMappedWaveTable \<Rightarrow> MipMappedWaveTable" where
  "regenerate wt = generateMipMap (normalize_wt (removeDC wt))"

definition renderWaveform :: "MipMappedWaveTable \<Rightarrow> MipMappedWaveTable" where
  "renderWaveform wt = regenerate (fillPrototype wt)"

definition setWaveform :: "int \<Rightarrow> MipMappedWaveTable \<Rightarrow> MipMappedWaveTable" where
  "setWaveform newWaveform wt = renderWaveform (wt\<lparr>waveform := newWaveform\<rparr>)"

definition importWaveform :: "real list \<Rightarrow> int \<Rightarrow> MipMappedWaveTable \<Rightarrow> MipMappedWaveTable option" where
  "importWaveform newWaveform lengthInSamples wt =
     (if lengthInSamples = int tableLength \<and> tableLength \<le> length newWaveform
      then Some (regenerate (update_cycle (\<lambda>_. take tableLength newWaveform) wt))
      else None)"

definition setSymmetry :: "real \<Rightarrow> MipMappedWaveTable \<Rightarrow> MipMappedWaveTable" where
  "setSymmetry newSymmetry wt = renderWaveform (wt\<lparr>symmetry := newSymmetry\<rparr>)"

definition fillWithSquare303 :: "MipMappedWaveTable \<Rightarrow> MipMappedWaveTable" where
  "fillWithSquare303 wt = regenerate (fillWithSquare303_cycle wt)"

definition setTanhShaperDriveFor303Square :: "real \<Rightarrow> MipMappedWaveTable \<Rightarrow> MipMappedWaveTable" where
  "setTanhShaperDriveFor303Square newDrive wt = fillWithSquare303 (wt\<lparr>tanhShaperFactor := dB2amp newDrive\<rparr>)"

definition setTanhShaperOffsetFor303Square :: "real \<Rightarrow> MipMappedWaveTable \<Rightarrow> MipMappedWaveTable" where
  "setTanhShaperOffsetFor303Square newOffset wt = fillWithSquare303 (wt\<lparr>tanhShaperOffset := newOffset\<rparr>)"

definition set303SquarePhaseShift :: "real \<Rightarrow> MipMappedWaveTable \<Rightarrow> MipMappedWaveTable" where
  "set303SquarePhaseShift newShift wt = fillWithSquare303 (wt\<lparr>squarePhaseShift := newShift\<rparr>)"

definition getTanhShaperDriveFor303Square :: "MipMappedWaveTable \<Rightarrow> real" where
  "getTanhShaperDriveFor303Square wt = amp2dB (tanhShaperFactor wt)"

definition getTanhShaperOffsetFor303Square :: "MipMappedWaveTable \<Rightarrow> real" where
  "getTanhShaperOffsetFor303Square wt = tanhShaperOffset wt"

definition get303SquarePhaseShift :: "MipMappedWaveTable \<Rightarrow> real" where
  "get303SquarePhaseShift wt = squarePhaseShift wt"

datatype wt_op =
    SetWaveform int
  | SetSymmetry real
  | SetTanhShaperDrive real
  | SetTanhShaperOffset real
  | Set303SquarePhaseShift real
  | ImportWaveform "real list" int

fun wt_step :: "wt_op \<Rightarrow> MipMappedWaveTable \<Rightarrow> MipMappedWaveTable option" where
  "wt_step (SetWaveform w) wt = Some (setWaveform w wt)"
| "wt_step (SetSymmetry s) wt = Some (setSymmetry s wt)"
| "wt_step (SetTanhShaperDrive d) wt = Some (setTanhShaperDriveFor303Square d wt)"
| "wt_step (SetTanhShaperOffset x) wt = Some (setTanhShaperOffsetFor303Square x wt)"
| "wt_step (Set303SquarePhaseShift x) wt = Some (set303SquarePhaseShift x wt)"
| "wt_step (ImportWaveform buf n) wt = importWaveform buf n wt"

lemma length_bandlimit [simp]: "length (bandlimit k ys) = length ys"
  by (simp add: bandlimit_def)

lemma bandlimit_nth:
  "j < length ys \<Longrightarrow> bandlimit k ys ! j = (if bin_removed (length ys) k j then 0 else ys ! j)"
  by (simp add: bandlimit_def)

lemma bin_removed_mirror:
  assumes "j < N"
  shows "bin_removed N k ((N - j) mod N) = bin_removed N k j"
proof (cases "j = 0")
  case True
  then show ?thesis by simp
next
  case False
  then have "(N - j) mod N = N - j" using assms by simp
  moreover have "min (N - j) (N - (N - j)) = min j (N - j)" using assms by simp
  ultimately show ?thesis by (simp add: bin_removed_def)
qed

lemma bin_removed_mono: "bin_removed N k j \<Longrightarrow> k \<le> k' \<Longrightarrow> bin_removed N k' j"
proof -
  assume r: "bin_removed N k j" and kk: "k \<le> k'"
  have "(2::nat) ^ k \<le> 2 ^ k'" using kk by (rule power_increasing) simp
  then have "2 * 2 ^ k * min j (N - j) \<le> 2 * 2 ^ k' * min j (N - j)" by simp
  then show ?thesis using r unfolding bin_removed_def by linarith
qed

lemma bin_removed_dc: "0 < N \<Longrightarrow> \<not> bin_removed N k 0"
  by (simp add: bin_removed_def)

lemma length_mipLevel:
  "tableLength \<le> length proto \<Longrightarrow> length (mipLevel k proto) = tableLength + 4"
  by (simp add: mipLevel_def Let_def tableLength_def)

lemma take_mipLevel:
  assumes "tableLength \<le> length proto"
  shows "take tableLength (mipLevel k proto) =
         map Re (idft (bandlimit k (dft (map complex_of_real (take tableLength proto)))))"
  using assms by (simp add: mipLevel_def Let_def)

lemma wf_row_mipLevel:
  "tableLength \<le> length proto \<Longrightarrow> wf_row (mipLevel k proto)"
  by (simp add: wf_row_def length_mipLevel) (simp add: mipLevel_def Let_def tableLength_def)

lemma mipLevel_spectrum:
  assumes "tableLength \<le> length proto" "j < tableLength"
  shows "dft (map complex_of_real (take tableLength (mipLevel k proto))) ! j =
         (if bin_removed tableLength k j then 0
          else dft (map complex_of_real (take tableLength proto)) ! j)"
proof -
  define x where "x = take tableLength proto"
  define Y where "Y = dft (map complex_of_real x)"
  have lx: "length x = tableLength" using assms(1) by (simp add: x_def)
  have lY: "length Y = tableLength" by (simp add: Y_def lx)
  have j': "(tableLength - j) mod tableLength < tableLength" using assms(2) by simp
  have "map complex_of_real (take tableLength (mipLevel k proto)) =
        map (\<lambda>z. complex_of_real (Re z)) (idft (bandlimit k Y))"
    using assms(1) by (simp add: take_mipLevel Y_def x_def)
  then have "dft (map complex_of_real (take tableLength (mipLevel k proto))) ! j =
             (bandlimit k Y ! j + cnj (bandlimit k Y ! ((tableLength - j) mod tableLength))) / 2"
    using dft_real_part [of j "bandlimit k Y"] assms(2) lY by simp
  also have "\<dots> = (if bin_removed tableLength k j then 0 else (Y ! j + cnj (Y ! ((tableLength - j) mod tableLength))) / 2)"
    using assms(2) j' lY by (simp add: bandlimit_nth bin_removed_mirror)
  also have "Y ! ((tableLength - j) mod tableLength) = cnj (Y ! j)"
    using dft_real_conj [of j x] assms(2) lx by (simp add: Y_def)
  finally show ?thesis by (simp add: Y_def x_def)
qed

lemma dft_dc:
  assumes "xs \<noteq> []"
  shows "dft (map complex_of_real xs) ! 0 = complex_of_real (sum_list xs)"
  using assms by (simp add: dft_nth sum_list_sum_nth atLeast0LessThan)

lemma mipLevel_sum:
  assumes "tableLength \<le> length proto"
  shows "sum_list (take tableLength (mipLevel k proto)) = sum_list (take tableLength proto)"
proof -
  have n: "take tableLength proto \<noteq> []" "take tableLength (mipLevel k proto) \<noteq> []"
    using assms length_mipLevel [OF assms, of k] by (auto simp: tableLength_def)
  have "dft (map complex_of_real (take tableLength (mipLevel k proto))) ! 0 =
        dft (map complex_of_real (take tableLength proto)) ! 0"
    using mipLevel_spectrum [OF assms, of 0 k] bin_removed_dc [of tableLength k]
    by (simp add: tableLength_def)
  then have "complex_of_real (sum_list (take tableLength (mipLevel k proto))) =
        complex_of_real (sum_list (take tableLength proto))"
    by (simp only: dft_dc [OF n(1)] dft_dc [OF n(2)])
  then show ?thesis by simp
qed

lemma generateMipMap_frame [simp]:
  "prototypeTable (generateMipMap wt) = prototypeTable wt"
  "waveform (generateMipMap wt) = waveform wt" "symmetry (generateMipMap wt) = symmetry wt"
  by (simp_all add: generateMipMap_def)

lemma proto_cycle_generateMipMap [simp]:
  "proto_cycle (generateMipMap wt) = proto_cycle wt"
  by (simp add: proto_cycle_def)

lemma generateMipMap_row:
  "k < numTables \<Longrightarrow> tableSet (generateMipMap wt) ! k = mipLevel k (prototypeTable wt)"
  by (simp add: generateMipMap_def)

lemma generateMipMap_wf:
  assumes "length (prototypeTable wt) = tableLength + 4"
  shows "wf_wavetable (generateMipMap wt)"
  using assms by (simp add: wf_wavetable_def generateMipMap_def list_all_iff wf_row_mipLevel)

lemma length_regenerate_proto:
  "tableLength \<le> length (prototypeTable wt) \<Longrightarrow>
   length (prototypeTable (regenerate wt)) = length (prototypeTable wt)"
  by (simp add: regenerate_def)

lemma regenerate_wf:
  "length (prototypeTable wt) = tableLength + 4 \<Longrightarrow> wf_wavetable (regenerate wt)"
  unfolding regenerate_def by (rule generateMipMap_wf) simp

lemma regenerate_zero_mean:
  assumes "tableLength \<le> length (prototypeTable wt)"
  shows "sum_list (proto_cycle (regenerate wt)) = 0"
proof -
  have "tableLength \<le> length (prototypeTable (removeDC wt))" using assms by simp
  then show ?thesis
    using removeDC_zero_mean [OF assms]
    by (simp add: regenerate_def proto_cycle_def [symmetric] normalize_sum)
qed

lemma regenerate_peak:
  assumes "tableLength \<le> length (prototypeTable wt)" "\<exists>x \<in> set (proto_cycle (removeDC wt)). x \<noteq> 0"
  shows "maxAbs (proto_cycle (regenerate wt)) = 1"
proof -
  have "tableLength \<le> length (prototypeTable (removeDC wt))" using assms(1) by simp
  moreover have "maxAbs (proto_cycle (removeDC wt)) \<noteq> 0" using assms(2) by (simp add: maxAbs_zero_iff)
  ultimately show ?thesis by (simp add: regenerate_def proto_cycle_def [symmetric] normalize_peak)
qed

lemma regenerate_level_mean:
  assumes "tableLength \<le> length (prototypeTable wt)" "k < numTables"
  shows "sum_list (take tableLength (tableSet (regenerate wt) ! k)) = 0"
proof -
  have l: "tableLength \<le> length (prototypeTable (normalize_wt (removeDC wt)))" using assms(1) by simp
  have "sum_list (take tableLength (tableSet (regenerate wt) ! k)) = sum_list (proto_cycle (regenerate wt))"
    using mipLevel_sum [OF l, of k] assms(2)
    by (simp add: regenerate_def generateMipMap_row proto_cycle_def)
  then show ?thesis using regenerate_zero_mean [OF assms(1)] by simp
qed

lemma regenerate_frame [simp]:
  "waveform (regenerate wt) = waveform wt" "symmetry (regenerate wt) = symmetry wt"
  "tanhShaperFactor (regenerate wt) = tanhShaperFactor wt"
  "tanhShaperOffset (regenerate wt) = tanhShaperOffset wt"
  "squarePhaseShift (regenerate wt) = squarePhaseShift wt"
  by (simp_all add: regenerate_def generateMipMap_def normalize_wt_def removeDC_def Let_def update_cycle_def)

lemma fillPrototype_frame [simp]:
  "tanhShaperFactor (fillPrototype wt) = tanhShaperFactor wt"
  "waveform (fillPrototype wt) = waveform wt" "symmetry (fillPrototype wt) = symmetry wt"
  by (simp_all add: fillPrototype_def fillWithSine_def fillWithTriangle_def fillWithSquare_def
      fillWithSaw_def fillWithSquare303_cycle_def fillWithSaw303_def update_cycle_def)

lemma length_fill_ops [simp]:
  "tableLength \<le> length (prototypeTable wt) \<Longrightarrow>
   length (prototypeTable (fillWithSquare303_cycle wt)) = length (prototypeTable wt)"
  "tableLength \<le> length (prototypeTable wt) \<Longrightarrow>
   length (prototypeTable (fillPrototype wt)) = length (prototypeTable wt)"
  by (simp add: fillWithSquare303_cycle_def update_cycle_def) (simp add: fillPrototype_cycle)

lemma wf_wavetable_proto_length:
  "wf_wavetable wt \<Longrightarrow> length (prototypeTable wt) = tableLength + 4"
  by (simp add: wf_wavetable_def)

lemma wt_step_wf:
  assumes "wf_wavetable wt" "wt_step op wt = Some wt'"
  shows "wf_wavetable wt'"
proof -
  have L: "length (prototypeTable wt) = tableLength + 4" using assms(1) by (rule wf_wavetable_proto_length)
  show ?thesis
  proof (cases op)
    case (ImportWaveform buf n)
    then show ?thesis using assms(2) L
      by (auto simp: importWaveform_def update_cycle_def intro!: regenerate_wf split: if_splits)
  qed (use assms(2) L in \<open>auto simp: setWaveform_def setSymmetry_def renderWaveform_def
         setTanhShaperDriveFor303Square_def setTanhShaperOffsetFor303Square_def
         set303SquarePhaseShift_def fillWithSquare303_def intro!: regenerate_wf\<close>)
qed

lemma generateMipMap_level_spectrum:
  assumes "tableLength \<le> length (prototypeTable wt)" "k < numTables" "j < tableLength"
  shows "dft (map complex_of_real (take tableLength (tableSet (generateMipMap wt) ! k))) ! j =
         (if bin_removed tableLength k j then 0
          else dft (map complex_of_real (take tableLength (prototypeTable wt))) ! j)"
  using mipLevel_spectrum [OF assms(1,3)] assms(2) by (simp add: generateMipMap_row)

lemma fillPrototype_square:
  "waveform wt = waveform_code SQUARE \<Longrightarrow> fillPrototype wt = fillWithSquare wt"
  by (simp add: fillPrototype_def waveform_code_def)

lemma square_half_sum: "sum_list (square_cycle (1 / 2)) = 0"
  by (simp add: square_cycle_half tableLength_def sum_list_replicate)

lemma square_half_peak: "maxAbs (square_cycle (1 / 2)) = 1"
  by (simp add: square_cycle_half tableLength_def maxAbs_append maxAbs_replicate)

lemma square_half_removeDC:
  assumes "tableLength \<le> length (prototypeTable wt)" "symmetry wt = 1 / 2"
    and "waveform wt = waveform_code SQUARE"
  shows "proto_cycle (removeDC (fillPrototype wt)) = square_cycle (1 / 2)"
proof -
  have c: "proto_cycle (fillPrototype wt) = square_cycle (1 / 2)"
    using assms(1,3)
    by (simp add: fillPrototype_square fillWithSquare_def proto_cycle_update length_proto_cycle assms(2))
  have "tableLength \<le> length (prototypeTable (fillPrototype wt))" using assms(1) by simp
  then show ?thesis by (simp add: removeDC_cycle c square_half_sum)
qed

lemma mipmap_levels_ordered_aux:
  assumes "tableLength \<le> length (prototypeTable wt)" "j < tableLength"
    and "bin_removed tableLength k j" "k \<le> k'" "k' < numTables"
  shows "dft (map complex_of_real (take tableLength (tableSet (generateMipMap wt) ! k'))) ! j = 0"
  using generateMipMap_level_spectrum [OF assms(1,5,2)] bin_removed_mono [OF assms(3,4)] by simp

text \<open>
  C23 (refinement). Level \<open>k\<close> of the mip map has exactly the spectrum the
  specification asks for: every bin at or above the cutoff Nyquist/2^k is zero,
  every bin below it equals the prototype's bin.
\<close>

theorem generateMipMap_spectrum:
  assumes "tableLength \<le> length (prototypeTable wt)" "k < numTables" "j < tableLength"
  shows "dft (map complex_of_real (take tableLength (tableSet (generateMipMap wt) ! k))) ! j =
         (if bin_removed tableLength k j then 0
          else dft (map complex_of_real (take tableLength (prototypeTable wt))) ! j)"
  using assms by (rule generateMipMap_level_spectrum)

theorem generateMipMap_spectrum_witness:
  "tableLength \<le> length (prototypeTable demo_wavetable) \<and> 3 < numTables \<and> 5 < tableLength \<and>
   dft (map complex_of_real (take tableLength (tableSet (generateMipMap demo_wavetable) ! 3))) ! 5 =
   dft (map complex_of_real (take tableLength (prototypeTable demo_wavetable))) ! 5"
  using generateMipMap_spectrum [of demo_wavetable 3 5]
        wf_wavetable_proto_length [OF demo_wavetable_wf]
  by (simp add: bin_removed_def tableLength_def numTables_def)

text \<open>
  The levels are ordered from least to most band-limited: a
  bin removed at level \<open>k\<close> is zero at every later level.
\<close>

theorem mipmap_levels_ordered:
  assumes "tableLength \<le> length (prototypeTable wt)" "j < tableLength"
    and "bin_removed tableLength k j" "k \<le> k'" "k' < numTables"
  shows "dft (map complex_of_real (take tableLength (tableSet (generateMipMap wt) ! k'))) ! j = 0"
  using assms by (rule mipmap_levels_ordered_aux)

theorem mipmap_levels_ordered_witness:
  "tableLength \<le> length (prototypeTable demo_wavetable) \<and> (100::nat) < tableLength \<and>
   bin_removed tableLength 3 100 \<and> (3::nat) \<le> 5 \<and> (5::nat) < numTables \<and>
   dft (map complex_of_real (take tableLength (tableSet (generateMipMap demo_wavetable) ! 5))) ! 100 = 0"
  using mipmap_levels_ordered [of demo_wavetable 100 3 5]
        wf_wavetable_proto_length [OF demo_wavetable_wf]
  by (simp add: bin_removed_def tableLength_def numTables_def)

text \<open>
  C25 (type). Every operation of the wavetable store keeps the shape of the
  table set: twelve rows of 516 samples with their guard samples.
\<close>

theorem wt_step_keeps_wf:
  assumes "wf_wavetable wt" "wt_step op wt = Some wt'"
  shows "wf_wavetable wt'"
  using assms by (rule wt_step_wf)

theorem wt_step_keeps_wf_witness:
  "wf_wavetable demo_wavetable \<and>
   wt_step (SetWaveform 3) demo_wavetable = Some (setWaveform 3 demo_wavetable) \<and>
   wf_wavetable (setWaveform 3 demo_wavetable)"
  using wt_step_keeps_wf [of demo_wavetable "SetWaveform 3" "setWaveform 3 demo_wavetable"]
        demo_wavetable_wf by simp

text \<open>
  C26 (functional). After a waveform change the prototype cycle has zero mean,
  and so has every mip level.
\<close>

theorem setWaveform_zero_mean:
  assumes "tableLength \<le> length (prototypeTable wt)"
  shows "sum_list (proto_cycle (setWaveform w wt)) = 0 \<and>
         (\<forall>k < numTables. sum_list (take tableLength (tableSet (setWaveform w wt) ! k)) = 0)"
proof -
  have l: "tableLength \<le> length (prototypeTable (fillPrototype (wt\<lparr>waveform := w\<rparr>)))" using assms by simp
  show ?thesis
    using regenerate_zero_mean [OF l] regenerate_level_mean [OF l]
    by (simp add: setWaveform_def renderWaveform_def)
qed

theorem setWaveform_zero_mean_witness:
  "tableLength \<le> length (prototypeTable demo_wavetable) \<and>
   sum_list (proto_cycle (setWaveform 3 demo_wavetable)) = 0 \<and>
   sum_list (take tableLength (tableSet (setWaveform 3 demo_wavetable) ! 7)) = 0"
proof -
  have l: "tableLength \<le> length (prototypeTable demo_wavetable)"
    using wf_wavetable_proto_length [OF demo_wavetable_wf] by simp
  have "(7::nat) < numTables" by (simp add: numTables_def)
  then show ?thesis using setWaveform_zero_mean [OF l, of 3] l by blast
qed

text \<open>
  C27 (functional). When the DC-removed prototype is not all zero, the
  regenerated prototype has peak absolute value exactly 1.
\<close>

theorem setWaveform_peak:
  assumes "tableLength \<le> length (prototypeTable wt)"
    and "\<exists>x \<in> set (proto_cycle (removeDC (fillPrototype (wt\<lparr>waveform := w\<rparr>)))). x \<noteq> 0"
  shows "maxAbs (proto_cycle (setWaveform w wt)) = 1"
proof -
  have l: "tableLength \<le> length (prototypeTable (fillPrototype (wt\<lparr>waveform := w\<rparr>)))" using assms(1) by simp
  show ?thesis using regenerate_peak [OF l assms(2)] by (simp add: setWaveform_def renderWaveform_def)
qed

theorem setWaveform_peak_witness:
  "tableLength \<le> length (prototypeTable demo_wavetable) \<and>
   (\<exists>x \<in> set (proto_cycle (removeDC (fillPrototype (demo_wavetable\<lparr>waveform := waveform_code SQUARE\<rparr>)))). x \<noteq> 0) \<and>
   maxAbs (proto_cycle (setWaveform (waveform_code SQUARE) demo_wavetable)) = 1"
proof -
  have l: "tableLength \<le> length (prototypeTable demo_wavetable)"
    using wf_wavetable_proto_length [OF demo_wavetable_wf] by simp
  have s: "symmetry demo_wavetable = 1 / 2" by (simp add: demo_wavetable_def)
  have "proto_cycle (removeDC (fillPrototype (demo_wavetable\<lparr>waveform := waveform_code SQUARE\<rparr>)))
        = square_cycle (1 / 2)"
    using l s by (intro square_half_removeDC) simp_all
  then have e: "\<exists>x \<in> set (proto_cycle (removeDC (fillPrototype (demo_wavetable\<lparr>waveform := waveform_code SQUARE\<rparr>)))). x \<noteq> 0"
    by (simp add: square_cycle_half tableLength_def)
  show ?thesis using setWaveform_peak [OF l e] l e by simp
qed

lemma fillWithSquare303_cycle_waveform:
  "prototypeTable (fillWithSquare303_cycle (wt\<lparr>waveform := w\<rparr>)) = prototypeTable (fillWithSquare303_cycle wt)"
  by (simp add: fillWithSquare303_cycle_def update_cycle_def)

lemma regenerate_proto_cong:
  "prototypeTable a = prototypeTable b \<Longrightarrow> prototypeTable (regenerate a) = prototypeTable (regenerate b)"
  by (simp add: regenerate_def generateMipMap_def normalize_wt_def removeDC_def Let_def update_cycle_def)

lemma fillPrototype_square303:
  "waveform wt = waveform_code SQUARE303 \<Longrightarrow> fillPrototype wt = fillWithSquare303_cycle wt"
  by (simp add: fillPrototype_def waveform_code_def)

text \<open>
  C28 (functional). The shaper setters of the header call \<open>fillWithSquare303\<close>
  whatever waveform the table holds: the prototype becomes the regenerated
  303 square, while \<open>waveform\<close> still names the old kind.
\<close>

theorem shaper_setter_prototype:
  "prototypeTable (setTanhShaperOffsetFor303Square x wt) =
     prototypeTable (setWaveform (waveform_code SQUARE303) (wt\<lparr>tanhShaperOffset := x\<rparr>)) \<and>
   waveform (setTanhShaperOffsetFor303Square x wt) = waveform wt"
proof -
  have "prototypeTable (fillWithSquare303_cycle (wt\<lparr>tanhShaperOffset := x\<rparr>)) =
        prototypeTable (fillPrototype (wt\<lparr>tanhShaperOffset := x, waveform := waveform_code SQUARE303\<rparr>))"
    by (simp add: fillPrototype_square303 fillWithSquare303_cycle_waveform)
  then have "prototypeTable (regenerate (fillWithSquare303_cycle (wt\<lparr>tanhShaperOffset := x\<rparr>))) =
        prototypeTable (regenerate (fillPrototype (wt\<lparr>tanhShaperOffset := x, waveform := waveform_code SQUARE303\<rparr>)))"
    by (rule regenerate_proto_cong)
  moreover have "waveform (fillWithSquare303_cycle (wt\<lparr>tanhShaperOffset := x\<rparr>)) = waveform wt"
    by (simp add: fillWithSquare303_cycle_def)
  ultimately show ?thesis
    by (simp only: setTanhShaperOffsetFor303Square_def fillWithSquare303_def setWaveform_def
        renderWaveform_def regenerate_frame)
qed

text \<open>
  Reading back the drive gives the drive set, up to the product of
  the two truncated decimal constants of \<open>amp2dB\<close> and \<open>dB2amp\<close>, which exceeds 1
  by less than \<open>10^-31\<close>.
\<close>

theorem tanhShaperDrive_roundtrip:
  "\<exists>c. getTanhShaperDriveFor303Square (setTanhShaperDriveFor303Square d wt) = c * d \<and>
       1 < c \<and> c < 1 + 1 / 10 ^ 31"
proof -
  have "tanhShaperFactor (setTanhShaperDriveFor303Square d wt) = dB2amp d"
    by (simp add: setTanhShaperDriveFor303Square_def fillWithSquare303_def fillWithSquare303_cycle_def
        update_cycle_def)
  then show ?thesis
    by (intro exI [of _ "8.6858896380650365530225783783321 * 0.11512925464970228420089957273422"])
       (simp add: getTanhShaperDriveFor303Square_def amp2dB_def dB2amp_def)
qed

text \<open>
  C29 (error). \<open>setWaveform(float*, int)\<close> imports a cycle only when its length
  is the table length (the specification leaves other lengths open: the model
  returns no table); an accepted cycle is regenerated into a well-formed,
  zero-mean table.
\<close>

theorem importWaveform_result:
  assumes "wf_wavetable wt"
  shows "(lengthInSamples \<noteq> int tableLength \<longrightarrow> importWaveform buf lengthInSamples wt = None) \<and>
         (lengthInSamples = int tableLength \<and> tableLength \<le> length buf \<longrightarrow>
            (\<exists>wt'. importWaveform buf lengthInSamples wt = Some wt' \<and> wf_wavetable wt' \<and>
                   sum_list (proto_cycle wt') = 0))"
proof -
  have L: "length (prototypeTable wt) = tableLength + 4" using assms by (rule wf_wavetable_proto_length)
  define u where "u = update_cycle (\<lambda>_. take tableLength buf) wt"
  have lu: "tableLength \<le> length buf \<Longrightarrow> length (prototypeTable u) = tableLength + 4"
    using L by (simp add: u_def update_cycle_def)
  have "importWaveform buf lengthInSamples wt = Some (regenerate u)"
    if "lengthInSamples = int tableLength" "tableLength \<le> length buf"
    using that by (simp add: importWaveform_def u_def)
  moreover have "wf_wavetable (regenerate u) \<and> sum_list (proto_cycle (regenerate u)) = 0"
    if "tableLength \<le> length buf"
    using lu [OF that] regenerate_wf [of u] regenerate_zero_mean [of u] by simp
  moreover have "lengthInSamples \<noteq> int tableLength \<Longrightarrow> importWaveform buf lengthInSamples wt = None"
    by (simp add: importWaveform_def)
  ultimately show ?thesis by blast
qed

theorem importWaveform_result_witness:
  "wf_wavetable demo_wavetable \<and> importWaveform [1, 2, 3] 100 demo_wavetable = None"
proof -
  have "(100::int) \<noteq> int tableLength" by (simp add: tableLength_def)
  then show ?thesis
    using importWaveform_result [OF demo_wavetable_wf, of 100 "[1, 2, 3]"] demo_wavetable_wf by blast
qed

end
