(* ===== verification/Passband.thy ===== *)
theory Passband
  imports MipMap
begin

text \<open>
  What the band-limiter \<open>generateMipMap\<close> does to a given prototype, computed
  exactly. A level keeps a cycle whose spectrum vanishes on the removed bins
  (\<open>mipLevel_passband\<close>: the inverse transform undoes the forward one) and is
  silent when the cycle has no energy on the kept bins (\<open>mipLevel_stopband\<close>).
  With \<open>tableLength = 512\<close> the cutoff \<open>Nyquist/2^k\<close> keeps the first two harmonic
  bins for \<open>k \<le> 7\<close> and nothing but the DC bin for \<open>k \<ge> 8\<close>
  (\<open>bin_removed_low_levels\<close>, \<open>bin_removed_high_levels\<close>). Consequences:
  the sampled sine of \<open>fillWithSine\<close> has spectrum only in bins 1 and 511
  (through the roots-of-unity sums of \<open>Spectral\<close>), zero sum and peak 1, so
  \<open>setWaveform(SINE)\<close> stores it unchanged in levels 0..7 and silence in
  levels 8..11; and every regenerated table (every \<open>wt_step\<close>) is silent in
  levels 8..11, since regeneration removes the DC bin first.
\<close>

lemma of_real_sin_cis: "complex_of_real (sin x) = (cis x - cis (- x)) / (2 * \<i>)"
  by (simp add: complex_eq_iff)

lemma length_sine_cycle [simp]: "length sine_cycle = tableLength"
  by (simp add: sine_cycle_def)

lemma sine_cycle_nth:
  "n < tableLength \<Longrightarrow> sine_cycle ! n = sin (2 * pi * real n / real tableLength)"
  by (simp add: sine_cycle_def cycle_phase_def)

lemma dft_sine_cycle:
  assumes "j < tableLength"
  shows "dft (map complex_of_real sine_cycle) ! j =
         (root_sum tableLength (int 1 - int j) - root_sum tableLength (- (int 1 + int j))) / (2 * \<i>)"
proof -
  define N where "N = tableLength"
  have "dft (map complex_of_real sine_cycle) ! j =
        (\<Sum>n<N. (cis (2 * pi * real 1 * real n / real N) - cis (- 2 * pi * real 1 * real n / real N)) / (2 * \<i>)
                * cis (- 2 * pi * real j * real n / real N))"
    using assms by (simp add: dft_nth sine_cycle_nth of_real_sin_cis N_def)
  also have "\<dots> = ((\<Sum>n<N. cis (2 * pi * real 1 * real n / real N) * cis (- 2 * pi * real j * real n / real N))
                 - (\<Sum>n<N. cis (- 2 * pi * real 1 * real n / real N) * cis (- 2 * pi * real j * real n / real N)))
                / (2 * \<i>)"
    by (simp only: times_divide_eq_left left_diff_distrib sum_divide_distrib [symmetric] sum_subtractf)
  also have "\<dots> = (root_sum N (int 1 - int j) - root_sum N (- (int 1 + int j))) / (2 * \<i>)"
    by (simp only: cis_phase_diff cis_phase_sum root_sum_def)
  finally show ?thesis by (simp add: N_def)
qed

lemma dft_sine_cycle_zero:
  assumes "j < tableLength" "j \<noteq> 1" "j \<noteq> tableLength - 1"
  shows "dft (map complex_of_real sine_cycle) ! j = 0"
proof -
  have N: "0 < tableLength" "1 < tableLength" by (simp_all add: tableLength_def)
  have "\<not> int tableLength dvd (int 1 - int j)"
    using dvd_small_diff_iff [OF N(2) assms(1)] assms(2) by simp
  moreover have "(tableLength - j) mod tableLength \<noteq> 1"
    using assms(1,3) by (cases "j = 0") (simp_all add: tableLength_def)
  then have "\<not> int tableLength dvd (- (int 1 + int j))"
    using dvd_small_sum_iff [OF N(2) assms(1)] by simp
  ultimately show ?thesis
    using assms(1) by (simp only: dft_sine_cycle root_sum_eq [OF N(1)] if_False) simp
qed

lemma bandlimit_passband:
  assumes "\<forall>j < length ys. bin_removed (length ys) k j \<longrightarrow> ys ! j = 0"
  shows "bandlimit k ys = ys"
  using assms by (intro nth_equalityI) (simp_all add: bandlimit_nth)

lemma bandlimit_stopband:
  assumes "\<forall>j < length ys. \<not> bin_removed (length ys) k j \<longrightarrow> ys ! j = 0"
  shows "bandlimit k ys = replicate (length ys) 0"
  using assms by (intro nth_equalityI) (simp_all add: bandlimit_nth)

lemma mipLevel_passband:
  assumes "take tableLength proto = xs" "length xs = tableLength"
      and "\<forall>j < tableLength. bin_removed tableLength k j \<longrightarrow> dft (map complex_of_real xs) ! j = 0"
  shows "mipLevel k proto = xs @ take 4 xs"
proof -
  have "bandlimit k (dft (map complex_of_real xs)) = dft (map complex_of_real xs)"
    using assms(2,3) by (intro bandlimit_passband) simp
  then show ?thesis using assms(1) by (simp add: mipLevel_def Let_def idft_dft_list comp_def)
qed

lemma mipLevel_stopband:
  assumes "take tableLength proto = xs" "length xs = tableLength"
      and "\<forall>j < tableLength. \<not> bin_removed tableLength k j \<longrightarrow> dft (map complex_of_real xs) ! j = 0"
  shows "mipLevel k proto = replicate (tableLength + 4) 0"
proof -
  have "bandlimit k (dft (map complex_of_real xs)) = replicate tableLength 0"
    using assms(2,3) bandlimit_stopband [of "dft (map complex_of_real xs)" k] by simp
  then show ?thesis
    using assms(1) by (simp add: mipLevel_def Let_def idft_zero replicate_add [symmetric] tableLength_def)
qed

lemma bin_removed_low_levels:
  assumes "k \<le> 7" "bin_removed tableLength k j"
  shows "2 \<le> min j (tableLength - j)"
proof -
  define m where "m = min j (tableLength - j)"
  have "(2::nat) ^ k \<le> 2 ^ 7" using assms(1) by (rule power_increasing) simp
  then have "2 * 2 ^ k * m \<le> 256 * m" by (intro mult_right_mono) simp_all
  moreover have "512 \<le> 2 * 2 ^ k * m"
    using assms(2) by (simp add: bin_removed_def m_def tableLength_def)
  ultimately show ?thesis unfolding m_def [symmetric] by linarith
qed

lemma bin_removed_high_levels:
  assumes "8 \<le> k" "0 < j" "j < tableLength"
  shows "bin_removed tableLength k j"
proof -
  have "(2::nat) ^ 8 \<le> 2 ^ k" using assms(1) by (rule power_increasing) simp
  moreover have "1 \<le> min j (tableLength - j)" using assms(2,3) by simp
  ultimately have "2 * 2 ^ 8 * 1 \<le> 2 * 2 ^ k * min j (tableLength - j)"
    by (intro mult_mono) simp_all
  then show ?thesis by (simp add: bin_removed_def tableLength_def)
qed

lemma sine_cycle_sum: "sum_list sine_cycle = 0"
proof -
  have "sine_cycle \<noteq> []" by (simp add: sine_cycle_def tableLength_def)
  then have "complex_of_real (sum_list sine_cycle) = dft (map complex_of_real sine_cycle) ! 0"
    by (simp add: dft_dc)
  also have "\<dots> = 0" by (rule dft_sine_cycle_zero) (simp_all add: tableLength_def)
  finally show ?thesis by simp
qed

lemma sine_cycle_peak: "maxAbs sine_cycle = 1"
proof (rule antisym)
  show "maxAbs sine_cycle \<le> 1"
    by (rule maxAbs_le) (auto simp: sine_cycle_def)
  have "sine_cycle ! 128 = sin (pi / 2)"
    by (simp add: sine_cycle_nth tableLength_def)
  then have "sine_cycle ! 128 = 1" by simp
  then have "1 \<in> set sine_cycle"
    using nth_mem [of 128 sine_cycle] by (simp add: tableLength_def)
  then show "1 \<le> maxAbs sine_cycle" using maxAbs_ge [of 1] by simp
qed

lemma sine_levels_passband:
  assumes "take tableLength proto = sine_cycle" "k \<le> 7"
  shows "mipLevel k proto = sine_cycle @ take 4 sine_cycle"
proof (rule mipLevel_passband [OF assms(1)])
  show "\<forall>j < tableLength. bin_removed tableLength k j \<longrightarrow> dft (map complex_of_real sine_cycle) ! j = 0"
  proof (intro allI impI)
    fix j assume j: "j < tableLength" "bin_removed tableLength k j"
    then have "2 \<le> min j (tableLength - j)" using assms(2) bin_removed_low_levels by blast
    then show "dft (map complex_of_real sine_cycle) ! j = 0"
      using j(1) by (intro dft_sine_cycle_zero) auto
  qed
qed simp

lemma fillPrototype_sine:
  "waveform wt = waveform_code SINE \<Longrightarrow> fillPrototype wt = fillWithSine wt"
  by (simp add: fillPrototype_def waveform_code_def)

lemma setWaveform_sine_cycle:
  assumes "tableLength \<le> length (prototypeTable wt)"
  shows "proto_cycle (normalize_wt (removeDC (fillPrototype (wt\<lparr>waveform := waveform_code SINE\<rparr>)))) = sine_cycle"
proof -
  define W where "W = fillPrototype (wt\<lparr>waveform := waveform_code SINE\<rparr>)"
  have L: "tableLength \<le> length (prototypeTable W)" using assms by (simp add: W_def)
  have c: "proto_cycle W = sine_cycle"
    using assms by (simp add: W_def fillPrototype_sine fillWithSine_def proto_cycle_update)
  have L': "tableLength \<le> length (prototypeTable (removeDC W))" using L by simp
  have "proto_cycle (removeDC W) = sine_cycle"
    using removeDC_cycle [OF L] c by (simp add: sine_cycle_sum)
  then show ?thesis
    using normalize_cycle [OF L'] by (simp add: W_def sine_cycle_peak)
qed

lemma setWaveform_sine_levels:
  assumes "tableLength \<le> length (prototypeTable wt)" "k \<le> 7"
  shows "tableSet (setWaveform (waveform_code SINE) wt) ! k = sine_cycle @ take 4 sine_cycle"
proof -
  have "k < numTables" using assms(2) by (simp add: numTables_def)
  then show ?thesis
    using sine_levels_passband [OF setWaveform_sine_cycle [OF assms(1), unfolded proto_cycle_def] assms(2)]
    by (simp add: setWaveform_def renderWaveform_def regenerate_def generateMipMap_row)
qed

lemma regenerate_high_levels:
  assumes "tableLength \<le> length (prototypeTable wt)" "8 \<le> k" "k < numTables"
  shows "tableSet (regenerate wt) ! k = replicate (tableLength + 4) 0"
proof -
  define W where "W = normalize_wt (removeDC wt)"
  have L: "tableLength \<le> length (prototypeTable W)" using assms(1) by (simp add: W_def)
  have s: "sum_list (proto_cycle W) = 0"
    using regenerate_zero_mean [OF assms(1)] by (simp add: regenerate_def W_def)
  have lc: "length (proto_cycle W) = tableLength" using L by (simp add: proto_cycle_def)
  have "mipLevel k (prototypeTable W) = replicate (tableLength + 4) 0"
  proof (rule mipLevel_stopband [OF proto_cycle_def [symmetric] lc])
    show "\<forall>j < tableLength. \<not> bin_removed tableLength k j \<longrightarrow> dft (map complex_of_real (proto_cycle W)) ! j = 0"
    proof (intro allI impI)
      fix j assume j: "j < tableLength" "\<not> bin_removed tableLength k j"
      then have "j = 0" using bin_removed_high_levels [OF assms(2)] by (cases j) auto
      moreover have "proto_cycle W \<noteq> []" using lc by (auto simp: tableLength_def)
      ultimately show "dft (map complex_of_real (proto_cycle W)) ! j = 0"
        using s by (simp add: dft_dc)
    qed
  qed
  then show ?thesis using assms(3) by (simp add: regenerate_def W_def generateMipMap_row)
qed

lemma wt_step_high_levels:
  assumes "wf_wavetable wt" "wt_step op wt = Some wt'" "8 \<le> k" "k < numTables"
  shows "tableSet wt' ! k = replicate (tableLength + 4) 0"
proof -
  have L: "length (prototypeTable wt) = tableLength + 4" using assms(1) by (rule wf_wavetable_proto_length)
  show ?thesis
  proof (cases op)
    case (ImportWaveform buf n)
    then show ?thesis using assms(2-4) L
      by (auto simp: importWaveform_def update_cycle_def intro!: regenerate_high_levels split: if_splits)
  qed (use assms(2-4) L in \<open>auto simp: setWaveform_def setSymmetry_def renderWaveform_def
         setTanhShaperDriveFor303Square_def setTanhShaperOffsetFor303Square_def
         set303SquarePhaseShift_def fillWithSquare303_def intro!: regenerate_high_levels\<close>)
qed

text \<open>
  C24 (functional). After \<open>setWaveform(SINE)\<close> the mip levels 0..7 hold exactly the
  sampled sine \<open>sin (2 pi i / 512)\<close> with its first four samples as guard samples,
  and the levels 8..11, whose cutoff lies at or below the fundamental, are silent.
\<close>

theorem setWaveform_sine_mipmap:
  assumes "tableLength \<le> length (prototypeTable wt)" "k < numTables"
  shows "tableSet (setWaveform (waveform_code SINE) wt) ! k =
           (if k \<le> 7 then sine_cycle @ take 4 sine_cycle else replicate (tableLength + 4) 0)"
proof (cases "k \<le> 7")
  case True
  then show ?thesis using setWaveform_sine_levels [OF assms(1) True] by simp
next
  case False
  have "tableLength \<le> length (prototypeTable (fillPrototype (wt\<lparr>waveform := waveform_code SINE\<rparr>)))"
    using assms(1) by simp
  then show ?thesis
    using regenerate_high_levels [OF _ _ assms(2)] False
    by (simp add: setWaveform_def renderWaveform_def)
qed

theorem setWaveform_sine_mipmap_witness:
  "tableLength \<le> length (prototypeTable demo_wavetable) \<and> 3 < numTables \<and>
   tableSet (setWaveform (waveform_code SINE) demo_wavetable) ! 3 = sine_cycle @ take 4 sine_cycle"
proof -
  have L: "tableLength \<le> length (prototypeTable demo_wavetable)"
    using wf_wavetable_proto_length [OF demo_wavetable_wf] by simp
  show ?thesis using setWaveform_sine_mipmap [OF L, of 3] L by (simp add: numTables_def)
qed

end
