(* ===== verification/Playback.thy ===== *)
theory Playback
  imports Passband BlendOscillator
begin

text \<open>
  The two halves of the engine together: the oscillator of
  \<open>rosic_BlendOscillator.h\<close> playing tables that the band-limiter of
  \<open>MipMappedWaveTable\<close> regenerated. \<open>sine_osc\<close> is the call sequence of the
  specification's sine scenario (bind the tables, sample rate 44100 Hz,
  frequency 440 Hz, \<open>calculateIncrement\<close>, blend 0, \<open>resetPhase\<close>) and
  \<open>sine_heap\<close> a heap whose tables hold \<open>setWaveform(SINE)\<close>. The lemmas bound
  the error of linear interpolation in a sampled sine by \<open>2 h^2\<close> for the
  sample spacing \<open>h = 2 pi / 512\<close> (Maclaurin bounds for \<open>sin\<close>, the double
  angle formula for \<open>cos\<close>), which gives the scenario's accuracy, and show
  that for increments in \<open>[64, 1024)\<close> the mip level that \<open>getSample\<close> picks
  (\<open>tableNumber += 2\<close>) is one of the silent levels 8..11.
\<close>

definition sine_osc :: "nat \<Rightarrow> nat \<Rightarrow> BlendOscillator" where
  "sine_osc p1 p2 =
     osc_run initBlendOscillator
       [SetWaveTable1 (Some p1), SetWaveTable2 (Some p2), SetSampleRate 44100, SetFrequency 440,
        CalculateIncrement, SetBlendFactor 0, ResetPhase]"

definition sine_heap :: wt_heap where
  "sine_heap = (\<lambda>_. setWaveform (waveform_code SINE) demo_wavetable)"

lemma sin_linear_error: "\<bar>sin x - x\<bar> \<le> (x::real)\<^sup>2 / 2"
proof -
  have "\<bar>sin x - (\<Sum>m<2. sin_coeff m * x ^ m)\<bar> \<le> inverse (fact 2) * \<bar>x\<bar> ^ 2"
    by (rule Maclaurin_sin_bound)
  then show ?thesis by (simp add: sin_coeff_def power2_eq_square numeral_2_eq_2)
qed

lemma cos_const_error: "\<bar>cos x - 1\<bar> \<le> (x::real)\<^sup>2 / 2"
proof -
  have c: "cos x = 1 - 2 * (sin (x / 2))\<^sup>2"
    using cos_double_sin [of "x / 2"] by simp
  have "(sin (x / 2))\<^sup>2 \<le> (x / 2)\<^sup>2"
    using abs_sin_x_le_abs_x [of "x / 2"] by (simp only: abs_le_square_iff)
  then show ?thesis by (simp add: c power_divide)
qed

lemma scaled_error:
  fixes t h e1 e2 :: real
  assumes "0 \<le> t" "t \<le> 1" "\<bar>e1\<bar> \<le> h\<^sup>2 / 2" "\<bar>e2\<bar> \<le> (t * h)\<^sup>2 / 2"
  shows "\<bar>t * e1 - e2\<bar> \<le> h\<^sup>2"
proof -
  have "\<bar>t * e1\<bar> \<le> 1 * (h\<^sup>2 / 2)"
    unfolding abs_mult using assms(1-3) by (intro mult_mono) simp_all
  moreover have "t\<^sup>2 \<le> 1" using assms(1,2) by (simp add: power_le_one)
  then have "(t * h)\<^sup>2 \<le> 1 * h\<^sup>2"
    unfolding power_mult_distrib by (intro mult_right_mono) simp_all
  ultimately show ?thesis using assms(4) by linarith
qed

lemma sin_interp_error:
  fixes a h t :: real
  assumes "0 \<le> t" "t \<le> 1"
  shows "\<bar>(1 - t) * sin a + t * sin (a + h) - sin (a + t * h)\<bar> \<le> 2 * h\<^sup>2"
proof -
  define A where "A = t * (cos h - 1) - (cos (t * h) - 1)"
  define B where "B = t * (sin h - h) - (sin (t * h) - t * h)"
  have e: "(1 - t) * sin a + t * sin (a + h) - sin (a + t * h) = sin a * A + cos a * B"
    by (simp add: A_def B_def sin_add algebra_simps)
  have A: "\<bar>A\<bar> \<le> h\<^sup>2"
    unfolding A_def using assms cos_const_error [of h] cos_const_error [of "t * h"] by (rule scaled_error)
  have B: "\<bar>B\<bar> \<le> h\<^sup>2"
    unfolding B_def using assms sin_linear_error [of h] sin_linear_error [of "t * h"] by (rule scaled_error)
  have "\<bar>sin a * A\<bar> \<le> 1 * h\<^sup>2"
    unfolding abs_mult using A by (intro mult_mono) simp_all
  moreover have "\<bar>cos a * B\<bar> \<le> 1 * h\<^sup>2"
    unfolding abs_mult using B by (intro mult_mono) simp_all
  ultimately show ?thesis unfolding e by linarith
qed

lemma sine_row_nth:
  "j \<le> tableLength \<Longrightarrow> (sine_cycle @ take 4 sine_cycle) ! j = sin (2 * pi * real j / real tableLength)"
  by (cases "j < tableLength") (simp_all add: nth_append sine_cycle_nth tableLength_def)

lemma sin_wrap_mod: "sin (2 * pi * wrap_mod L p / L) = sin (2 * pi * p / L)" if "0 < L"
proof -
  have "2 * pi * wrap_mod L p / L = 2 * pi * p / L - (2 * pi) * of_int \<lfloor>p / L\<rfloor>"
    using that by (simp add: wrap_mod_def field_simps)
  then show ?thesis by (simp add: sin_diff)
qed

lemma table_interp_sine:
  assumes "tableSet wt ! nat (clampTableIndex t) = sine_cycle @ take 4 sine_cycle"
      and "0 \<le> ph" "ph < real tableLength"
  shows "\<bar>table_interp wt t ph - sin (2 * pi * ph / real tableLength)\<bar> \<le> 2 * (2 * pi / real tableLength)\<^sup>2"
proof -
  define i where "i = nat \<lfloor>ph\<rfloor>"
  define f where "f = ph - of_int \<lfloor>ph\<rfloor>"
  have "\<lfloor>ph\<rfloor> < int tableLength" using assms(3) by linarith
  then have i: "real i = of_int \<lfloor>ph\<rfloor>" "i < tableLength"
    using assms(2) by (simp_all add: i_def nat_less_iff)
  have f: "0 \<le> f" "f \<le> 1" by (simp_all add: f_def) linarith
  define a where "a = 2 * pi * real i / real tableLength"
  define h where "h = 2 * pi / real tableLength"
  have "table_interp wt t ph = (1 - f) * sin a + f * sin (a + h)"
    using assms(1) i(2) by (simp add: table_interp_def Let_def i_def [symmetric] f_def [symmetric]
        sine_row_nth a_def h_def add_divide_distrib distrib_left add.commute)
  moreover have "2 * pi * ph / real tableLength = a + f * h"
    using i(1) by (simp add: a_def h_def f_def tableLength_def divide_simps) (simp add: algebra_simps)
  ultimately show ?thesis using sin_interp_error [OF f, of a h] by (simp add: h_def)
qed

lemma sine_osc_fields:
  "waveTable1 (sine_osc p1 p2) = Some p1" "waveTable2 (sine_osc p1 p2) = Some p2"
  "tableLengthDbl (sine_osc p1 p2) = real tableLength" "phaseIndex (sine_osc p1 p2) = 0"
  "increment (sine_osc p1 p2) = real tableLength * 440 / 44100" "blend (sine_osc p1 p2) = 0"
  by (simp_all add: sine_osc_def osc_run_def setWaveTable1_def setWaveTable2_def setSampleRate_def
      setFrequency_def calculateIncrement_def setBlendFactor_def resetPhase_def initBlendOscillator_def)

lemma sine_osc_level: "selectTable (real tableLength * 440 / 44100) = 4"
  by (simp add: selectTable_def float_exponent_def tableLength_def compute_bitlen)

lemma sine_error_small: "2 * (2 * pi / real tableLength)\<^sup>2 < 1 / 1000"
proof -
  have "2 * pi / real tableLength < 1 / 64" using pi_less_4 by (simp add: tableLength_def)
  moreover have "0 \<le> 2 * pi / real tableLength" by simp
  ultimately have "(2 * pi / real tableLength)\<^sup>2 < (1 / 64)\<^sup>2" by (rule power_strict_mono) simp
  moreover have "(1 / 64 :: real)\<^sup>2 = 1 / 4096" by (simp add: power2_eq_square)
  ultimately show ?thesis by linarith
qed

lemma selectTable_high:
  assumes "64 \<le> inc" "inc < 1024"
  shows "8 \<le> selectTable inc" "selectTable inc < int numTables"
proof -
  have "\<bar>inc\<bar> < 2 powi (9 + 1)" using assms by simp
  then have "float_exponent inc \<le> 9" by (rule float_exponent_le) simp_all
  then show "selectTable inc < int numTables" by (simp add: selectTable_def numTables_def)
  have "2 powi (-126) \<le> \<bar>inc\<bar>"
    using assms(1) two_powi_mono [of "-126" 6] by simp
  moreover have "\<bar>inc\<bar> < 2 ^ 128" using assms by simp
  ultimately have "\<bar>inc\<bar> < 2 powi (float_exponent inc + 1)"
    by (blast dest: float_exponent_bounds)
  moreover have "float_exponent inc + 1 \<le> 6 \<Longrightarrow> 2 powi (float_exponent inc + 1) \<le> (2::real) powi 6"
    by (rule two_powi_mono)
  ultimately have "6 \<le> float_exponent inc" using assms(1) by fastforce
  then show "8 \<le> selectTable inc" by (simp add: selectTable_def)
qed

lemma table_interp_zero_row:
  assumes "tableSet wt ! nat (clampTableIndex t) = replicate (tableLength + 4) 0"
      and "0 \<le> ph" "ph < real tableLength"
  shows "table_interp wt t ph = 0"
proof -
  have "\<lfloor>ph\<rfloor> < int tableLength" using assms(3) by linarith
  then have "nat \<lfloor>ph\<rfloor> < tableLength" using assms(2) by (simp add: nat_less_iff)
  then show ?thesis using assms(1) by (simp add: table_interp_def Let_def)
qed

text \<open>
  C5 (functional). The sine scenario of the specification: with the first table
  holding \<open>setWaveform(SINE)\<close>, blend 0, 440 Hz at 44100 Hz and the phase reset,
  any number of \<open>getSample\<close> calls succeed and the k-th output differs from
  \<open>sin (2 pi 440 k / 44100)\<close> by less than \<open>10^-3\<close>.
\<close>

theorem sine_scenario:
  assumes "heap p1 = setWaveform (waveform_code SINE) wt" "wf_wavetable wt" "wf_wavetable (heap p2)"
  shows "\<exists>ys osc'. runSamples heap n (sine_osc p1 p2) = Inr (ys, osc') \<and> length ys = n \<and>
           (\<forall>k < n. \<bar>ys ! k - sin (2 * pi * 440 * real k / 44100)\<bar> < 1 / 1000)"
proof -
  define osc where "osc = sine_osc p1 p2"
  define inc where "inc = real tableLength * 440 / 44100"
  note F = sine_osc_fields [of p1 p2, folded osc_def inc_def]
  have wf1: "wf_wavetable (heap p1)"
    using wt_step_wf [OF assms(2), of "SetWaveform (waveform_code SINE)"] assms(1) by simp
  have lvl: "selectTable (increment osc) = 4" using sine_osc_level by (simp add: F inc_def)
  have row: "tableSet (heap p1) ! nat (clampTableIndex (selectTable (increment osc))) = sine_cycle @ take 4 sine_cycle"
    using assms(1) setWaveform_sine_levels [of wt 4] wf_wavetable_proto_length [OF assms(2)] lvl
    by (simp add: clampTableIndex_def numTables_def)
  have pre: "0 \<le> phaseIndex osc" "0 \<le> increment osc" "selectTable (increment osc) \<noteq> int numTables"
    using F lvl by (simp_all add: inc_def numTables_def)
  obtain ys osc' where run: "runSamples heap n osc = Inr (ys, osc')" "length ys = n"
    and ys: "\<forall>k < n. ys ! k = blend_spec heap p1 p2 (osc\<lparr>phaseIndex := phaseIndex osc + real k * increment osc\<rparr>)"
    using runSamples_blocks [OF F(1,2) wf1 assms(3) F(3) pre, of n] by blast
  have "\<bar>ys ! k - sin (2 * pi * 440 * real k / 44100)\<bar> < 1 / 1000" if k: "k < n" for k
  proof -
    define ph where "ph = wrap_mod (real tableLength) (real k * inc)"
    have L: "(0::real) < real tableLength" by (simp add: tableLength_def)
    have ph: "0 \<le> ph" "ph < real tableLength" using wrap_mod_bounds [OF L] by (simp_all add: ph_def)
    have "ys ! k = table_interp (heap p1) (selectTable (increment osc)) ph"
      using ys k F by (simp add: blend_spec_def Let_def ph_def)
    moreover have "sin (2 * pi * ph / real tableLength) = sin (2 * pi * 440 * real k / 44100)"
      using sin_wrap_mod [OF L] by (simp add: ph_def inc_def tableLength_def)
    ultimately show ?thesis
      using table_interp_sine [OF row ph] sine_error_small by linarith
  qed
  then show ?thesis using run by (auto simp: osc_def)
qed

text \<open>
  C6 (functional). For an increment in \<open>[64, 1024)\<close> (at 44.1 kHz every frequency
  from 5.5 kHz to 88 kHz, so every frequency \<open>setFrequency\<close> accepts above
  5.5 kHz) \<open>getSample\<close> on two regenerated tables returns 0 whatever the
  waveforms and the blend: the selected level is one of 8..11, which
  regeneration leaves silent.
\<close>

theorem getSample_high_notes_silent:
  assumes "waveTable1 osc = Some p1" "waveTable2 osc = Some p2"
      and "wf_wavetable wt1" "wt_step op1 wt1 = Some (heap p1)"
      and "wf_wavetable wt2" "wt_step op2 wt2 = Some (heap p2)"
      and "tableLengthDbl osc = real tableLength" "0 \<le> phaseIndex osc"
      and "64 \<le> increment osc" "increment osc < 1024"
  shows "getSample heap osc =
           Inr (0, osc\<lparr>phaseIndex := wrap_mod (real tableLength) (phaseIndex osc) + increment osc\<rparr>)"
proof -
  define t where "t = selectTable (increment osc)"
  note sel = selectTable_high [OF assms(9,10), folded t_def]
  have wf: "wf_wavetable (heap p1)" "wf_wavetable (heap p2)"
    using wt_step_wf assms(3-6) by blast+
  have c: "nat (clampTableIndex t) = nat t" "8 \<le> nat t" "nat t < numTables"
    using sel by (simp_all add: clampTableIndex_def numTables_def)
  have L: "(0::real) < real tableLength" by (simp add: tableLength_def)
  define ph where "ph = wrap_mod (real tableLength) (phaseIndex osc)"
  have ph: "0 \<le> ph" "ph < real tableLength" using wrap_mod_bounds [OF L] by (simp_all add: ph_def)
  have "table_interp (heap p1) t ph = 0" "table_interp (heap p2) t ph = 0"
    using table_interp_zero_row [OF _ ph] wt_step_high_levels [OF assms(3,4) c(2,3)]
      wt_step_high_levels [OF assms(5,6) c(2,3)] c(1) by simp_all
  then have "blend_spec heap p1 p2 osc = 0"
    using assms(7) by (simp add: blend_spec_def Let_def t_def ph_def)
  then show ?thesis
    using getSample_eq [OF assms(1,2) wf assms(7,8)] sel by (simp add: t_def numTables_def)
qed

theorem sine_scenario_witness:
  "sine_heap 0 = setWaveform (waveform_code SINE) demo_wavetable \<and> wf_wavetable demo_wavetable \<and>
   wf_wavetable (sine_heap 1) \<and>
   (\<exists>ys osc'. runSamples sine_heap 1 (sine_osc 0 1) = Inr (ys, osc') \<and> length ys = 1 \<and>
      \<bar>ys ! 0\<bar> < 1 / 1000)"
proof -
  have wf: "wf_wavetable (sine_heap 1)"
    using wt_step_wf [OF demo_wavetable_wf, of "SetWaveform (waveform_code SINE)"] by (simp add: sine_heap_def)
  have "sine_heap 0 = setWaveform (waveform_code SINE) demo_wavetable" by (simp add: sine_heap_def)
  then obtain ys osc' where "runSamples sine_heap 1 (sine_osc 0 1) = Inr (ys, osc')" "length ys = 1"
      "\<forall>k < 1. \<bar>ys ! k - sin (2 * pi * 440 * real k / 44100)\<bar> < 1 / 1000"
    using sine_scenario [of sine_heap 0 demo_wavetable 1 1] demo_wavetable_wf wf by blast
  then show ?thesis using wf demo_wavetable_wf by (auto simp: sine_heap_def)
qed

theorem getSample_high_notes_silent_witness:
  "waveTable1 (setIncrement (sine_osc 0 1) 100) = Some 0 \<and> waveTable2 (setIncrement (sine_osc 0 1) 100) = Some 1 \<and>
   wf_wavetable demo_wavetable \<and>
   wt_step (SetWaveform (waveform_code SINE)) demo_wavetable = Some (sine_heap 0) \<and>
   wt_step (SetWaveform (waveform_code SINE)) demo_wavetable = Some (sine_heap 1) \<and>
   tableLengthDbl (setIncrement (sine_osc 0 1) 100) = real tableLength \<and>
   0 \<le> phaseIndex (setIncrement (sine_osc 0 1) 100) \<and>
   64 \<le> increment (setIncrement (sine_osc 0 1) 100) \<and> increment (setIncrement (sine_osc 0 1) 100) < 1024 \<and>
   getSample sine_heap (setIncrement (sine_osc 0 1) 100) =
     Inr (0, (setIncrement (sine_osc 0 1) 100)\<lparr>phaseIndex := 100\<rparr>)"
proof -
  have F: "waveTable1 (setIncrement (sine_osc 0 1) 100) = Some 0" "waveTable2 (setIncrement (sine_osc 0 1) 100) = Some 1"
    "tableLengthDbl (setIncrement (sine_osc 0 1) 100) = real tableLength"
    "phaseIndex (setIncrement (sine_osc 0 1) 100) = 0" "increment (setIncrement (sine_osc 0 1) 100) = 100"
    by (simp_all add: setIncrement_def sine_osc_fields)
  have S: "wt_step (SetWaveform (waveform_code SINE)) demo_wavetable = Some (sine_heap p)" for p
    by (simp add: sine_heap_def)
  have "wrap_mod (real tableLength) 0 = 0" by (simp add: wrap_mod_def)
  then show ?thesis
    using getSample_high_notes_silent [where heap = sine_heap, OF F(1,2) demo_wavetable_wf S demo_wavetable_wf S F(3)]
      F S demo_wavetable_wf
    by simp
qed

end
