(* ===== verification/Spec2Isabelle.thy ===== *)
theory Spec2Isabelle
  imports BlendOscillator GlobalFunctions MipMap Playback
begin

text \<open>
  Verification development for the anti-aliased wavetable oscillator core of
  Open303 (ESP32 port). The code under \<open>src/Open303/\<close> is three headers:
  \<open>rosic_MipMappedWaveTable.h\<close> (the mip-mapped wavetable and its
  interpolating lookup), \<open>rosic_BlendOscillator.h\<close> (an oscillator that reads
  two wavetables through pointers and blends them) and \<open>GlobalFunctions.h\<close>
  (numeric helpers). The wavetable stores 12 band-limited copies ("mip
  levels") of a 512-sample cycle, each row followed by 4 guard samples that
  repeat its start; control-rate operations regenerate them from a prototype
  cycle. The oscillator reads two wavetables per sample through pointers,
  selects a level from its phase increment and blends the two lookups.

  \<^bold>\<open>Theories.\<close>
  \<^item> \<open>Prelude\<close>: type names (\<open>u32\<close> for the ESP32's 32-bit \<open>unsigned\<close>,
    \<open>sample\<close>, \<open>table\<close>), the collection \<open>model_simps\<close>, array reads
    \<open>read_at\<close> (a C read outside the array is undefined behaviour, modelled as
    \<open>None\<close>), the phase remainder \<open>wrap_mod\<close>, interpolation bounds, powers of
    two in words.
  \<^item> \<open>FloatFunctions\<close>: \<open>EXPOFFLT\<close> and \<open>floorInt\<close> (outside \<open>src/\<close>, modelled
    from their documented behaviour): \<open>EXPOFFLT\<close> on the IEEE-754 bit pattern
    and the exponent of a real, with the lemma \<open>EXPOFFLT_float_val\<close> that the
    two agree on every finite float.
  \<^item> \<open>WaveTable\<close> (\<open>rosic_MipMappedWaveTable.h\<close>): the enum, the class as the
    record \<open>MipMappedWaveTable\<close>, the table-index clamp and the two
    \<open>getValueLinear\<close> lookups; \<open>wf_wavetable\<close> is the shape of the table set.
    Lemmas: interpolation (C10, C13), exactness at the nodes (C11), the bound
    (C12), the clamp letting index 12 through (C9); the guard samples are a
    further lemma.
  \<^item> \<open>Prototype\<close>, \<open>Spectral\<close>, \<open>MipMap\<close>: the regeneration pipeline, whose
    bodies are in the .cpp and are modelled from the specification. The
    prototype generator (\<open>fillWith*\<close>, \<open>removeDC\<close>, \<open>normalize_wt\<close> for
    \<open>normalize\<close>, \<open>reverseTime\<close>); the FFT as the discrete Fourier transform
    with its two inversion theorems; \<open>generateMipMap\<close> as spectral truncation;
    \<open>setWaveform\<close>, \<open>setSymmetry\<close>, the import \<open>setWaveform(float*, int)\<close> and
    the shaper setters and getters of the header (lines 75-101). Lemmas: each
    level keeps exactly the prototype's bins below its cutoff (C23), so the
    levels are ordered (lemma \<open>mipmap_levels_ordered\<close>); every operation keeps
    \<open>wf_wavetable\<close> (C25); after regeneration the prototype and every level
    have zero mean (C26) and the prototype peak 1 (C27); the shaper setters
    regenerate the 303 square whatever the waveform (C28); the import (C29).
    The drive read back through \<open>amp2dB\<close> is a further lemma.
  \<^item> \<open>Passband\<close>: levels computed exactly. A level keeps a cycle whose
    spectrum vanishes on the removed bins and is silent when nothing is left
    on the kept bins. The sine of \<open>fillWithSine\<close> has spectrum in bins 1 and 511
    only, so \<open>setWaveform(SINE)\<close> stores the sampled sine itself in levels 0..7
    and silence in levels 8..11 (C24); every regenerated table is silent in
    levels 8..11.
  \<^item> \<open>BlendOscillator\<close> (\<open>rosic_BlendOscillator.h\<close>): the record, the setters,
    \<open>calculateIncrement\<close>, the wrap loop \<open>wrapPhase\<close> (a \<open>partial_function
    (option)\<close>, \<open>None\<close> for a loop that never ends) and \<open>getSample\<close> with result
    \<open>osc_error + sample \<times> state\<close>; the table pointers are addresses into an
    explicit heap \<open>wt_heap\<close>, \<open>None\<close> being \<open>NULL\<close>. Lemmas: \<open>getSample\<close> refines
    \<open>blend_spec\<close> (C1) and blocks of samples follow it (C2); the blend
    endpoints (C3, C4); termination of the wrap loop (C7); table overflow
    (C8); unbound pointers (C14); negative phase (C15); rejected frequencies
    (C16); the invariant \<open>osc_inv\<close> (C17); a valid level at sample rates of
    at least 10 kHz (C18); \<open>EXPOFFLT\<close> (C19). The increment frame of the
    operations and the getters are further lemmas.
  \<^item> \<open>Playback\<close>: the oscillator playing regenerated tables. Linear
    interpolation in the sampled sine is within \<open>2 h^2\<close> of the sine for the
    spacing \<open>h = 2 pi / 512\<close> (Maclaurin bounds), so the specification's sine
    scenario (440 Hz at 44.1 kHz, blend 0) holds with error below \<open>10^-3\<close> for
    every sample (C5); for increments in \<open>[64, 1024)\<close> the level chosen with
    the margin 2 is one of the silent levels and every sample is 0 (C6).
  \<^item> \<open>Rounding\<close>: IEEE-754 round to nearest even with \<open>p\<close> significant bits
    (\<open>round_prec\<close>; \<open>to_float\<close> for 24 bits, \<open>to_double\<close> for 53), executable
    through \<open>bitlen\<close>; values with at most \<open>p\<close> bits are kept, the relative
    error is at most \<open>2^-p\<close>. Overflow and subnormals are outside it.
  \<^item> \<open>GlobalFunctions\<close> (\<open>GlobalFunctions.h\<close>): every helper. C \<open>int\<close>
    arithmetic that can overflow is checked against the 32-bit range
    (\<open>int32_range\<close>), with \<open>None\<close> for undefined behaviour. \<open>isPowerOfTwo\<close> and
    \<open>nextPowerOfTwo\<close> are correct up to \<open>2^31\<close> (\<open>2^(n-1)\<close>) and never return
    above it (C30-C33); the array scans (C34, C35). \<open>indexToNormalizedValue\<close>,
    \<open>normalizedValueToIndex\<close> and \<open>randomUniform\<close> round every \<open>float\<close> and
    \<open>double\<close> step: the index round trip holds up to \<open>2^21\<close> indices (C36) and
    fails at \<open>2^25\<close>; \<open>randomUniform()\<close> returns values in the closed
    \<open>[0, 1]\<close>, 1.0 for 128 states per period (C37); the generator has the
    documented period \<open>2^32\<close> and visits every state once per period (C38, by
    the 2-adic valuation of \<open>1 + a + ... +
    a^(n-1)\<close> for \<open>a = 1 mod 4\<close>). The bijectivity of the step, parity, the
    other conversion round trips (among them the documented inverse of
    \<open>linToExpWithOffset\<close>) and the default arguments of the declarations
    (\<open>*_default\<close>) are further lemmas and definitions of the theory.
  \<^item> This theory: the oscillator and its heap of tables as one system
    (\<open>sys_step\<close>, \<open>sys_reachable\<close>) with \<open>setPulseWidth\<close>, which writes through
    both pointers. In every reachable state a sample pull under the
    documented conditions never fails (C20), the phase goes round the table
    once, coming back within one increment after \<open>\<lceil>tableLength / increment\<rceil>\<close>
    pulls and not before (C21), and a
    pulse-width change touches exactly the shared tables and keeps them well
    formed (C22).

  \<^bold>\<open>Bounds and fuel.\<close> No fuel is used: the C while loops are partial
  functions whose \<open>None\<close> is non-termination, and each termination claim is
  proved as the existence of a result. The table length 512 and the 12
  tables are the header's constants. The 10 kHz sample-rate bound of C18,
  C20 and C21 keeps the increment of a frequency below 20 kHz inside the 12
  tables; below it the selected table can overflow (C8). The error bound
  \<open>10^-3\<close> of C5 is the specification's; the proof gives
  \<open>2 (2 pi / 512)^2 < 5 * 10^-4\<close> at every phase.

  \<^bold>\<open>Findings.\<close> The clamp in \<open>getValueLinear\<close> lets 12 through (line 199). A
  negative phase is never wrapped. \<open>isPowerOfTwo\<close> and \<open>nextPowerOfTwo\<close> loop
  forever on large unsigned arguments. Silence cannot have the peak 1.0 the
  specification states for every kind (its normalisation divides by 0). The shaper setters overwrite the
  prototype of a table holding another waveform. \<open>setPulseWidth\<close> does not
  test its pointers for \<open>NULL\<close>. \<open>indexToNormalizedValue\<close> overflows from
  \<open>2^30\<close> indices on, and its \<open>float\<close> rounding returns 1.0 and maps back to
  \<open>numIndices\<close> at \<open>2^25\<close> indices. With the margin \<open>tableNumber += 2\<close> and the cutoff
  \<open>Nyquist/2^k\<close>, notes above an eighth of the sample rate select levels that
  hold no harmonic and are silent (C6).

  \<^bold>\<open>Not modelled.\<close> \<open>float\<close> rounding outside the three helpers above (the
  oscillator and the wavetable compute in reals); the division by a zero
  peak in \<open>normalize\<close>, which HOL's \<open>x / 0 = 0\<close> turns into an all-zero cycle
  where C gives NaN (silence, a square of symmetry 0 or 1, a constant
  import); the guards \<open>0 < sampleRate\<close> of \<open>setSampleRate\<close> and \<open>0..360\<close> of
  \<open>setStartPhase\<close>, whose bodies are in the .cpp, are assumed; the exact
  formulas of the .cpp fill functions (closed forms with the specified
  properties stand in for them); \<open>setWaveForm1/2\<close> of the oscillator, declared
  in the header with bodies in the .cpp that the specification does not
  describe. The synth voice, filters, envelopes and sequencer are outside
  \<open>src/\<close> and out of scope.
\<close>

subsection \<open>The oscillator and its tables as one system\<close>

text \<open>
  \<open>setPulseWidth\<close> (\<open>rosic_BlendOscillator.h\<close> lines 126-130) writes through both
  table pointers; a \<open>NULL\<close> pointer is an error value. \<open>sys_step\<close> runs one
  operation of the whole system: an oscillator operation, a wavetable operation
  at any heap address, a pulse-width change or a sample pull (an operation that
  fails stops the run); \<open>sys_reachable\<close> is the set of states reachable from
  a heap of well-formed tables and the constructed oscillator.
\<close>

datatype pw_error = NullWaveTable

definition setPulseWidth :: "wt_heap \<Rightarrow> BlendOscillator \<Rightarrow> real \<Rightarrow> pw_error + wt_heap" where
  "setPulseWidth heap osc newPulseWidth =
     (case (waveTable1 osc, waveTable2 osc) of
        (Some p1, Some p2) \<Rightarrow>
          (let heap1 = heap(p1 := setSymmetry (0.01 * newPulseWidth) (heap p1))
           in Inr (heap1(p2 := setSymmetry (0.01 * newPulseWidth) (heap1 p2))))
      | _ \<Rightarrow> Inl NullWaveTable)"

datatype sys_op = OscOp osc_op | TableOp nat wt_op | PulseWidth real | PullSample

fun sys_step :: "wt_heap \<times> BlendOscillator \<Rightarrow> sys_op \<Rightarrow> (wt_heap \<times> BlendOscillator) option" where
  "sys_step (heap, osc) (OscOp op) = Some (heap, osc_step osc op)"
| "sys_step (heap, osc) (TableOp a op) =
     (case wt_step op (heap a) of None \<Rightarrow> None | Some wt \<Rightarrow> Some (heap(a := wt), osc))"
| "sys_step (heap, osc) (PulseWidth pw) =
     (case setPulseWidth heap osc pw of Inl _ \<Rightarrow> None | Inr heap' \<Rightarrow> Some (heap', osc))"
| "sys_step (heap, osc) PullSample =
     (case getSample heap osc of Inl _ \<Rightarrow> None | Inr (_, osc') \<Rightarrow> Some (heap, osc'))"

inductive sys_reachable :: "wt_heap \<times> BlendOscillator \<Rightarrow> bool" where
  init: "(\<forall>a. wf_wavetable (heap a)) \<Longrightarrow> sys_reachable (heap, initBlendOscillator)"
| step: "sys_reachable s \<Longrightarrow> sys_step s op = Some s' \<Longrightarrow> sys_reachable s'"

definition sys_inv :: "wt_heap \<times> BlendOscillator \<Rightarrow> bool" where
  "sys_inv s \<longleftrightarrow> (\<forall>a. wf_wavetable (fst s a)) \<and> osc_inv (snd s)"

definition demo_sys :: "wt_heap \<times> BlendOscillator" where
  "demo_sys = (demo_heap, calculateIncrement demo_osc)"

lemma setSymmetry_wf: "wf_wavetable wt \<Longrightarrow> wf_wavetable (setSymmetry s wt)"
  using wt_step_wf [of wt "SetSymmetry s" "setSymmetry s wt"] by simp

lemma setSymmetry_symmetry [simp]: "symmetry (setSymmetry s wt) = s"
  by (simp add: setSymmetry_def renderWaveform_def)

lemma setPulseWidth_bound:
  assumes "waveTable1 osc = Some p1" "waveTable2 osc = Some p2"
  shows "setPulseWidth heap osc pw =
           Inr ((heap(p1 := setSymmetry (0.01 * pw) (heap p1)))
                 (p2 := setSymmetry (0.01 * pw) ((heap(p1 := setSymmetry (0.01 * pw) (heap p1))) p2)))"
  using assms by (simp add: setPulseWidth_def Let_def)

lemma setPulseWidth_wf:
  assumes "\<forall>a. wf_wavetable (heap a)" "setPulseWidth heap osc pw = Inr heap'"
  shows "\<forall>a. wf_wavetable (heap' a)"
  using assms setSymmetry_wf
  by (auto simp: setPulseWidth_def Let_def split: option.splits)

lemma sys_step_inv:
  assumes "sys_inv s" "sys_step s op = Some s'"
  shows "sys_inv s'"
proof -
  obtain heap osc where s: "s = (heap, osc)" by (cases s)
  show ?thesis
  proof (cases op)
    case (OscOp o1)
    then show ?thesis using assms s by (auto simp: sys_inv_def intro: osc_inv_step)
  next
    case (TableOp a o1)
    then show ?thesis using assms s wt_step_wf [of "heap a" o1]
      by (auto simp: sys_inv_def split: option.splits)
  next
    case (PulseWidth pw)
    then show ?thesis using assms s setPulseWidth_wf [of heap osc pw]
      by (auto simp: sys_inv_def split: sum.splits)
  next
    case PullSample
    then show ?thesis using assms s osc_inv_sample [of osc heap]
      by (auto simp: sys_inv_def split: sum.splits prod.splits)
  qed
qed

lemma sys_reachable_inv: "sys_reachable s \<Longrightarrow> sys_inv s"
proof (induction rule: sys_reachable.induct)
  case (init heap)
  then show ?case by (simp add: sys_inv_def osc_inv_init)
next
  case (step s op s')
  then show ?case by (blast intro: sys_step_inv)
qed

lemma wrap_mod_sub_cong:
  assumes "0 < L" "wrap_mod L a = wrap_mod L b"
  shows "wrap_mod L (a - c) = wrap_mod L (b - c)"
proof -
  have "wrap_mod L (a - c) = wrap_mod L (wrap_mod L a + - c)"
    using wrap_mod_add [OF assms(1), of a "- c"] by simp
  also have "\<dots> = wrap_mod L (wrap_mod L b + - c)" using assms(2) by simp
  also have "\<dots> = wrap_mod L (b - c)"
    using wrap_mod_add [OF assms(1), of b "- c"] by simp
  finally show ?thesis .
qed

lemma wrap_mod_ceiling_steps:
  assumes "0 < L" "0 < d"
  shows "wrap_mod L (real (nat \<lceil>L / d\<rceil>) * d) < d"
proof -
  define n where "n = nat \<lceil>L / d\<rceil>"
  have c: "L / d \<le> real n" "real n < L / d + 1" using assms by (simp_all add: n_def) linarith+
  have ge: "L \<le> real n * d" using c(1) assms by (simp add: field_simps)
  have lt: "real n * d - L < d" using c(2) assms by (simp add: field_simps)
  have "1 \<le> real n * d / L" using ge assms by simp
  then have "1 \<le> \<lfloor>real n * d / L\<rfloor>" by linarith
  then have "L * 1 \<le> L * of_int \<lfloor>real n * d / L\<rfloor>" using assms(1) by (intro mult_left_mono) simp_all
  then show ?thesis using lt by (simp add: wrap_mod_def n_def [symmetric])
qed

lemma sys_reachable_sample:
  assumes "sys_reachable (heap, osc)" "waveTable1 osc = Some p1" "waveTable2 osc = Some p2"
    and "10000 \<le> sampleRate osc" "increment osc = real tableLength * freq osc / sampleRate osc"
  shows "wf_wavetable (heap p1) \<and> wf_wavetable (heap p2) \<and> tableLengthDbl osc = real tableLength \<and>
         selectTable (increment osc) \<noteq> int numTables \<and> 0 < increment osc"
proof -
  have inv: "sys_inv (heap, osc)" using assms(1) by (rule sys_reachable_inv)
  then have o: "osc_inv osc" by (simp add: sys_inv_def)
  have "selectTable (increment osc) < int numTables"
    using selectTable_calculated [OF o assms(4)] assms(5) by simp
  moreover have "0 < increment osc"
    using o assms(5) by (simp add: osc_inv_def tableLength_def)
  ultimately show ?thesis using inv o by (simp add: sys_inv_def osc_inv_def)
qed

lemma demo_sys_reachable: "sys_reachable demo_sys"
proof -
  have r0: "sys_reachable (demo_heap, initBlendOscillator)" by (rule sys_reachable.init) simp
  have r1: "sys_reachable (demo_heap, osc_step initBlendOscillator (SetWaveTable1 (Some 0)))"
    by (rule sys_reachable.step [OF r0, of "OscOp (SetWaveTable1 (Some 0))"]) simp
  have r2: "sys_reachable (demo_heap, osc_step (osc_step initBlendOscillator (SetWaveTable1 (Some 0))) (SetWaveTable2 (Some 1)))"
    by (rule sys_reachable.step [OF r1, of "OscOp (SetWaveTable2 (Some 1))"]) simp
  have "sys_reachable (demo_heap, osc_step (osc_step (osc_step initBlendOscillator (SetWaveTable1 (Some 0))) (SetWaveTable2 (Some 1))) CalculateIncrement)"
    by (rule sys_reachable.step [OF r2, of "OscOp CalculateIncrement"]) simp
  then show ?thesis by (simp add: demo_sys_def demo_osc_def)
qed

lemma demo_sys_fields:
  "waveTable1 (snd demo_sys) = Some 0" "waveTable2 (snd demo_sys) = Some 1"
  "sampleRate (snd demo_sys) = 44100" "phaseIndex (snd demo_sys) = 0"
  "increment (snd demo_sys) = real tableLength * freq (snd demo_sys) / sampleRate (snd demo_sys)"
  by (simp_all add: demo_sys_def demo_osc_def calculateIncrement_def initBlendOscillator_def
      setWaveTable1_def setWaveTable2_def)

text \<open>
  C20 (safety). In every state of the system reachable from well-formed tables
  by oscillator operations, table operations at any address, pulse-width
  changes and sample pulls, a sample pull with both tables bound, a sample
  rate of at least 10 kHz, a freshly calculated increment and a non-negative
  phase never fails: it returns the specified blended sample.
\<close>

theorem sys_sample_safe:
  assumes "sys_reachable (heap, osc)" "waveTable1 osc = Some p1" "waveTable2 osc = Some p2"
    and "10000 \<le> sampleRate osc" "increment osc = real tableLength * freq osc / sampleRate osc"
    and "0 \<le> phaseIndex osc"
  shows "getSample heap osc =
           Inr (blend_spec heap p1 p2 osc,
                osc\<lparr>phaseIndex := wrap_mod (real tableLength) (phaseIndex osc) + increment osc\<rparr>)"
  using sys_reachable_sample [OF assms(1-5)] assms(2,3,6) by (intro getSample_eq) simp_all

theorem sys_sample_safe_witness:
  "sys_reachable (fst demo_sys, snd demo_sys) \<and> waveTable1 (snd demo_sys) = Some 0 \<and>
   waveTable2 (snd demo_sys) = Some 1 \<and> 10000 \<le> sampleRate (snd demo_sys) \<and>
   increment (snd demo_sys) = real tableLength * freq (snd demo_sys) / sampleRate (snd demo_sys) \<and>
   0 \<le> phaseIndex (snd demo_sys) \<and>
   getSample (fst demo_sys) (snd demo_sys) =
     Inr (blend_spec (fst demo_sys) 0 1 (snd demo_sys),
          (snd demo_sys)\<lparr>phaseIndex := wrap_mod (real tableLength) (phaseIndex (snd demo_sys)) + increment (snd demo_sys)\<rparr>)"
  using sys_sample_safe [of "fst demo_sys" "snd demo_sys" 0 1] demo_sys_reachable demo_sys_fields
  by simp

lemma sys_phase_after:
  assumes "sys_reachable (heap, osc)" "waveTable1 osc = Some p1" "waveTable2 osc = Some p2"
    and "10000 \<le> sampleRate osc" "increment osc = real tableLength * freq osc / sampleRate osc"
    and "0 \<le> phaseIndex osc"
  shows "\<exists>ys osc'. runSamples heap k osc = Inr (ys, osc') \<and>
           wrap_mod (real tableLength) (phaseIndex osc' - phaseIndex osc) =
           wrap_mod (real tableLength) (real k * increment osc)"
proof -
  note r = sys_reachable_sample [OF assms(1-5)]
  have L: "0 < real tableLength" by (simp add: tableLength_def)
  obtain ys osc' where run: "runSamples heap k osc = Inr (ys, osc')"
    and ph: "wrap_mod (real tableLength) (phaseIndex osc') =
             wrap_mod (real tableLength) (phaseIndex osc + real k * increment osc)"
    using runSamples_blocks [OF assms(2,3), of heap k] r assms(6) by auto
  have "wrap_mod (real tableLength) (phaseIndex osc' - phaseIndex osc) =
        wrap_mod (real tableLength) (real k * increment osc)"
    using wrap_mod_sub_cong [OF L ph, of "phaseIndex osc"] by simp
  then show ?thesis using run by blast
qed

text \<open>
  C21 (liveness). Under the same conditions the phase accumulator goes round
  the table once and comes back: after \<open>n = \<lceil>tableLength / increment\<rceil>\<close> sample
  pulls, all of which succeed, the phase is within one increment past its
  start value modulo the table length, and after every \<open>k\<close> pulls with
  \<open>0 < k < n\<close> it is at least one increment away from it (it has advanced by
  \<open>k * increment < tableLength\<close>).
\<close>

theorem sys_phase_returns:
  assumes "sys_reachable (heap, osc)" "waveTable1 osc = Some p1" "waveTable2 osc = Some p2"
    and "10000 \<le> sampleRate osc" "increment osc = real tableLength * freq osc / sampleRate osc"
    and "0 \<le> phaseIndex osc"
  shows "\<exists>ys osc'. runSamples heap (nat \<lceil>real tableLength / increment osc\<rceil>) osc = Inr (ys, osc') \<and>
           wrap_mod (real tableLength) (phaseIndex osc' - phaseIndex osc) < increment osc \<and>
           (\<forall>k zs oscz. 0 < k \<and> k < nat \<lceil>real tableLength / increment osc\<rceil> \<and>
              runSamples heap k osc = Inr (zs, oscz) \<longrightarrow>
              increment osc \<le> wrap_mod (real tableLength) (phaseIndex oscz - phaseIndex osc))"
proof -
  define n where "n = nat \<lceil>real tableLength / increment osc\<rceil>"
  note r = sys_reachable_sample [OF assms(1-5)]
  have L: "0 < real tableLength" by (simp add: tableLength_def)
  have inc: "0 < increment osc" using r by simp
  obtain ys osc' where run: "runSamples heap n osc = Inr (ys, osc')"
    and ph: "wrap_mod (real tableLength) (phaseIndex osc' - phaseIndex osc) =
             wrap_mod (real tableLength) (real n * increment osc)"
    using sys_phase_after [OF assms, of n] by blast
  have ret: "wrap_mod (real tableLength) (phaseIndex osc' - phaseIndex osc) < increment osc"
    unfolding ph n_def using L inc by (rule wrap_mod_ceiling_steps)
  have away: "increment osc \<le> wrap_mod (real tableLength) (phaseIndex oscz - phaseIndex osc)"
    if k: "0 < k" "k < n" and runk: "runSamples heap k osc = Inr (zs, oscz)" for k zs oscz
  proof -
    obtain ysk osck where "runSamples heap k osc = Inr (ysk, osck)"
      and phk: "wrap_mod (real tableLength) (phaseIndex osck - phaseIndex osc) =
                wrap_mod (real tableLength) (real k * increment osc)"
      using sys_phase_after [OF assms, of k] by blast
    then have phk': "wrap_mod (real tableLength) (phaseIndex oscz - phaseIndex osc) =
                     wrap_mod (real tableLength) (real k * increment osc)"
      using runk by simp
    have "real k < real tableLength / increment osc" using k(2) unfolding n_def by linarith
    then have "real k * increment osc < real tableLength" using inc by (simp add: field_simps)
    then have "wrap_mod (real tableLength) (real k * increment osc) = real k * increment osc"
      using L inc by (intro wrap_mod_small) simp_all
    moreover have "1 * increment osc \<le> real k * increment osc"
      using k(1) inc by (intro mult_right_mono) simp_all
    ultimately show ?thesis using phk' by simp
  qed
  show ?thesis using run ret away unfolding n_def by blast
qed

theorem sys_phase_returns_witness:
  "sys_reachable (fst demo_sys, snd demo_sys) \<and> waveTable1 (snd demo_sys) = Some 0 \<and>
   waveTable2 (snd demo_sys) = Some 1 \<and> 10000 \<le> sampleRate (snd demo_sys) \<and>
   increment (snd demo_sys) = real tableLength * freq (snd demo_sys) / sampleRate (snd demo_sys) \<and>
   0 \<le> phaseIndex (snd demo_sys) \<and>
   (\<exists>ys osc'. runSamples (fst demo_sys) (nat \<lceil>real tableLength / increment (snd demo_sys)\<rceil>) (snd demo_sys) = Inr (ys, osc') \<and>
      wrap_mod (real tableLength) (phaseIndex osc' - phaseIndex (snd demo_sys)) < increment (snd demo_sys)) \<and>
   (\<exists>ys osc'. runSamples (fst demo_sys) 1 (snd demo_sys) = Inr (ys, osc') \<and>
      increment (snd demo_sys) \<le> wrap_mod (real tableLength) (phaseIndex osc' - phaseIndex (snd demo_sys)))"
proof -
  have r: "sys_reachable (fst demo_sys, snd demo_sys)" using demo_sys_reachable by simp
  have s: "10000 \<le> sampleRate (snd demo_sys)" and p: "0 \<le> phaseIndex (snd demo_sys)"
    by (simp_all add: demo_sys_fields)
  have one: "1 < nat \<lceil>real tableLength / increment (snd demo_sys)\<rceil>"
    by (simp add: demo_sys_def demo_osc_def calculateIncrement_def initBlendOscillator_def
        setWaveTable1_def setWaveTable2_def tableLength_def)
  obtain ys osc' where
    main: "runSamples (fst demo_sys) (nat \<lceil>real tableLength / increment (snd demo_sys)\<rceil>) (snd demo_sys) = Inr (ys, osc')"
      "wrap_mod (real tableLength) (phaseIndex osc' - phaseIndex (snd demo_sys)) < increment (snd demo_sys)"
    and away: "\<forall>k zs oscz. 0 < k \<and> k < nat \<lceil>real tableLength / increment (snd demo_sys)\<rceil> \<and>
              runSamples (fst demo_sys) k (snd demo_sys) = Inr (zs, oscz) \<longrightarrow>
              increment (snd demo_sys) \<le> wrap_mod (real tableLength) (phaseIndex oscz - phaseIndex (snd demo_sys))"
    using sys_phase_returns [OF r demo_sys_fields(1,2) s demo_sys_fields(5) p] by blast
  obtain ys1 osc1 where run1: "runSamples (fst demo_sys) 1 (snd demo_sys) = Inr (ys1, osc1)"
    using sys_phase_after [OF r demo_sys_fields(1,2) s demo_sys_fields(5) p, of 1] by blast
  have "increment (snd demo_sys) \<le> wrap_mod (real tableLength) (phaseIndex osc1 - phaseIndex (snd demo_sys))"
    using away [rule_format, of 1 ys1 osc1] one run1 by simp
  then show ?thesis using r s p demo_sys_fields main run1 by blast
qed

text \<open>
  C22 (safety). \<open>setPulseWidth\<close> writes through both table pointers: with both
  bound it sets the symmetry of the two shared tables to \<open>pw / 100\<close> and
  regenerates them, every other table of the heap is left alone, and all
  tables stay well formed, also when both pointers name the same table.
\<close>

theorem setPulseWidth_shared:
  assumes "waveTable1 osc = Some p1" "waveTable2 osc = Some p2" "\<forall>a. wf_wavetable (heap a)"
  shows "\<exists>heap'. setPulseWidth heap osc pw = Inr heap' \<and>
           (\<forall>a. a \<noteq> p1 \<and> a \<noteq> p2 \<longrightarrow> heap' a = heap a) \<and>
           symmetry (heap' p1) = 0.01 * pw \<and> symmetry (heap' p2) = 0.01 * pw \<and>
           (\<forall>a. wf_wavetable (heap' a))"
proof -
  define heap' where "heap' = (heap(p1 := setSymmetry (0.01 * pw) (heap p1)))
                 (p2 := setSymmetry (0.01 * pw) ((heap(p1 := setSymmetry (0.01 * pw) (heap p1))) p2))"
  have e: "setPulseWidth heap osc pw = Inr heap'"
    unfolding heap'_def by (rule setPulseWidth_bound [OF assms(1,2)])
  have "\<forall>a. wf_wavetable (heap' a)" using setPulseWidth_wf [OF assms(3) e] .
  then show ?thesis using e by (auto simp: heap'_def)
qed

theorem setPulseWidth_shared_witness:
  "waveTable1 (snd demo_sys) = Some 0 \<and> waveTable2 (snd demo_sys) = Some 1 \<and>
   (\<forall>a. wf_wavetable (fst demo_sys a)) \<and>
   (\<exists>heap'. setPulseWidth (fst demo_sys) (snd demo_sys) 30 = Inr heap' \<and>
      heap' 5 = fst demo_sys 5 \<and>
      symmetry (heap' 0) = 0.01 * 30 \<and> symmetry (heap' 1) = 0.01 * 30 \<and>
      (\<forall>a. wf_wavetable (heap' a)))"
proof -
  have w: "\<forall>a. wf_wavetable (fst demo_sys a)" by (simp add: demo_sys_def)
  obtain heap' where h: "setPulseWidth (fst demo_sys) (snd demo_sys) 30 = Inr heap'"
      "\<forall>a. a \<noteq> 0 \<and> a \<noteq> 1 \<longrightarrow> heap' a = fst demo_sys a"
      "symmetry (heap' 0) = 0.01 * 30" "symmetry (heap' 1) = 0.01 * 30" "\<forall>a. wf_wavetable (heap' a)"
    using setPulseWidth_shared [of "snd demo_sys" 0 1 "fst demo_sys" 30] demo_sys_fields w by auto
  have "heap' 5 = fst demo_sys 5" using h(2) by simp
  then show ?thesis using h demo_sys_fields w by blast
qed

end
